(* ===== verification/Prelude.thy ===== *)
theory Prelude
  imports Main "HOL-Library.Word" "HOL-Library.Multiset" "HOL-Library.Monad_Syntax"
begin

text \<open>
  Shared vocabulary of the development: the machine integer types of the C sources, the
  collections of simplification rules the component theories fill, and the facts on lists
  and words that more than one component needs.

  A value of type \<open>'a option\<close> returned by a function of the model means "defined or not":
  \<open>None\<close> stands for undefined behaviour of the C program (a null dereference, an access
  outside an allocated block, an out-of-range conversion), so a theorem of the form
  \<open>f x = Some y\<close> states in particular that the C code stays defined.
\<close>

unbundle bit_operations_syntax

type_synonym u8 = "8 word"
type_synonym u16 = "16 word"
type_synonym u32 = "32 word"
type_synonym u64 = "64 word"

text \<open>Pointers are opaque addresses; 0 is the null pointer.\<close>

type_synonym ptr = nat

abbreviation (input) NULL :: ptr where
  "NULL \<equiv> 0"

named_theorems layout_simps \<open>sizes and constants of the headers\<close>
named_theorems frame_simps \<open>fields an operation leaves alone\<close>
named_theorems call_simps \<open>effect of a library call on the call trace\<close>

section \<open>Integer conversions of C\<close>

text \<open>
  The comparison \<open>result < sizeof(x)\<close> of the sources compares an \<open>int\<close> with a
  \<open>size_t\<close>: the usual arithmetic conversions turn the \<open>int\<close> into an unsigned 64-bit
  value first, so a negative \<open>int\<close> is a huge number.
\<close>

definition int_lt_size :: "int \<Rightarrow> nat \<Rightarrow> bool" where
  "int_lt_size r n \<longleftrightarrow> (word_of_int r :: u64) < word_of_nat n"

lemma uint_word_of_int_64: "uint (word_of_int r :: u64) = r mod 18446744073709551616"
  by (simp add: uint_word_of_int)

lemma uint_word_of_nat_64: "uint (word_of_nat n :: u64) = int n mod 18446744073709551616"
  using uint_word_of_int_64 [of "int n"] by simp

lemma int_lt_size_mod:
  "int_lt_size r n \<longleftrightarrow> r mod 18446744073709551616 < int n mod 18446744073709551616"
  by (simp only: int_lt_size_def word_less_def uint_word_of_int_64 uint_word_of_nat_64)

text \<open>On values an \<open>int\<close> can hold, only the non-negative ones can be below a small size.\<close>

lemma int_lt_size_iff:
  assumes "- (2 ^ 31) \<le> r" and "r < 2 ^ 31" and "n < 2 ^ 31"
  shows "int_lt_size r n \<longleftrightarrow> 0 \<le> r \<and> r < int n"
proof -
  have n: "int n mod 18446744073709551616 = int n"
    using assms(3) by (intro mod_pos_pos_trivial) auto
  show ?thesis
  proof (cases "0 \<le> r")
    case True
    then have "r mod 18446744073709551616 = r"
      using assms(2) by (intro mod_pos_pos_trivial) auto
    with n True show ?thesis by (simp only: int_lt_size_mod) simp
  next
    case False
    have "r mod 18446744073709551616 = (r + 18446744073709551616) mod 18446744073709551616"
      by simp
    also have "\<dots> = r + 18446744073709551616"
      using False assms(1) by (intro mod_pos_pos_trivial) auto
    finally have "r mod 18446744073709551616 = r + 18446744073709551616" .
    with n False assms(1,3) show ?thesis by (simp only: int_lt_size_mod) simp
  qed
qed

lemma int_lt_size_negative:
  "- (2 ^ 31) \<le> r \<Longrightarrow> r < 0 \<Longrightarrow> n < 2 ^ 31 \<Longrightarrow> \<not> int_lt_size r n"
  by (simp add: int_lt_size_iff)

text \<open>The conversion of an \<open>int\<close>-valued expression to a narrower unsigned type.\<close>

abbreviation to_u16 :: "u32 \<Rightarrow> u16" where
  "to_u16 x \<equiv> ucast x"

section \<open>Lists\<close>

lemma nth_list_update_distinct_mset:
  assumes "i < length xs"
  shows "mset (xs[i := y]) + {#xs ! i#} = mset xs + {#y#}"
  using assms by (simp add: mset_update)

lemma map_upt_Suc_shift: "map f [0..<Suc n] = f 0 # map (\<lambda>k. f (Suc k)) [0..<n]"
  by (simp add: map_upt_Suc del: upt_Suc)

lemma take_all_list_update: "n \<le> i \<Longrightarrow> take n (xs[i := y]) = take n xs"
  by (simp add: take_update_swap list_update_beyond)

section \<open>Checked array access and counted loops\<close>

text \<open>Reading and writing an array element; outside the array both are undefined.\<close>

definition rd :: "'a list \<Rightarrow> nat \<Rightarrow> 'a option" where
  "rd xs i = (if i < length xs then Some (xs ! i) else None)"

definition wr :: "'a list \<Rightarrow> nat \<Rightarrow> 'a \<Rightarrow> 'a list option" where
  "wr xs i x = (if i < length xs then Some (xs[i := x]) else None)"

lemma rd_Some [simp]: "i < length xs \<Longrightarrow> rd xs i = Some (xs ! i)"
  by (simp add: rd_def)

lemma wr_Some [simp]: "i < length xs \<Longrightarrow> wr xs i x = Some (xs[i := x])"
  by (simp add: wr_def)

lemma rd_eq_Some_iff: "rd xs i = Some x \<longleftrightarrow> i < length xs \<and> xs ! i = x"
  by (simp add: rd_def)

lemma wr_eq_Some_iff: "wr xs i x = Some ys \<longleftrightarrow> i < length xs \<and> ys = xs[i := x]"
  by (auto simp: wr_def)

text \<open>The same with an index of a signed C type.\<close>

definition rdi :: "'a list \<Rightarrow> int \<Rightarrow> 'a option" where
  "rdi xs i = (if 0 \<le> i then rd xs (nat i) else None)"

definition wri :: "'a list \<Rightarrow> int \<Rightarrow> 'a \<Rightarrow> 'a list option" where
  "wri xs i x = (if 0 \<le> i then wr xs (nat i) x else None)"

lemma rdi_Some [simp]: "0 \<le> i \<Longrightarrow> i < int (length xs) \<Longrightarrow> rdi xs i = Some (xs ! nat i)"
  by (simp add: rdi_def nat_less_iff)

lemma wri_Some [simp]: "0 \<le> i \<Longrightarrow> i < int (length xs) \<Longrightarrow> wri xs i x = Some (xs[nat i := x])"
  by (simp add: wri_def nat_less_iff)

text \<open>\<open>for (i = \<dots>)\<close> over a list of index values, with a body that may be undefined.\<close>

fun for_loop :: "'i list \<Rightarrow> ('i \<Rightarrow> 's \<Rightarrow> 's option) \<Rightarrow> 's \<Rightarrow> 's option" where
  "for_loop [] body s = Some s"
| "for_loop (i # is) body s = body i s \<bind> for_loop is body"

lemma for_loop_append:
  "for_loop (is @ js) body s = for_loop is body s \<bind> for_loop js body"
  by (induction "is" arbitrary: s) (auto split: bind_splits)

text \<open>The loop rule: an invariant that every iteration re-establishes, and keeps defined.\<close>

lemma for_loop_inv:
  assumes "P s"
    and "\<And>i s. i \<in> set is \<Longrightarrow> P s \<Longrightarrow> \<exists>s'. body i s = Some s' \<and> P s'"
  shows "\<exists>s'. for_loop is body s = Some s' \<and> P s'"
  using assms
proof (induction "is" arbitrary: s)
  case Nil
  then show ?case by simp
next
  case (Cons i js)
  then obtain s' where "body i s = Some s'" and "P s'"
    by (metis list.set_intros(1))
  with Cons show ?case by simp
qed

lemma for_loop_upt_inv:
  assumes "a \<le> b" and "P a s"
    and "\<And>i s. a \<le> i \<Longrightarrow> i < b \<Longrightarrow> P i s \<Longrightarrow> \<exists>s'. body i s = Some s' \<and> P (Suc i) s'"
  shows "\<exists>s'. for_loop [a..<b] body s = Some s' \<and> P b s'"
  using assms
proof (induction "b - a" arbitrary: a s)
  case 0
  then show ?case by simp
next
  case (Suc n)
  then have "a < b" by simp
  with Suc.prems obtain s' where s': "body a s = Some s'" "P (Suc a) s'"
    by (metis order_refl)
  have "\<exists>t. for_loop [Suc a..<b] body s' = Some t \<and> P b t"
    using Suc.hyps(2) s' Suc.prems by (intro Suc.hyps(1)) auto
  with s' \<open>a < b\<close> show ?case by (simp add: upt_conv_Cons)
qed

section \<open>Ring indices\<close>

text \<open>The sources advance ring indices with \<open>(i + 1) & (SIZE - 1)\<close>, \<open>SIZE\<close> a power of two.\<close>

lemma and_7_eq_mod_8: "(x :: int) AND 7 = x mod 8"
  using take_bit_eq_mask [of 3 x] by (simp add: take_bit_eq_mod mask_eq_exp_minus_1)

lemma and_3_eq_mod_4: "(x :: int) AND 3 = x mod 4"
  using take_bit_eq_mask [of 2 x] by (simp add: take_bit_eq_mod mask_eq_exp_minus_1)

lemma ring_neq:
  assumes "i < j" and "j < i + n"
  shows "i mod n \<noteq> (j :: int) mod n"
proof
  assume "i mod n = j mod n"
  then have "(j - i) mod n = 0" by (simp add: mod_eq_dvd_iff mod_0_imp_dvd dvd_diff_commute)
  moreover have "(j - i) mod n = j - i"
    using assms by (intro mod_pos_pos_trivial) auto
  ultimately show False using assms by simp
qed

end
