(* ===== verification/Airspyhf_Types.thy ===== *)
theory Airspyhf_Types
  imports Prelude
begin

text \<open>
  The types and constants of \<open>libairspyhf/src/airspyhf.h\<close> and
  \<open>libairspyhf/src/airspyhf_commands.h\<close>.
\<close>

section \<open>Status codes\<close>

definition AIRSPYHF_SUCCESS :: int where "AIRSPYHF_SUCCESS = 0"
definition AIRSPYHF_ERROR :: int where "AIRSPYHF_ERROR = -1"
definition AIRSPYHF_UNSUPPORTED :: int where "AIRSPYHF_UNSUPPORTED = -2"

lemmas status_codes = AIRSPYHF_SUCCESS_def AIRSPYHF_ERROR_def AIRSPYHF_UNSUPPORTED_def

lemma status_distinct [simp]:
  "AIRSPYHF_SUCCESS \<noteq> AIRSPYHF_ERROR" "AIRSPYHF_ERROR \<noteq> AIRSPYHF_SUCCESS"
  "AIRSPYHF_SUCCESS \<noteq> AIRSPYHF_UNSUPPORTED" "AIRSPYHF_UNSUPPORTED \<noteq> AIRSPYHF_SUCCESS"
  "AIRSPYHF_ERROR \<noteq> AIRSPYHF_UNSUPPORTED" "AIRSPYHF_UNSUPPORTED \<noteq> AIRSPYHF_ERROR"
  by (simp_all add: status_codes)

section \<open>Vendor requests\<close>

datatype airspyhf_vendor_request =
    AIRSPYHF_INVALID
  | AIRSPYHF_RECEIVER_MODE
  | AIRSPYHF_SET_FREQ
  | AIRSPYHF_GET_SAMPLERATES
  | AIRSPYHF_SET_SAMPLERATE
  | AIRSPYHF_CONFIG_READ
  | AIRSPYHF_CONFIG_WRITE
  | AIRSPYHF_GET_SERIALNO_BOARDID
  | AIRSPYHF_SET_USER_OUTPUT
  | AIRSPYHF_GET_VERSION_STRING
  | AIRSPYHF_SET_AGC
  | AIRSPYHF_SET_AGC_THRESHOLD
  | AIRSPYHF_SET_ATT
  | AIRSPYHF_SET_LNA
  | AIRSPYHF_GET_SAMPLERATE_ARCHITECTURES
  | AIRSPYHF_GET_FILTER_GAIN
  | AIRSPYHF_GET_FREQ_DELTA
  | AIRSPYHF_SET_VCTCXO_CALIBRATION
  | AIRSPYHF_SET_FRONTEND_OPTIONS
  | AIRSPYHF_GET_ATT_STEPS
  | AIRSPYHF_GET_BIAS_TEE_COUNT
  | AIRSPYHF_GET_BIAS_TEE_NAME
  | AIRSPYHF_SET_BIAS_TEE

fun request_code :: "airspyhf_vendor_request \<Rightarrow> nat" where
  "request_code AIRSPYHF_INVALID = 0"
| "request_code AIRSPYHF_RECEIVER_MODE = 1"
| "request_code AIRSPYHF_SET_FREQ = 2"
| "request_code AIRSPYHF_GET_SAMPLERATES = 3"
| "request_code AIRSPYHF_SET_SAMPLERATE = 4"
| "request_code AIRSPYHF_CONFIG_READ = 5"
| "request_code AIRSPYHF_CONFIG_WRITE = 6"
| "request_code AIRSPYHF_GET_SERIALNO_BOARDID = 7"
| "request_code AIRSPYHF_SET_USER_OUTPUT = 8"
| "request_code AIRSPYHF_GET_VERSION_STRING = 9"
| "request_code AIRSPYHF_SET_AGC = 10"
| "request_code AIRSPYHF_SET_AGC_THRESHOLD = 11"
| "request_code AIRSPYHF_SET_ATT = 12"
| "request_code AIRSPYHF_SET_LNA = 13"
| "request_code AIRSPYHF_GET_SAMPLERATE_ARCHITECTURES = 14"
| "request_code AIRSPYHF_GET_FILTER_GAIN = 15"
| "request_code AIRSPYHF_GET_FREQ_DELTA = 16"
| "request_code AIRSPYHF_SET_VCTCXO_CALIBRATION = 17"
| "request_code AIRSPYHF_SET_FRONTEND_OPTIONS = 18"
| "request_code AIRSPYHF_GET_ATT_STEPS = 19"
| "request_code AIRSPYHF_GET_BIAS_TEE_COUNT = 20"
| "request_code AIRSPYHF_GET_BIAS_TEE_NAME = 21"
| "request_code AIRSPYHF_SET_BIAS_TEE = 22"

lemma request_code_inject: "request_code r = request_code s \<longleftrightarrow> r = s"
  by (cases r; cases s; simp)

text \<open>Requests are ordered by their code.\<close>

instantiation airspyhf_vendor_request :: linorder
begin

definition less_eq_airspyhf_vendor_request ::
  "airspyhf_vendor_request \<Rightarrow> airspyhf_vendor_request \<Rightarrow> bool" where
  "r \<le> s \<longleftrightarrow> request_code r \<le> request_code s"

definition less_airspyhf_vendor_request ::
  "airspyhf_vendor_request \<Rightarrow> airspyhf_vendor_request \<Rightarrow> bool" where
  "r < s \<longleftrightarrow> request_code r < request_code s"

instance
  by standard
     (auto simp: less_eq_airspyhf_vendor_request_def less_airspyhf_vendor_request_def
        request_code_inject)

end

datatype receiver_mode_t = RECEIVER_MODE_OFF | RECEIVER_MODE_ON

fun receiver_mode_code :: "receiver_mode_t \<Rightarrow> u16" where
  "receiver_mode_code RECEIVER_MODE_OFF = 0"
| "receiver_mode_code RECEIVER_MODE_ON = 1"

datatype airspyhf_user_output_t =
  AIRSPYHF_USER_OUTPUT_0 | AIRSPYHF_USER_OUTPUT_1 | AIRSPYHF_USER_OUTPUT_2 | AIRSPYHF_USER_OUTPUT_3

fun user_output_code :: "airspyhf_user_output_t \<Rightarrow> u16" where
  "user_output_code AIRSPYHF_USER_OUTPUT_0 = 0"
| "user_output_code AIRSPYHF_USER_OUTPUT_1 = 1"
| "user_output_code AIRSPYHF_USER_OUTPUT_2 = 2"
| "user_output_code AIRSPYHF_USER_OUTPUT_3 = 3"

datatype airspyhf_user_output_state_t = AIRSPYHF_USER_OUTPUT_LOW | AIRSPYHF_USER_OUTPUT_HIGH

fun user_output_state_code :: "airspyhf_user_output_state_t \<Rightarrow> u16" where
  "user_output_state_code AIRSPYHF_USER_OUTPUT_LOW = 0"
| "user_output_state_code AIRSPYHF_USER_OUTPUT_HIGH = 1"

section \<open>Versions and other records of the interface\<close>

record airspyhf_lib_version_t =
  major_version :: u32
  minor_version :: u32
  revision :: u32

record airspyhf_read_partid_serialno_t =
  part_id :: u32
  serial_no :: "u32 list"

definition MAX_NAME_STRING_SIZE :: nat where "MAX_NAME_STRING_SIZE = 64"
definition MAX_VERSION_STRING_SIZE :: nat where "MAX_VERSION_STRING_SIZE = MAX_NAME_STRING_SIZE"
definition AIRSPYHF_ENDPOINT_IN :: nat where "AIRSPYHF_ENDPOINT_IN = 1"

lemmas string_sizes [layout_simps] = MAX_NAME_STRING_SIZE_def MAX_VERSION_STRING_SIZE_def

definition airspyhf_lib_version :: airspyhf_lib_version_t where
  "airspyhf_lib_version = \<lparr>major_version = 1, minor_version = 8, revision = 1\<rparr>"

end
