(* ===== verification/Usb_World.thy ===== *)
theory Usb_World
  imports Airspyhf_Types
begin

text \<open>
  The world the driver runs in. libusb, the allocator and the thread library are not part
  of the repository: they are a parameter \<open>E\<close> of the model, a record of answer functions.
  Each call the driver makes is appended to a trace, and an answer may depend on the whole
  trace so far, so that quantifying over \<open>E\<close> covers every device, host and schedule of
  failures. The trace is also what the theorems on the order of operations speak about.
\<close>

section \<open>Calls and traces\<close>

datatype api_call =
    Malloc nat ptr                       \<comment> \<open>size and the address returned\<close>
  | Free ptr
  | CtrlOut airspyhf_vendor_request u16 u16 "u8 list"   \<comment> \<open>request, wValue, wIndex, data\<close>
  | CtrlIn airspyhf_vendor_request u16 u16 nat          \<comment> \<open>request, wValue, wIndex, wLength\<close>
  | ClearHalt nat
  | AllocTransfer ptr
  | FreeTransfer ptr
  | SubmitTransfer ptr ptr               \<comment> \<open>transfer and its buffer\<close>
  | CancelTransfer ptr
  | HandleEvents
  | InterruptEventHandler
  | ThreadCreate nat
  | ThreadJoin nat
  | LibInit ptr                          \<comment> \<open>the context created, null on failure\<close>
  | LibExit ptr
  | GetDeviceList ptr                    \<comment> \<open>the list created, null on failure\<close>
  | FreeDeviceList ptr
  | OpenDevice nat ptr                   \<comment> \<open>position in the list, the handle created\<close>
  | GetString ptr u8
  | SetConfiguration ptr
  | ClaimInterface ptr
  | SetAltSetting ptr
  | ReleaseInterface ptr
  | CloseDevice ptr
  | FileOpen ptr                         \<comment> \<open>the \<open>FILE\<close> of the C library, null on failure\<close>
  | FileClose ptr

type_synonym trace = "api_call list"

text \<open>A device on the bus, with the fields of its descriptor the driver reads.\<close>

record usb_dev =
  idVendor :: u16
  idProduct :: u16
  iSerialNumber :: u8

record env =
  ret :: "trace \<Rightarrow> api_call \<Rightarrow> int"            \<comment> \<open>the \<open>int\<close> a call returns\<close>
  reply :: "trace \<Rightarrow> api_call \<Rightarrow> u8 list"       \<comment> \<open>the bytes it delivers\<close>
  alloc_ok :: "trace \<Rightarrow> nat \<Rightarrow> bool"            \<comment> \<open>whether an allocation succeeds\<close>
  junk :: "trace \<Rightarrow> nat \<Rightarrow> u8"                  \<comment> \<open>indeterminate bytes\<close>
  xfer_struct_size :: nat                     \<comment> \<open>\<open>sizeof(struct libusb_transfer)\<close>\<close>
  device_struct_size :: nat                   \<comment> \<open>\<open>sizeof(airspyhf_device_t)\<close>\<close>
  balancer_struct_size :: nat                 \<comment> \<open>\<open>sizeof(struct iq_balancer_t)\<close>\<close>
  bus :: "trace \<Rightarrow> usb_dev list"                \<comment> \<open>the device list\<close>
  completions :: "trace \<Rightarrow> (nat \<times> bool \<times> int) list"
    \<comment> \<open>transfers an event handling call completes: index, completed without error, length\<close>

section \<open>The calls\<close>

text \<open>A transfer of \<open>bs\<close> bytes over the start of a memory area.\<close>

definition blit :: "'a list \<Rightarrow> 'a list \<Rightarrow> 'a list" where
  "blit bs area = bs @ drop (length bs) area"

lemma length_blit: "length bs \<le> length area \<Longrightarrow> length (blit bs area) = length area"
  by (simp add: blit_def)

definition libusb_control_out ::
  "env \<Rightarrow> airspyhf_vendor_request \<Rightarrow> u16 \<Rightarrow> u16 \<Rightarrow> u8 list \<Rightarrow> trace \<Rightarrow> int \<times> trace" where
  "libusb_control_out E req v i d w =
     (let c = CtrlOut req v i d in (ret E w c, w @ [c]))"

text \<open>An IN transfer never delivers more than \<open>wLength\<close> bytes.\<close>

definition libusb_control_in ::
  "env \<Rightarrow> airspyhf_vendor_request \<Rightarrow> u16 \<Rightarrow> u16 \<Rightarrow> nat \<Rightarrow> trace \<Rightarrow> int \<times> u8 list \<times> trace" where
  "libusb_control_in E req v i n w =
     (let c = CtrlIn req v i n in (ret E w c, take n (reply E w c), w @ [c]))"

text \<open>A new address is the position in the trace plus one, hence fresh and not null.\<close>

definition malloc :: "env \<Rightarrow> nat \<Rightarrow> trace \<Rightarrow> ptr \<times> trace" where
  "malloc E n w = (let p = (if alloc_ok E w n then Suc (length w) else NULL)
                   in (p, w @ [Malloc n p]))"

definition free :: "ptr \<Rightarrow> trace \<Rightarrow> trace" where
  "free p w = w @ [Free p]"

definition call :: "env \<Rightarrow> api_call \<Rightarrow> trace \<Rightarrow> int \<times> trace" where
  "call E c w = (ret E w c, w @ [c])"

text \<open>
  A call that creates a resource: the question is asked with the null pointer, the trace
  records the address created.
\<close>

definition create_call :: "env \<Rightarrow> (ptr \<Rightarrow> api_call) \<Rightarrow> bool \<Rightarrow> trace \<Rightarrow> ptr \<times> trace" where
  "create_call E c ok w = (let p = (if ok then Suc (length w) else NULL) in (p, w @ [c p]))"

definition libusb_init :: "env \<Rightarrow> trace \<Rightarrow> int \<times> ptr \<times> trace" where
  "libusb_init E w = (let r = ret E w (LibInit NULL) in (r, create_call E LibInit (r = 0) w))"

definition libusb_get_device_list :: "env \<Rightarrow> trace \<Rightarrow> int \<times> usb_dev list \<times> ptr \<times> trace" where
  "libusb_get_device_list E w =
     (let r = ret E w (GetDeviceList NULL) in (r, bus E w, create_call E GetDeviceList (0 \<le> r) w))"

definition libusb_open :: "env \<Rightarrow> nat \<Rightarrow> trace \<Rightarrow> int \<times> ptr \<times> trace" where
  "libusb_open E i w = (let r = ret E w (OpenDevice i NULL) in (r, create_call E (OpenDevice i) (r = 0) w))"

text \<open>The string buffer has 29 bytes; what the call does not fill stays indeterminate.\<close>

definition libusb_get_string_descriptor_ascii ::
  "env \<Rightarrow> ptr \<Rightarrow> u8 \<Rightarrow> nat \<Rightarrow> trace \<Rightarrow> int \<times> u8 list \<times> trace" where
  "libusb_get_string_descriptor_ascii E h i n w =
     (let c = GetString h i in
      (ret E w c, blit (take n (reply E w c)) (map (junk E w) [0..<n]), w @ [c]))"

definition log_call :: "api_call \<Rightarrow> trace \<Rightarrow> trace" where
  "log_call c w = w @ [c]"

lemma control_out_trace [call_simps]:
  "snd (libusb_control_out E req v i d w) = w @ [CtrlOut req v i d]"
  by (simp add: libusb_control_out_def Let_def)

lemma control_in_trace [call_simps]:
  "snd (snd (libusb_control_in E req v i n w)) = w @ [CtrlIn req v i n]"
  by (simp add: libusb_control_in_def Let_def)

lemma control_in_length:
  "length (fst (snd (libusb_control_in E req v i n w))) \<le> n"
  by (simp add: libusb_control_in_def Let_def)

lemma malloc_trace [call_simps]:
  "snd (malloc E n w) = w @ [Malloc n (fst (malloc E n w))]"
  by (simp add: malloc_def Let_def)

lemma malloc_null_or_fresh:
  "fst (malloc E n w) = NULL \<or> fst (malloc E n w) = Suc (length w)"
  by (simp add: malloc_def Let_def)

section \<open>Reading a trace\<close>

text \<open>The blocks, contexts, lists, handles and files created and not yet released.\<close>

definition live_step :: "ptr multiset \<Rightarrow> api_call \<Rightarrow> ptr multiset" where
  "live_step L c = (case c of
     Malloc n p \<Rightarrow> (if p = NULL then L else add_mset p L)
   | AllocTransfer p \<Rightarrow> (if p = NULL then L else add_mset p L)
   | LibInit p \<Rightarrow> (if p = NULL then L else add_mset p L)
   | GetDeviceList p \<Rightarrow> (if p = NULL then L else add_mset p L)
   | OpenDevice i p \<Rightarrow> (if p = NULL then L else add_mset p L)
   | FileOpen p \<Rightarrow> (if p = NULL then L else add_mset p L)
   | FileClose p \<Rightarrow> L - {#p#}
   | Free p \<Rightarrow> L - {#p#}
   | FreeTransfer p \<Rightarrow> L - {#p#}
   | LibExit p \<Rightarrow> L - {#p#}
   | FreeDeviceList p \<Rightarrow> L - {#p#}
   | CloseDevice p \<Rightarrow> L - {#p#}
   | _ \<Rightarrow> L)"

definition live :: "trace \<Rightarrow> ptr multiset" where
  "live w = foldl live_step {#} w"

lemma live_snoc: "live (w @ [c]) = live_step (live w) c"
  by (simp add: live_def)

lemma live_free: "live (free p w) = live w - {#p#}"
  by (simp add: free_def live_snoc live_step_def)

lemma live_append: "live (v @ w) = foldl live_step (live v) w"
  by (simp add: live_def)

lemma live_Nil [simp]: "live [] = {#}"
  by (simp add: live_def)

text \<open>The threads joined in a trace, in order.\<close>

definition joins :: "trace \<Rightarrow> nat list" where
  "joins w = List.map_filter (\<lambda>c. case c of ThreadJoin t \<Rightarrow> Some t | _ \<Rightarrow> None) w"

lemma joins_append [simp]: "joins (v @ w) = joins v @ joins w"
  by (simp add: joins_def List.map_filter_def)

lemma joins_ThreadJoin [simp]: "joins [ThreadJoin t] = [t]"
  by (simp add: joins_def List.map_filter_def)

text \<open>The vendor requests of a trace, in order.\<close>

fun is_control :: "api_call \<Rightarrow> bool" where
  "is_control (CtrlOut _ _ _ _) = True"
| "is_control (CtrlIn _ _ _ _) = True"
| "is_control _ = False"

definition controls :: "trace \<Rightarrow> api_call list" where
  "controls w = filter is_control w"

lemma controls_append [simp]: "controls (v @ w) = controls v @ controls w"
  by (simp add: controls_def)

section \<open>Byte order\<close>

text \<open>
  The records exchanged with the device are read and written in the memory layout of a
  little-endian host without padding.
\<close>

definition bytes_of_u32 :: "u32 \<Rightarrow> u8 list" where
  "bytes_of_u32 x = [ucast x, ucast (drop_bit 8 x), ucast (drop_bit 16 x), ucast (drop_bit 24 x)]"

fun u32_of_bytes :: "u8 list \<Rightarrow> u32" where
  "u32_of_bytes (a # b # c # d # _) =
     ucast a OR push_bit 8 (ucast b) OR push_bit 16 (ucast c) OR push_bit 24 (ucast d)"
| "u32_of_bytes _ = 0"

definition be_bytes_of_u32 :: "u32 \<Rightarrow> u8 list" where
  "be_bytes_of_u32 x =
     [ucast (drop_bit 24 x), ucast (drop_bit 16 x), ucast (drop_bit 8 x), ucast x]"

lemma length_bytes_of_u32 [simp]: "length (bytes_of_u32 x) = 4"
  by (simp add: bytes_of_u32_def)

lemma length_be_bytes_of_u32 [simp]: "length (be_bytes_of_u32 x) = 4"
  by (simp add: be_bytes_of_u32_def)

lemma u32_of_bytes_of_u32: "u32_of_bytes (bytes_of_u32 x @ ys) = x"
proof (rule bit_word_eqI)
  fix n :: nat
  assume n: "n < LENGTH(32)"
  consider "n < 8" | "8 \<le> n" "n < 16" | "16 \<le> n" "n < 24" | "24 \<le> n" by linarith
  then show "bit (u32_of_bytes (bytes_of_u32 x @ ys)) n = bit x n"
    using n by cases (auto simp: bytes_of_u32_def bit_simps)
qed

lemma be_bytes_roundtrip: "u32_of_bytes (rev (be_bytes_of_u32 x)) = x"
  using u32_of_bytes_of_u32 [of x "[]"] by (simp add: be_bytes_of_u32_def bytes_of_u32_def)

definition junk_bytes :: "env \<Rightarrow> nat \<Rightarrow> trace \<Rightarrow> u8 list" where
  "junk_bytes E n w = map (junk E w) [0..<n]"

lemma length_junk_bytes [simp]: "length (junk_bytes E n w) = n"
  by (simp add: junk_bytes_def)

end
