(* ===== verification/C_Float.thy ===== *)
theory C_Float
  imports Prelude Complex_Main
begin

text \<open>
  The \<open>float\<close> and \<open>double\<close> types of C, as IEEE 754 binary32 and binary64 with the default
  rounding mode (to nearest, ties to even), each operation rounded once to the type of the
  C expression (\<open>FLT_EVAL_METHOD\<close> 0, no contraction of products and sums). A finite
  non-zero value is the rational number it stands for; signed zeros, infinities and a
  single NaN (its payload is never read by the sources) are values of their own. Both
  widths share one HOL type: widening is the identity and narrowing is a rounding.
  Every operation is exact rational arithmetic followed by \<open>rnd\<close>, and executable.
\<close>

section \<open>Values and formats\<close>

datatype cflt = NaN | Inf bool | Zero bool | Fin rat

record fformat =
  precision :: nat
  min_ulp :: int
  max_exp :: int

definition binary32 :: fformat where
  "binary32 = \<lparr>precision = 24, min_ulp = -149, max_exp = 128\<rparr>"

definition binary64 :: fformat where
  "binary64 = \<lparr>precision = 53, min_ulp = -1074, max_exp = 1024\<rparr>"

text \<open>The rational value of a finite float (0 for the others), and its sign bit.\<close>

fun val :: "cflt \<Rightarrow> rat" where
  "val (Fin x) = x"
| "val _ = 0"

fun neg :: "cflt \<Rightarrow> bool" where
  "neg NaN = False"
| "neg (Inf s) = s"
| "neg (Zero s) = s"
| "neg (Fin x) = (x < 0)"

fun finite_flt :: "cflt \<Rightarrow> bool" where
  "finite_flt (Zero _) = True"
| "finite_flt (Fin _) = True"
| "finite_flt _ = False"

section \<open>Rounding\<close>

text \<open>The position of the leading bit of a positive rational, by scaling it into [1, 2).\<close>

function flog2 :: "rat \<Rightarrow> int" where
  "flog2 x = (if x \<le> 0 then 0
              else if 2 \<le> x then flog2 (x / 2) + 1
              else if x < 1 then flog2 (x * 2) - 1
              else 0)"
  by pat_completeness auto

lemma flog2_halving: "2 \<le> (x :: rat) \<Longrightarrow> nat \<lfloor>x / 2\<rfloor> < nat \<lfloor>x\<rfloor>"
proof -
  assume x: "2 \<le> x"
  have "\<lfloor>x / 2\<rfloor> \<le> \<lfloor>x - 1\<rfloor>" using x by (intro floor_mono) linarith
  moreover have "2 \<le> \<lfloor>x\<rfloor>" using x by (simp add: le_floor_iff)
  ultimately show ?thesis by simp
qed

lemma flog2_doubling:
  assumes "0 < (x :: rat)" and "x * 2 < 1"
  shows "nat \<lceil>1 / (x * 2)\<rceil> < nat \<lceil>1 / x\<rceil>"
proof -
  have "1 < 1 / (x * 2)" using assms by (simp add: field_simps)
  moreover have e: "1 / x = 2 * (1 / (x * 2))" by simp
  ultimately have "1 / (x * 2) + 1 \<le> 1 / x" by linarith
  then have "\<lceil>1 / (x * 2)\<rceil> + 1 \<le> \<lceil>1 / x\<rceil>"
    using ceiling_mono [of "1 / (x * 2) + 1" "1 / x"] by simp
  moreover have "0 \<le> \<lceil>1 / (x * 2)\<rceil>" using \<open>1 < 1 / (x * 2)\<close> by (simp add: le_ceiling_iff)
  ultimately show ?thesis by linarith
qed

lemma flog2_doubling_last:
  assumes "0 < (x :: rat)" and "x < 1" and "1 \<le> x * 2"
  shows "nat \<lfloor>x * 2\<rfloor> < nat \<lceil>1 / x\<rceil>"
proof -
  have "1 < 1 / x" using assms by (simp add: field_simps)
  then have "2 \<le> \<lceil>1 / x\<rceil>" by (simp add: le_ceiling_iff)
  moreover have "\<lfloor>x * 2\<rfloor> < 2" using assms by (simp add: floor_less_iff)
  ultimately show ?thesis by linarith
qed

termination flog2
  by (relation "measure (\<lambda>x. if 1 \<le> x then nat \<lfloor>x\<rfloor> else nat \<lceil>1 / x\<rceil>)")
     (use flog2_halving flog2_doubling flog2_doubling_last in \<open>auto simp: not_le not_less\<close>)

declare flog2.simps [simp del]

definition round_half_even :: "rat \<Rightarrow> int" where
  "round_half_even x = (let f = \<lfloor>x\<rfloor>; r = x - of_int f
                        in if r < 1 / 2 then f
                           else if 1 / 2 < r then f + 1
                           else if even f then f else f + 1)"

definition ulp :: "fformat \<Rightarrow> rat \<Rightarrow> rat" where
  "ulp F x = 2 powi (max (flog2 \<bar>x\<bar> - (int (precision F) - 1)) (min_ulp F))"

text \<open>Rounding of an exact result; \<open>s\<close> is the sign of an exact zero.\<close>

definition rnd :: "fformat \<Rightarrow> bool \<Rightarrow> rat \<Rightarrow> cflt" where
  "rnd F s x =
     (if x = 0 then Zero s
      else let q = ulp F x; y = of_int (round_half_even (x / q)) * q
           in if y = 0 then Zero (x < 0)
              else if 2 powi (max_exp F) \<le> \<bar>y\<bar> then Inf (x < 0)
              else Fin y)"

abbreviation f32 :: "rat \<Rightarrow> cflt" where
  "f32 x \<equiv> rnd binary32 False x"

abbreviation f64 :: "rat \<Rightarrow> cflt" where
  "f64 x \<equiv> rnd binary64 False x"

section \<open>Arithmetic\<close>

fun fneg :: "cflt \<Rightarrow> cflt" where
  "fneg NaN = NaN"
| "fneg (Inf s) = Inf (\<not> s)"
| "fneg (Zero s) = Zero (\<not> s)"
| "fneg (Fin x) = Fin (- x)"

definition fadd :: "fformat \<Rightarrow> cflt \<Rightarrow> cflt \<Rightarrow> cflt" where
  "fadd F a b =
     (case (a, b) of
        (NaN, _) \<Rightarrow> NaN
      | (_, NaN) \<Rightarrow> NaN
      | (Inf s, Inf t) \<Rightarrow> (if s = t then Inf s else NaN)
      | (Inf s, _) \<Rightarrow> Inf s
      | (_, Inf t) \<Rightarrow> Inf t
      | (Zero s, Zero t) \<Rightarrow> Zero (s \<and> t)
      | _ \<Rightarrow> rnd F False (val a + val b))"

definition fsub :: "fformat \<Rightarrow> cflt \<Rightarrow> cflt \<Rightarrow> cflt" where
  "fsub F a b = fadd F a (fneg b)"

definition fmul :: "fformat \<Rightarrow> cflt \<Rightarrow> cflt \<Rightarrow> cflt" where
  "fmul F a b =
     (let s = (neg a \<noteq> neg b) in
      case (a, b) of
        (NaN, _) \<Rightarrow> NaN
      | (_, NaN) \<Rightarrow> NaN
      | (Inf _, Zero _) \<Rightarrow> NaN
      | (Zero _, Inf _) \<Rightarrow> NaN
      | (Inf _, _) \<Rightarrow> Inf s
      | (_, Inf _) \<Rightarrow> Inf s
      | _ \<Rightarrow> rnd F s (val a * val b))"

definition fdiv :: "fformat \<Rightarrow> cflt \<Rightarrow> cflt \<Rightarrow> cflt" where
  "fdiv F a b =
     (let s = (neg a \<noteq> neg b) in
      case (a, b) of
        (NaN, _) \<Rightarrow> NaN
      | (_, NaN) \<Rightarrow> NaN
      | (Inf _, Inf _) \<Rightarrow> NaN
      | (Zero _, Zero _) \<Rightarrow> NaN
      | (Inf _, _) \<Rightarrow> Inf s
      | (_, Zero _) \<Rightarrow> Inf s
      | (_, Inf _) \<Rightarrow> Zero s
      | _ \<Rightarrow> rnd F s (val a / val b))"

fun fabs :: "cflt \<Rightarrow> cflt" where
  "fabs NaN = NaN"
| "fabs (Inf _) = Inf False"
| "fabs (Zero _) = Zero False"
| "fabs (Fin x) = Fin \<bar>x\<bar>"

section \<open>Comparison and conversion\<close>

text \<open>Every comparison with a NaN is false.\<close>

fun flt_lt :: "cflt \<Rightarrow> cflt \<Rightarrow> bool" where
  "flt_lt NaN _ = False"
| "flt_lt _ NaN = False"
| "flt_lt (Inf s) (Inf t) = (s \<and> \<not> t)"
| "flt_lt (Inf s) _ = s"
| "flt_lt _ (Inf t) = (\<not> t)"
| "flt_lt a b = (val a < val b)"

definition flt_eq :: "cflt \<Rightarrow> cflt \<Rightarrow> bool" where
  "flt_eq a b =
     (a \<noteq> NaN \<and> b \<noteq> NaN \<and> (a = b \<or> (finite_flt a \<and> finite_flt b \<and> val a = val b)))"

definition flt_le :: "cflt \<Rightarrow> cflt \<Rightarrow> bool" where
  "flt_le a b = (flt_lt a b \<or> flt_eq a b)"

definition flt_of_int :: "fformat \<Rightarrow> int \<Rightarrow> cflt" where
  "flt_of_int F i = rnd F False (of_int i)"

text \<open>Assigning a \<open>double\<close> to a \<open>float\<close>.\<close>

fun to_f32 :: "cflt \<Rightarrow> cflt" where
  "to_f32 (Fin x) = rnd binary32 False x"
| "to_f32 a = a"

text \<open>\<open>round\<close> of the C library: to the nearest integer, halves away from zero.\<close>

definition round_half_away :: "rat \<Rightarrow> int" where
  "round_half_away x = (if 0 \<le> x then \<lfloor>x + 1 / 2\<rfloor> else - \<lfloor>- x + 1 / 2\<rfloor>)"

text \<open>
  Conversion to an integer type truncates, and is undefined behaviour where the truncated
  value does not fit (or there is no value).
\<close>

definition trunc_rat :: "rat \<Rightarrow> int" where
  "trunc_rat x = (if 0 \<le> x then \<lfloor>x\<rfloor> else - \<lfloor>- x\<rfloor>)"

definition flt_to_int :: "int \<Rightarrow> int \<Rightarrow> cflt \<Rightarrow> int option" where
  "flt_to_int lo hi a =
     (if finite_flt a \<and> lo \<le> trunc_rat (val a) \<and> trunc_rat (val a) \<le> hi
      then Some (trunc_rat (val a)) else None)"

text \<open>\<open>(uint32_t) round(a)\<close>; the rounded value is exact in a \<open>double\<close> of that range.\<close>

definition round_to_u32 :: "cflt \<Rightarrow> u32 option" where
  "round_to_u32 a =
     (if finite_flt a \<and> 0 \<le> round_half_away (val a) \<and> round_half_away (val a) < 2 ^ 32
      then Some (word_of_int (round_half_away (val a))) else None)"

text \<open>\<open>(int) floor(a)\<close>.\<close>

definition floor_to_int :: "cflt \<Rightarrow> int option" where
  "floor_to_int a =
     (if finite_flt a \<and> - (2 ^ 31) \<le> \<lfloor>val a\<rfloor> \<and> \<lfloor>val a\<rfloor> < 2 ^ 31
      then Some \<lfloor>val a\<rfloor> else None)"

text \<open>The value of a \<open>float\<close> whose 32 bits were copied from elsewhere.\<close>

definition f32_of_bits :: "u32 \<Rightarrow> cflt" where
  "f32_of_bits x =
     (let s = bit x 31; e = int (unat (drop_bit 23 x AND 0xFF)); m = unat (x AND 0x7FFFFF);
          sgn = (if s then - 1 else 1)
      in if e = 255 then (if m = 0 then Inf s else NaN)
         else if e = 0 then (if m = 0 then Zero s else Fin (sgn * of_nat m * 2 powi (- 149)))
         else Fin (sgn * of_nat (2 ^ 23 + m) * 2 powi (e - 150)))"

section \<open>Evaluation\<close>

text \<open>The simplifier evaluates closed expressions with these.\<close>

lemma floor_rat_numeral_divide: "\<lfloor>numeral a / numeral b :: rat\<rfloor> = numeral a div numeral b"
  using floor_divide_of_int_eq [of "numeral a" "numeral b", where 'a = rat] by simp

lemma floor_rat_one_divide: "\<lfloor>1 / numeral b :: rat\<rfloor> = 1 div numeral b"
  using floor_divide_of_int_eq [of 1 "numeral b", where 'a = rat] by simp

lemma floor_rat_minus_numeral_divide:
  "\<lfloor>- (numeral a / numeral b) :: rat\<rfloor> = - numeral a div numeral b"
  using floor_divide_of_int_eq [of "- numeral a" "numeral b", where 'a = rat] by simp

lemma floor_rat_minus_one_divide: "\<lfloor>- (1 / numeral b) :: rat\<rfloor> = - 1 div numeral b"
  using floor_divide_of_int_eq [of "- 1" "numeral b", where 'a = rat] by simp

lemmas rnd_eval = rnd_def ulp_def flog2.simps binary32_def binary64_def round_half_even_def Let_def
  floor_rat_numeral_divide floor_rat_one_divide
  floor_rat_minus_numeral_divide floor_rat_minus_one_divide

lemmas flt_eval = rnd_eval fadd_def fsub_def fmul_def fdiv_def flt_of_int_def
  flt_eq_def flt_le_def flt_to_int_def trunc_rat_def round_half_away_def
  round_to_u32_def floor_to_int_def

end
