(* ===== verification/Iq_Fft.thy ===== *)
theory Iq_Fft
  imports C_Float
begin

text \<open>
  The transform kernel of \<open>libairspyhf/src/iqbalancer.c\<close>: the in-place radix-2
  \<open>fft\<close>, written over an arbitrary scalar arithmetic so that the same definition is both
  the code's transform (with binary32 operations) and its exact counterpart.
  \<open>None\<close> is an access outside the buffer or a loop that does not end.
\<close>

section \<open>Complex numbers over a scalar type\<close>

record 'a cpx =
  re :: 'a
  im :: 'a

text \<open>The scalar operations, and the rotation factor the code derives from \<open>le2\<close>.\<close>

record 'a arith =
  a_add :: "'a \<Rightarrow> 'a \<Rightarrow> 'a"
  a_sub :: "'a \<Rightarrow> 'a \<Rightarrow> 'a"
  a_mul :: "'a \<Rightarrow> 'a \<Rightarrow> 'a"
  a_one :: 'a
  a_zero :: 'a
  rot_factor :: "nat \<Rightarrow> 'a cpx"

text \<open>\<open>t.re = u.re * b.re - u.im * b.im; t.im = u.im * b.re + u.re * b.im;\<close>\<close>

definition cmul :: "'a arith \<Rightarrow> 'a cpx \<Rightarrow> 'a cpx \<Rightarrow> 'a cpx" where
  "cmul A u b =
     \<lparr>re = a_sub A (a_mul A (re u) (re b)) (a_mul A (im u) (im b)),
      im = a_add A (a_mul A (im u) (re b)) (a_mul A (re u) (im b))\<rparr>"

definition cadd :: "'a arith \<Rightarrow> 'a cpx \<Rightarrow> 'a cpx \<Rightarrow> 'a cpx" where
  "cadd A x y = \<lparr>re = a_add A (re x) (re y), im = a_add A (im x) (im y)\<rparr>"

definition csub :: "'a arith \<Rightarrow> 'a cpx \<Rightarrow> 'a cpx \<Rightarrow> 'a cpx" where
  "csub A x y = \<lparr>re = a_sub A (re x) (re y), im = a_sub A (im x) (im y)\<rparr>"

section \<open>The transform\<close>

text \<open>\<open>m = 0; i = length; while (i > 1) { ++m; i = (i >> 1); }\<close>\<close>

fun fft_log :: "nat \<Rightarrow> nat" where
  "fft_log i = (if 1 < i then Suc (fft_log (i div 2)) else 0)"

declare fft_log.simps [simp del]

text \<open>
  \<open>while (k <= j) { j = j - k; k = k / 2; } j += k;\<close> never ends once \<open>k\<close> is 0.
\<close>

partial_function (option) carry :: "nat \<Rightarrow> nat \<Rightarrow> nat option" where
  "carry k j = (if k \<le> j then carry (k div 2) (j - k) else Some (j + k))"

declare carry.simps [code]

definition swap_cells :: "'a list \<Rightarrow> nat \<Rightarrow> nat \<Rightarrow> 'a list option" where
  "swap_cells b i j = do {
     t \<leftarrow> rd b j;
     x \<leftarrow> rd b i;
     b \<leftarrow> wr b j x;
     wr b i t
   }"

definition bit_reverse_body :: "nat \<Rightarrow> nat \<Rightarrow> 'a list \<times> nat \<Rightarrow> ('a list \<times> nat) option" where
  "bit_reverse_body nd2 i = (\<lambda>(b, j). do {
     b \<leftarrow> (if i < j then swap_cells b i j else Some b);
     j \<leftarrow> carry nd2 j;
     Some (b, j)
   })"

definition bit_reverse :: "'a list \<Rightarrow> nat \<Rightarrow> 'a list option" where
  "bit_reverse b len = do {
     (b, j) \<leftarrow> for_loop [1..<len - 1] (bit_reverse_body (len div 2)) (b, len div 2);
     Some b
   }"

text \<open>The loop \<open>for (i = jm1; i <= nm1; i += le)\<close> of one twiddle factor \<open>u\<close>.\<close>

definition butterfly :: "'a arith \<Rightarrow> nat \<Rightarrow> 'a cpx \<Rightarrow> nat \<Rightarrow> 'a cpx list \<Rightarrow> 'a cpx list option" where
  "butterfly A le2 u i b = do {
     x \<leftarrow> rd b i;
     y \<leftarrow> rd b (i + le2);
     let t = cmul A u y;
     b \<leftarrow> wr b (i + le2) (csub A x t);
     wr b i (cadd A x t)
   }"

definition index_from_step :: "nat \<Rightarrow> nat \<Rightarrow> nat \<Rightarrow> nat list" where
  "index_from_step start le len = filter (\<lambda>i. start \<le> i \<and> (i - start) mod le = 0) [0..<len]"

definition fft_stage_body ::
  "'a arith \<Rightarrow> nat \<Rightarrow> nat \<Rightarrow> nat \<Rightarrow> 'a cpx list \<times> 'a cpx \<Rightarrow> ('a cpx list \<times> 'a cpx) option" where
  "fft_stage_body A len l j = (\<lambda>(b, u). do {
     let le = 2 ^ l;
     let le2 = le div 2;
     b \<leftarrow> for_loop (index_from_step (j - 1) le len) (butterfly A le2 u) b;
     Some (b, cmul A u (rot_factor A le2))
   })"

definition fft_stage :: "'a arith \<Rightarrow> nat \<Rightarrow> nat \<Rightarrow> 'a cpx list \<Rightarrow> 'a cpx list option" where
  "fft_stage A len l b = do {
     (b, u) \<leftarrow> for_loop [1..<Suc (2 ^ l div 2)] (fft_stage_body A len l)
                (b, \<lparr>re = a_one A, im = a_zero A\<rparr>);
     Some b
   }"

definition fft :: "'a arith \<Rightarrow> 'a cpx list \<Rightarrow> nat \<Rightarrow> 'a cpx list option" where
  "fft A b len = do {
     b \<leftarrow> bit_reverse b len;
     b \<leftarrow> for_loop [1..<Suc (fft_log len)] (fft_stage A len) b;
     for_loop [0..<len div 2] (\<lambda>i b. swap_cells b i (len div 2 + i)) b
   }"

end
