(* ===== verification/Iq_Balancer.thy ===== *)
theory Iq_Balancer
  imports Iq_Fft Usb_World
begin

text \<open>
  \<open>libairspyhf/src/iqbalancer.c\<close> and \<open>iqbalancer.h\<close> (the configuration for hosts other
  than 32-bit ARM): the estimator that removes the DC offset and the gain and phase
  imbalance of the two channels. The library functions \<open>cos\<close>, \<open>sin\<close>, \<open>exp\<close>,
  \<open>pow\<close> and \<open>powf\<close>, whose results the C standard leaves to the implementation, are the parameter
  \<open>M\<close>. \<open>None\<close> is undefined behaviour: an access outside a buffer, a division by zero or a
  signed overflow.
\<close>

section \<open>Constants of iqbalancer.h\<close>

definition FFTBins :: nat where "FFTBins = 4 * 1024"
definition BinsToOptimize :: nat where "BinsToOptimize = FFTBins div 25"
definition EdgeBinsToSkip :: nat where "EdgeBinsToSkip = FFTBins div 22"
definition CenterBinsToSkip :: nat where "CenterBinsToSkip = 2"
definition MaxLookback :: nat where "MaxLookback = 4"
definition BuffersToSkipOnReset :: int where "BuffersToSkipOnReset = 2"
definition BuffersToSkip :: int where "BuffersToSkip = 2"
definition FFTIntegration :: int where "FFTIntegration = 4"
definition FFTOverlap :: int where "FFTOverlap = 2"
definition CorrelationIntegration :: int where "CorrelationIntegration = 16"
definition WorkingBufferLength :: nat where
  "WorkingBufferLength = FFTBins * (1 + nat (FFTIntegration div FFTOverlap))"

lemmas iq_sizes [layout_simps] = FFTBins_def BinsToOptimize_def EdgeBinsToSkip_def
  CenterBinsToSkip_def MaxLookback_def WorkingBufferLength_def FFTIntegration_def FFTOverlap_def

definition PhaseStep :: cflt where "PhaseStep = f32 (1 / 100)"
definition AmplitudeStep :: cflt where "AmplitudeStep = f32 (1 / 100)"
definition MaxMu :: cflt where "MaxMu = f32 50"
definition MinDeltaMu :: cflt where "MinDeltaMu = f32 (1 / 10)"
definition DcTimeConst :: cflt where "DcTimeConst = f32 (1 / 10000)"
definition MinimumPower :: cflt where "MinimumPower = f32 (1 / 100)"
definition PowerThreshold :: cflt where "PowerThreshold = f32 (1 / 2)"
definition MaxPowerDecay :: cflt where "MaxPowerDecay = f32 (98 / 100)"
definition MaxPowerRatio :: cflt where "MaxPowerRatio = f32 (8 / 10)"
definition BoostWindowNorm :: cflt where
  "BoostWindowNorm = fdiv binary32 MaxPowerRatio (flt_of_int binary32 95)"
definition BoostFactor :: cflt where "BoostFactor = f64 100000"
definition EPSILON :: cflt where "EPSILON = f32 (1 / 100)"
definition MATH_PI :: cflt where "MATH_PI = f64 (314159265359 / 100000000000)"

section \<open>The C library's elementary functions and float shorthands\<close>

record libm =
  m_cos :: "cflt \<Rightarrow> cflt"
  m_sin :: "cflt \<Rightarrow> cflt"
  m_exp :: "cflt \<Rightarrow> cflt"
  m_pow :: "cflt \<Rightarrow> cflt \<Rightarrow> cflt"
  m_powf :: "cflt \<Rightarrow> cflt \<Rightarrow> cflt"

abbreviation add32 where "add32 \<equiv> fadd binary32"
abbreviation sub32 where "sub32 \<equiv> fsub binary32"
abbreviation mul32 where "mul32 \<equiv> fmul binary32"
abbreviation div32 where "div32 \<equiv> fdiv binary32"
abbreviation add64 where "add64 \<equiv> fadd binary64"
abbreviation sub64 where "sub64 \<equiv> fsub binary64"
abbreviation mul64 where "mul64 \<equiv> fmul binary64"
abbreviation div64 where "div64 \<equiv> fdiv binary64"
abbreviation int32f where "int32f \<equiv> flt_of_int binary32"
abbreviation int64f where "int64f \<equiv> flt_of_int binary64"

type_synonym complex_t = "cflt cpx"

definition c_zero :: complex_t where
  "c_zero = \<lparr>re = Zero False, im = Zero False\<rparr>"

text \<open>The scalar arithmetic of \<open>fft\<close>: \<open>r = ((float) cos(MATH_PI / le2), (float) -sin(\<dots>))\<close>.\<close>

definition f32_arith :: "libm \<Rightarrow> cflt arith" where
  "f32_arith M =
     \<lparr>a_add = add32, a_sub = sub32, a_mul = mul32, a_one = f32 1, a_zero = Zero False,
      rot_factor = (\<lambda>le2. let a = div64 MATH_PI (int64f (int le2))
                          in \<lparr>re = to_f32 (m_cos M a), im = to_f32 (fneg (m_sin M a))\<rparr>)\<rparr>"

section \<open>Static tables: \<open>__init_library\<close>\<close>

record iq_lib =
  lib_initialized :: bool
  fft_window :: "cflt list"
  boost_window :: "cflt list"

definition iq_lib0 :: iq_lib where
  "iq_lib0 = \<lparr>lib_initialized = False, fft_window = replicate FFTBins (Zero False),
              boost_window = replicate FFTBins (Zero False)\<rparr>"

text \<open>\<open>cos(k * MATH_PI * i / length)\<close>, evaluated from left to right in \<open>double\<close>.\<close>

definition window_cos :: "libm \<Rightarrow> rat \<Rightarrow> nat \<Rightarrow> nat \<Rightarrow> cflt" where
  "window_cos M k i len =
     m_cos M (div64 (mul64 (mul64 (f64 k) MATH_PI) (int64f (int i))) (int64f (int len)))"

definition fft_window_value :: "libm \<Rightarrow> nat \<Rightarrow> cflt" where
  "fft_window_value M i =
     to_f32 (sub64 (add64 (sub64 (f32 (35875 / 100000))
                                 (mul64 (f32 (48829 / 100000)) (window_cos M 2 i (FFTBins - 1))))
                          (mul64 (f32 (14128 / 100000)) (window_cos M 4 i (FFTBins - 1))))
                   (mul64 (f32 (1168 / 100000)) (window_cos M 6 i (FFTBins - 1))))"

definition boost_window_value :: "libm \<Rightarrow> nat \<Rightarrow> cflt" where
  "boost_window_value M i =
     to_f32 (add64 (div64 (f64 1) BoostFactor)
                   (div64 (f64 1)
                      (m_exp M (m_pow M (div64 (mul64 (int64f (int i)) (f64 2))
                                               (int64f (int BinsToOptimize))) (f64 2)))))"

definition init_library :: "libm \<Rightarrow> iq_lib \<Rightarrow> iq_lib" where
  "init_library M L =
     (if lib_initialized L then L
      else \<lparr>lib_initialized = True,
            fft_window = map (fft_window_value M) [0..<FFTBins],
            boost_window = map (boost_window_value M) [0..<FFTBins]\<rparr>)"

section \<open>The balancer\<close>

record iq_balancer_t =
  phase :: cflt
  last_phase :: cflt
  amplitude :: cflt
  last_amplitude :: cflt
  iavg :: cflt
  qavg :: cflt
  integrated_total_power :: cflt
  integrated_image_power :: cflt
  maximum_image_power :: cflt
  raw_phases :: "cflt list"
  raw_amplitudes :: "cflt list"
  skipped_buffers :: int
  buffers_to_skip :: int
  working_buffer_pos :: nat
  fft_integration :: int
  fft_overlap :: int
  correlation_integration :: int
  no_of_avg :: int
  no_of_raw :: nat
  raw_ptr :: nat
  optimal_bin :: int
  reset_flag :: bool
  power_flag :: "int list"
  corr :: "complex_t list"
  corr_plus :: "complex_t list"
  working_buffer :: "complex_t list"
  boost :: "cflt list"

subsection \<open>Creation and configuration\<close>

text \<open>\<open>J\<close> gives the indeterminate contents of freshly allocated memory.\<close>

record iq_junk =
  junk_flag :: "nat \<Rightarrow> int"
  junk_float :: "nat \<Rightarrow> cflt"

definition junk_floats :: "iq_junk \<Rightarrow> nat \<Rightarrow> cflt list" where
  "junk_floats J n = map (junk_float J) [0..<n]"

definition junk_cpxs :: "iq_junk \<Rightarrow> nat \<Rightarrow> complex_t list" where
  "junk_cpxs J n = map (\<lambda>i. \<lparr>re = junk_float J (2 * i), im = junk_float J (2 * i + 1)\<rparr>) [0..<n]"

text \<open>The addresses of the structure and of the five arrays behind its pointers.\<close>

record iq_ptrs =
  iq_ptr :: ptr
  corr_ptr :: ptr
  corr_plus_ptr :: ptr
  working_buffer_ptr :: ptr
  boost_ptr :: ptr
  power_flag_ptr :: ptr

definition iq_no_ptrs :: iq_ptrs where
  "iq_no_ptrs = \<lparr>iq_ptr = NULL, corr_ptr = NULL, corr_plus_ptr = NULL, working_buffer_ptr = NULL,
     boost_ptr = NULL, power_flag_ptr = NULL\<rparr>"

text \<open>What is behind a pointer: nothing behind a null pointer.\<close>

definition behind :: "ptr \<Rightarrow> 'a list \<Rightarrow> 'a list" where
  "behind p xs = (if p = NULL then [] else xs)"

text \<open>The fields after creation, with the arrays at the addresses \<open>q\<close>.\<close>

definition iq_balancer_fields :: "iq_junk \<Rightarrow> iq_ptrs \<Rightarrow> cflt \<Rightarrow> cflt \<Rightarrow> iq_balancer_t" where
  "iq_balancer_fields J q initial_phase initial_amplitude =
     \<lparr>phase = initial_phase, last_phase = Zero False,
       amplitude = initial_amplitude, last_amplitude = Zero False,
       iavg = Zero False, qavg = Zero False,
       integrated_total_power = Zero False, integrated_image_power = Zero False,
       maximum_image_power = Zero False,
       raw_phases = replicate MaxLookback (Zero False),
       raw_amplitudes = replicate MaxLookback (Zero False),
       skipped_buffers = 0, buffers_to_skip = BuffersToSkip, working_buffer_pos = 0,
       fft_integration = FFTIntegration, fft_overlap = FFTOverlap,
       correlation_integration = CorrelationIntegration,
       no_of_avg = 0, no_of_raw = 0, raw_ptr = 0, optimal_bin = int (FFTBins div 2),
       reset_flag = False,
       power_flag = behind (power_flag_ptr q) (map (junk_flag J) [0..<nat FFTIntegration]),
       corr = behind (corr_ptr q) (junk_cpxs J FFTBins),
       corr_plus = behind (corr_plus_ptr q) (junk_cpxs J FFTBins),
       working_buffer = behind (working_buffer_ptr q) (junk_cpxs J WorkingBufferLength),
       boost = behind (boost_ptr q) (junk_floats J FFTBins)\<rparr>"

text \<open>
  No allocation is checked: a null structure is written at once, a null array when the first
  block is processed. A \<open>complex_t\<close> has 8 bytes, a \<open>float\<close> and an \<open>int\<close> 4.
\<close>

definition iq_balancer_create ::
  "libm \<Rightarrow> iq_junk \<Rightarrow> env \<Rightarrow> iq_lib \<Rightarrow> cflt \<Rightarrow> cflt \<Rightarrow> trace \<Rightarrow>
   (iq_ptrs \<times> iq_balancer_t \<times> iq_lib \<times> trace) option" where
  "iq_balancer_create M J E L initial_phase initial_amplitude w =
     (let (instance, w) = malloc E (balancer_struct_size E) w
      in if instance = NULL then None
         else let (p1, w) = malloc E (FFTBins * 8) w;
                  (p2, w) = malloc E (FFTBins * 8) w;
                  (p3, w) = malloc E (WorkingBufferLength * 8) w;
                  (p4, w) = malloc E (FFTBins * 4) w;
                  (p5, w) = malloc E (nat FFTIntegration * 4) w;
                  q = \<lparr>iq_ptr = instance, corr_ptr = p1, corr_plus_ptr = p2, working_buffer_ptr = p3,
                       boost_ptr = p4, power_flag_ptr = p5\<rparr>
              in Some (q, iq_balancer_fields J q initial_phase initial_amplitude, init_library M L, w))"

definition iq_balancer_destroy :: "iq_ptrs \<Rightarrow> trace \<Rightarrow> trace" where
  "iq_balancer_destroy q w =
     free (iq_ptr q) (free (power_flag_ptr q) (free (boost_ptr q) (free (working_buffer_ptr q)
       (free (corr_plus_ptr q) (free (corr_ptr q) w)))))"

text \<open>
  \<open>optimal_bin = (int) floor(FFTBins * (0.5 + w))\<close>: the clamp leaves a NaN alone, whose
  conversion to \<open>int\<close> is undefined.
\<close>

definition clamp_half :: "cflt \<Rightarrow> cflt" where
  "clamp_half w = (if flt_lt w (f32 (- 1 / 2)) then f32 (- 1 / 2)
                   else if flt_lt (f32 (1 / 2)) w then f32 (1 / 2) else w)"

definition iq_balancer_set_optimal_point :: "cflt \<Rightarrow> iq_balancer_t \<Rightarrow> iq_balancer_t option" where
  "iq_balancer_set_optimal_point w b = do {
     bin \<leftarrow> floor_to_int (mul64 (int64f (int FFTBins)) (add64 (f64 (1 / 2)) (clamp_half w)));
     Some (b\<lparr>optimal_bin := bin, reset_flag := True\<rparr>)
   }"

text \<open>
  A negative \<open>fft_integration\<close> makes the byte count of the \<open>malloc\<close>/\<open>memset\<close> pair huge, and a
  failed allocation is written by the \<open>memset\<close>.
\<close>

definition iq_balancer_configure ::
  "env \<Rightarrow> int \<Rightarrow> int \<Rightarrow> int \<Rightarrow> int \<Rightarrow> iq_ptrs \<times> iq_balancer_t \<Rightarrow> trace \<Rightarrow>
   ((iq_ptrs \<times> iq_balancer_t) \<times> trace) option" where
  "iq_balancer_configure E skip integration overlap correlation = (\<lambda>(q, b) w.
     if integration < 0 then None
     else let (p, w) = malloc E (nat integration * 4) (free (power_flag_ptr q) w)
          in if p = NULL then None
             else Some ((q\<lparr>power_flag_ptr := p\<rparr>,
                         b\<lparr>buffers_to_skip := skip, fft_integration := integration,
                           fft_overlap := overlap, correlation_integration := correlation,
                           power_flag := replicate (nat integration) 0, reset_flag := True\<rparr>), w))"

subsection \<open>Sample path\<close>

text \<open>\<open>cancel_dc\<close>: one step of the loop with evaluation, then the whole function.\<close>

fun cancel_dc_step :: "complex_t \<Rightarrow> cflt \<times> cflt \<Rightarrow> complex_t \<times> cflt \<times> cflt" where
  "cancel_dc_step x (i_avg, q_avg) =
     (let i' = add32 i_avg (mul32 DcTimeConst (sub32 (re x) i_avg));
          q' = add32 q_avg (mul32 DcTimeConst (sub32 (im x) q_avg))
      in (\<lparr>re = sub32 (re x) i', im = sub32 (im x) q'\<rparr>, i', q'))"

definition cancel_dc_body ::
  "nat \<Rightarrow> complex_t list \<times> cflt \<times> cflt \<Rightarrow> (complex_t list \<times> cflt \<times> cflt) option" where
  "cancel_dc_body i = (\<lambda>(iq, avg). do {
     x \<leftarrow> rd iq i;
     let (y, avg) = cancel_dc_step x avg;
     iq \<leftarrow> wr iq i y;
     Some (iq, avg)
   })"

definition cancel_dc ::
  "complex_t list \<Rightarrow> nat \<Rightarrow> bool \<Rightarrow> iq_balancer_t \<Rightarrow> (complex_t list \<times> iq_balancer_t) option" where
  "cancel_dc iq len skip_eval b =
     (if skip_eval then do {
        iq \<leftarrow> for_loop [0..<len]
               (\<lambda>i iq. do { x \<leftarrow> rd iq i;
                            wr iq i \<lparr>re = sub32 (re x) (iavg b), im = sub32 (im x) (qavg b)\<rparr> }) iq;
        Some (iq, b)
      } else do {
        (iq, i_avg, q_avg) \<leftarrow> for_loop [0..<len] cancel_dc_body (iq, iavg b, qavg b);
        Some (iq, b\<lparr>iavg := i_avg, qavg := q_avg\<rparr>)
      })"

text \<open>The correction of one sample, shared by \<open>adjust_benchmark\<close> and \<open>adjust_phase_amplitude\<close>.\<close>

definition rotate_scale :: "cflt \<Rightarrow> cflt \<Rightarrow> complex_t \<Rightarrow> complex_t" where
  "rotate_scale ph am x =
     \<lparr>re = mul32 (add32 (re x) (mul32 ph (im x))) (add32 (int32f 1) am),
      im = mul32 (add32 (im x) (mul32 ph (re x))) (sub32 (int32f 1) am)\<rparr>"

definition sample_power :: "complex_t \<Rightarrow> cflt" where
  "sample_power x = add32 (mul32 (re x) (re x)) (mul32 (im x) (im x))"

definition adjust_benchmark ::
  "complex_t list \<Rightarrow> cflt \<Rightarrow> cflt \<Rightarrow> bool \<Rightarrow> (complex_t list \<times> cflt) option" where
  "adjust_benchmark iq ph am skip_power =
     for_loop [0..<FFTBins]
       (\<lambda>i (iq, sum). do {
          x \<leftarrow> rd iq i;
          iq \<leftarrow> wr iq i (rotate_scale ph am x);
          Some (iq, if skip_power then sum else add32 sum (sample_power x))
        }) (iq, Zero False)"

definition adjust_phase_amplitude ::
  "complex_t list \<Rightarrow> nat \<Rightarrow> iq_balancer_t \<Rightarrow> (complex_t list \<times> iq_balancer_t) option" where
  "adjust_phase_amplitude iq len b = do {
     let scale = div32 (f32 1) (int32f (int len - 1));
     let mix = (\<lambda>i last cur.
        mul32 (add32 (mul32 (int32f (int i)) last) (mul32 (int32f (int len - 1 - int i)) cur)) scale);
     iq \<leftarrow> for_loop [0..<len]
             (\<lambda>i iq. do {
                x \<leftarrow> rd iq i;
                wr iq i (rotate_scale (mix i (last_phase b) (phase b))
                                      (mix i (last_amplitude b) (amplitude b)) x)
              }) iq;
     Some (iq, b\<lparr>last_phase := phase b, last_amplitude := amplitude b\<rparr>)
   }"

definition window :: "iq_lib \<Rightarrow> complex_t list \<Rightarrow> nat \<Rightarrow> complex_t list option" where
  "window L b len =
     for_loop [0..<len]
       (\<lambda>i b. do {
          x \<leftarrow> rd b i;
          c \<leftarrow> rd (fft_window L) i;
          wr b i \<lparr>re = mul32 (re x) c, im = mul32 (im x) c\<rparr>
        }) b"

subsection \<open>Correlation: \<open>compute_corr\<close>\<close>

text \<open>The bins the estimator looks at, in the order of the loops over \<open>i\<close>; \<open>j = FFTBins - i\<close>.\<close>

definition corr_bins :: "nat list" where
  "corr_bins = [EdgeBinsToSkip..<Suc (FFTBins - EdgeBinsToSkip)]"

definition iq_multiply_complex_complex :: "complex_t \<Rightarrow> complex_t \<Rightarrow> complex_t" where
  "iq_multiply_complex_complex a b =
     \<lparr>re = sub32 (mul32 (re a) (re b)) (mul32 (im a) (im b)),
      im = add32 (mul32 (im a) (re b)) (mul32 (re a) (im b))\<rparr>"

definition corr_body ::
  "complex_t list \<Rightarrow> nat \<Rightarrow> complex_t list \<Rightarrow> complex_t list option" where
  "corr_body fftPtr i ccorr = do {
     let j = FFTBins - i;
     x \<leftarrow> rd fftPtr i;
     y \<leftarrow> rd fftPtr j;
     let cc = iq_multiply_complex_complex x y;
     c \<leftarrow> rd ccorr i;
     let c = \<lparr>re = add32 (re c) (re cc), im = add32 (im c) (im cc)\<rparr>;
     ccorr \<leftarrow> wr ccorr i c;
     wr ccorr j c
   }"

definition boost_body ::
  "iq_lib \<Rightarrow> complex_t list \<Rightarrow> nat \<Rightarrow> iq_balancer_t \<Rightarrow> iq_balancer_t option" where
  "boost_body L fftPtr i b = do {
     x \<leftarrow> rd fftPtr i;
     let pw = sample_power x;
     v \<leftarrow> rd (boost b) i;
     boost' \<leftarrow> wr (boost b) i (add32 v pw);
     w \<leftarrow> (if optimal_bin b = int (FFTBins div 2) then Some pw
           else do { c \<leftarrow> rd (boost_window L) (nat \<bar>int FFTBins - int i - optimal_bin b\<bar>);
                     Some (mul32 pw c) });
     Some (b\<lparr>boost := boost',
             integrated_image_power := add32 (integrated_image_power b) w\<rparr>)
   }"

text \<open>One block of \<open>compute_corr\<close>: the body of the outer loop for block \<open>m\<close> at offset \<open>n\<close>.\<close>

definition power_gate :: "cflt \<Rightarrow> int \<Rightarrow> nat \<Rightarrow> iq_balancer_t \<Rightarrow> iq_balancer_t option" where
  "power_gate pw step m b =
     (if step = 0 then
        (if flt_lt MinimumPower pw then do {
           pf \<leftarrow> wr (power_flag b) m 1;
           Some (b\<lparr>power_flag := pf,
                   integrated_total_power := add32 (integrated_total_power b) pw\<rparr>)
         } else do {
           pf \<leftarrow> wr (power_flag b) m 0;
           Some (b\<lparr>power_flag := pf\<rparr>)
         })
      else Some b)"

definition copy_block :: "complex_t list \<Rightarrow> int \<Rightarrow> complex_t list option" where
  "copy_block iq n =
     (if 0 \<le> n \<and> n + int FFTBins \<le> int (length iq)
      then Some (take FFTBins (drop (nat n) iq)) else None)"

definition corr_block ::
  "libm \<Rightarrow> iq_lib \<Rightarrow> complex_t list \<Rightarrow> int \<Rightarrow> cflt \<Rightarrow> cflt \<Rightarrow> int \<Rightarrow> nat \<Rightarrow>
   iq_balancer_t \<times> complex_t list \<times> int \<Rightarrow> (iq_balancer_t \<times> complex_t list \<times> int) option" where
  "corr_block M L iq step ph am n m = (\<lambda>(b, ccorr, count). do {
     fftPtr \<leftarrow> copy_block iq n;
     (fftPtr, pw) \<leftarrow> adjust_benchmark fftPtr ph am (step \<noteq> 0);
     b \<leftarrow> power_gate pw step m b;
     flag \<leftarrow> rd (power_flag b) m;
     if flag = 1 then do {
       fftPtr \<leftarrow> window L fftPtr FFTBins;
       fftPtr \<leftarrow> fft (f32_arith M) fftPtr FFTBins;
       ccorr \<leftarrow> for_loop corr_bins (corr_body fftPtr) ccorr;
       b \<leftarrow> (if step = 0 then for_loop corr_bins (boost_body L fftPtr) b else Some b);
       Some (b, ccorr, count + 1)
     } else Some (b, ccorr, count)
   })"

text \<open>
  The outer loop \<open>for (n = 0, m = 0; n <= length - FFTBins && m < fft_integration;
  n += FFTBins / fft_overlap, m++)\<close>: \<open>m\<close> counts up to \<open>fft_integration\<close>.
\<close>

definition quot_int :: "int \<Rightarrow> int \<Rightarrow> int option" where
  "quot_int a d = (if d = 0 then None else Some (sgn a * sgn d * (\<bar>a\<bar> div \<bar>d\<bar>)))"

fun corr_blocks ::
  "libm \<Rightarrow> iq_lib \<Rightarrow> complex_t list \<Rightarrow> int \<Rightarrow> cflt \<Rightarrow> cflt \<Rightarrow> int \<Rightarrow> nat \<Rightarrow> int \<Rightarrow> nat \<Rightarrow>
   iq_balancer_t \<times> complex_t list \<times> int \<Rightarrow> (iq_balancer_t \<times> complex_t list \<times> int) option" where
  "corr_blocks M L iq len ph am step 0 n m s = Some s"
| "corr_blocks M L iq len ph am step (Suc left) n m s =
     (if n \<le> len - int FFTBins then do {
        s \<leftarrow> corr_block M L iq step ph am n m s;
        d \<leftarrow> quot_int (int FFTBins) (fft_overlap (fst s));
        corr_blocks M L iq len ph am step left (n + d) (Suc m) s
      } else Some s)"

definition compute_corr ::
  "libm \<Rightarrow> iq_lib \<Rightarrow> complex_t list \<Rightarrow> complex_t list \<Rightarrow> int \<Rightarrow> int \<Rightarrow> iq_balancer_t \<Rightarrow>
   (iq_balancer_t \<times> complex_t list \<times> int) option" where
  "compute_corr M L iq ccorr len step b =
     corr_blocks M L iq len
       (add32 (phase b) (mul32 (int32f step) PhaseStep))
       (add32 (amplitude b) (mul32 (int32f step) AmplitudeStep))
       step (nat (fft_integration b)) 0 0 (b, ccorr, 0)"

subsection \<open>Estimation: \<open>utility\<close> and \<open>estimate_imbalance\<close>\<close>

definition utility_body ::
  "iq_lib \<Rightarrow> iq_balancer_t \<Rightarrow> complex_t list \<Rightarrow> nat \<Rightarrow> complex_t \<Rightarrow> complex_t option" where
  "utility_body L b ccorr i acc = do {
     let j = FFTBins - i;
     let distance = \<bar>int i - int (FFTBins div 2)\<bar>;
     let invskip = div32 (f32 1) (int32f (int EdgeBinsToSkip));
     if distance > int CenterBinsToSkip then do {
       let weight = (if distance > int EdgeBinsToSkip then f32 1
                     else mul32 (int32f distance) invskip);
       weight \<leftarrow> (if optimal_bin b \<noteq> int (FFTBins div 2) then do {
                    c \<leftarrow> rd (boost_window L) (nat \<bar>optimal_bin b - int i\<bar>);
                    Some (mul32 weight c)
                  } else Some weight);
       bj \<leftarrow> rd (boost b) j;
       bi \<leftarrow> rd (boost b) i;
       let weight = mul32 weight (div32 bj (add32 bi EPSILON));
       c \<leftarrow> rd ccorr i;
       Some \<lparr>re = add32 (re acc) (mul32 (re c) weight), im = add32 (im acc) (mul32 (im c) weight)\<rparr>
     } else Some acc
   }"

definition utility :: "iq_lib \<Rightarrow> iq_balancer_t \<Rightarrow> complex_t list \<Rightarrow> complex_t option" where
  "utility L b ccorr = for_loop corr_bins (utility_body L b ccorr) c_zero"

text \<open>The step \<open>mu = x / (x - y)\<close>, clamped to \<open>[-MaxMu, MaxMu]\<close>; 0 for a small difference.\<close>

definition mu_step :: "cflt \<Rightarrow> cflt \<Rightarrow> cflt" where
  "mu_step x y =
     (let mu = sub32 x y in
      if flt_lt MinDeltaMu (fabs mu) then
        (let mu = div32 x mu in
         if flt_lt mu (fneg MaxMu) then fneg MaxMu
         else if flt_lt MaxMu mu then MaxMu else mu)
      else Zero False)"

text \<open>
  The test on the accumulated power that accepts a measurement and records it; here
  \<open>None\<close> is the early return of the code, which drops the measurement.
\<close>

definition accept_power :: "iq_balancer_t \<Rightarrow> iq_balancer_t option" where
  "accept_power b =
     (if optimal_bin b = int (FFTBins div 2) then
        (if flt_lt (integrated_total_power b) (maximum_image_power b) then None
         else Some (b\<lparr>maximum_image_power := integrated_total_power b\<rparr>))
      else
        (let p = sub32 (integrated_image_power b) (mul32 (integrated_total_power b) BoostWindowNorm)
         in if flt_lt p (mul32 (maximum_image_power b) PowerThreshold) then None
            else Some (b\<lparr>maximum_image_power := p\<rparr>)))"

text \<open>
  The ring of the last \<open>MaxLookback\<close> raw estimates: the indices visited by the averaging
  loop, which walks back from \<open>raw_ptr\<close>.
\<close>

definition ring_prev :: "nat \<Rightarrow> nat" where
  "ring_prev i = (i + MaxLookback - 1) AND (MaxLookback - 1)"

definition ring_next :: "nat \<Rightarrow> nat" where
  "ring_next i = (i + 1) AND (MaxLookback - 1)"

fun lookback :: "nat \<Rightarrow> nat \<Rightarrow> nat list" where
  "lookback 0 i = []"
| "lookback (Suc n) i = ring_prev i # lookback n (ring_prev i)"

definition store_estimate :: "cflt \<Rightarrow> cflt \<Rightarrow> iq_balancer_t \<Rightarrow> iq_balancer_t option" where
  "store_estimate ph am b = do {
     let cnt = (if no_of_raw b < MaxLookback then Suc (no_of_raw b) else no_of_raw b);
     ra \<leftarrow> wr (raw_amplitudes b) (raw_ptr b) am;
     rp \<leftarrow> wr (raw_phases b) (raw_ptr b) ph;
     (ph, am) \<leftarrow> for_loop (lookback (cnt - 1) (raw_ptr b))
                   (\<lambda>i (ph, am). do {
                      p \<leftarrow> rd rp i;
                      a \<leftarrow> rd ra i;
                      Some (add32 ph p, add32 am a)
                    }) (ph, am);
     Some (b\<lparr>no_of_raw := cnt, raw_amplitudes := ra, raw_phases := rp,
             raw_ptr := ring_next (raw_ptr b),
             phase := div32 ph (int32f (int cnt)), amplitude := div32 am (int32f (int cnt))\<rparr>)
   }"

text \<open>The products and sums the code forms in \<open>int\<close> must not overflow.\<close>

definition int_add :: "int \<Rightarrow> int \<Rightarrow> int option" where
  "int_add a b = (if - (2 ^ 31) \<le> a + b \<and> a + b < 2 ^ 31 then Some (a + b) else None)"

definition int_mul :: "int \<Rightarrow> int \<Rightarrow> int option" where
  "int_mul a b = (if - (2 ^ 31) \<le> a * b \<and> a * b < 2 ^ 31 then Some (a * b) else None)"

definition clear_sums :: "iq_balancer_t \<Rightarrow> iq_balancer_t" where
  "clear_sums b = b\<lparr>integrated_image_power := Zero False, integrated_total_power := Zero False,
     boost := replicate FFTBins (Zero False), corr := replicate FFTBins c_zero,
     corr_plus := replicate FFTBins c_zero\<rparr>"

definition apply_reset :: "iq_balancer_t \<Rightarrow> iq_balancer_t" where
  "apply_reset b =
     (if reset_flag b
      then b\<lparr>reset_flag := False, no_of_avg := - BuffersToSkipOnReset,
             maximum_image_power := Zero False\<rparr>
      else b)"

text \<open>The tail of \<open>estimate_imbalance\<close>, once enough blocks have been averaged.\<close>

definition update_estimate :: "iq_lib \<Rightarrow> iq_balancer_t \<Rightarrow> iq_balancer_t option" where
  "update_estimate L b =
     (case accept_power b of
        None \<Rightarrow> Some b
      | Some b \<Rightarrow> do {
          u \<leftarrow> utility L b (corr b);
          v \<leftarrow> utility L b (corr_plus b);
          let ph = add32 (phase b) (mul32 PhaseStep (mu_step (im u) (im v)));
          let am = add32 (amplitude b) (mul32 AmplitudeStep (mu_step (re u) (re v)));
          store_estimate ph am b
        })"

definition estimate_imbalance ::
  "libm \<Rightarrow> iq_lib \<Rightarrow> complex_t list \<Rightarrow> int \<Rightarrow> iq_balancer_t \<Rightarrow> iq_balancer_t option" where
  "estimate_imbalance M L iq len b0 = do {
     let b = apply_reset b0;
     if no_of_avg b < 0 then Some (b\<lparr>no_of_avg := no_of_avg b + 1\<rparr>)
     else do {
       let b = (if no_of_avg b = 0 then clear_sums b else b);
       let b = b\<lparr>maximum_image_power := mul32 (maximum_image_power b) MaxPowerDecay\<rparr>;
       (b, c, i) \<leftarrow> compute_corr M L iq (corr b) len 0 b;
       let b = b\<lparr>corr := c\<rparr>;
       if i = 0 then Some b
       else do {
         avg \<leftarrow> int_add (no_of_avg b) i;
         let b = b\<lparr>no_of_avg := avg\<rparr>;
         (b, c, k) \<leftarrow> compute_corr M L iq (corr_plus b) len 1 b;
         let b = b\<lparr>corr_plus := c\<rparr>;
         limit \<leftarrow> int_mul (correlation_integration b) (fft_integration b);
         if no_of_avg b \<le> limit then Some b
         else update_estimate L (b\<lparr>no_of_avg := 0\<rparr>)
       }
     }
   }"

subsection \<open>\<open>iq_balancer_process\<close>\<close>

definition fill_working_buffer ::
  "complex_t list \<Rightarrow> nat \<Rightarrow> iq_balancer_t \<Rightarrow> iq_balancer_t option" where
  "fill_working_buffer iq cnt b =
     (if working_buffer_pos b + cnt \<le> length (working_buffer b) \<and> cnt \<le> length iq
      then Some (b\<lparr>working_buffer := take (working_buffer_pos b) (working_buffer b)
                       @ take cnt iq @ drop (working_buffer_pos b + cnt) (working_buffer b),
                   working_buffer_pos := working_buffer_pos b + cnt\<rparr>)
      else None)"

definition evaluate_block ::
  "libm \<Rightarrow> iq_lib \<Rightarrow> complex_t list \<Rightarrow> nat \<Rightarrow> iq_balancer_t \<Rightarrow> iq_balancer_t option" where
  "evaluate_block M L iq len b = do {
     let cnt = (if len \<le> WorkingBufferLength - working_buffer_pos b then len
                  else WorkingBufferLength - working_buffer_pos b);
     b \<leftarrow> fill_working_buffer iq cnt b;
     if WorkingBufferLength \<le> working_buffer_pos b then do {
       skipped \<leftarrow> int_add (skipped_buffers b) 1;
       let b = b\<lparr>working_buffer_pos := 0, skipped_buffers := skipped\<rparr>;
       if buffers_to_skip b < skipped_buffers b
       then estimate_imbalance M L (working_buffer b) (int WorkingBufferLength)
              (b\<lparr>skipped_buffers := 0\<rparr>)
       else Some b
     } else Some b
   }"

definition iq_balancer_process ::
  "libm \<Rightarrow> iq_lib \<Rightarrow> complex_t list \<Rightarrow> nat \<Rightarrow> bool \<Rightarrow> iq_balancer_t \<Rightarrow>
   (complex_t list \<times> iq_balancer_t) option" where
  "iq_balancer_process M L iq len skip_eval b = do {
     (iq, b) \<leftarrow> cancel_dc iq len skip_eval b;
     b \<leftarrow> (if skip_eval then Some b else evaluate_block M L iq len b);
     adjust_phase_amplitude iq len b
   }"

end
