(* ===== verification/Device.thy ===== *)
theory Device
  imports Usb_World Iq_Balancer
begin

text \<open>
  \<open>struct airspyhf_device\<close> of \<open>libairspyhf/src/airspyhf.c\<close>, field by field, and the
  constants of that file. A pointer to an array the driver allocates is modelled by the
  array's contents next to its address (\<open>\<dots>_ptr\<close>), so that both the accesses and the
  allocation discipline can be stated. The POSIX thread, condition and mutex objects have no
  state of their own here: the streaming theory models what they do.
\<close>

section \<open>Constants\<close>

definition SAMPLES_TO_TRANSFER :: nat where "SAMPLES_TO_TRANSFER = 1024 * 4"
definition SERIAL_NUMBER_UNUSED :: u64 where "SERIAL_NUMBER_UNUSED = 0"
definition FILE_DESCRIPTOR_UNUSED :: int where "FILE_DESCRIPTOR_UNUSED = -1"
definition RAW_BUFFER_COUNT :: nat where "RAW_BUFFER_COUNT = 8"
definition AIRSPYHF_SERIAL_SIZE :: nat where "AIRSPYHF_SERIAL_SIZE = 28"
definition MAX_SAMPLERATE_INDEX :: u32 where "MAX_SAMPLERATE_INDEX = 100"
definition DEFAULT_SAMPLERATE :: u32 where "DEFAULT_SAMPLERATE = 768000"
definition DEFAULT_ATT_STEP_COUNT :: nat where "DEFAULT_ATT_STEP_COUNT = 9"
definition DEFAULT_ATT_STEP_INCREMENT :: cflt where "DEFAULT_ATT_STEP_INCREMENT = f32 6"
definition CALIBRATION_MAGIC :: u32 where "CALIBRATION_MAGIC = 0xA5CA71B0"
definition DEFAULT_IF_SHIFT :: int where "DEFAULT_IF_SHIFT = 5000"
definition MIN_ZERO_IF_LO :: u32 where "MIN_ZERO_IF_LO = 180"
definition MIN_LOW_IF_LO :: u32 where "MIN_LOW_IF_LO = 84"
definition INITIAL_PHASE :: cflt where "INITIAL_PHASE = f32 (6 / 100000)"
definition INITIAL_AMPLITUDE :: cflt where "INITIAL_AMPLITUDE = f32 (- 45 / 10000)"

definition sizeof_complex_int16 :: nat where "sizeof_complex_int16 = 4"
definition sizeof_complex_float :: nat where "sizeof_complex_float = 8"

lemmas device_sizes [layout_simps] = SAMPLES_TO_TRANSFER_def RAW_BUFFER_COUNT_def
  sizeof_complex_int16_def sizeof_complex_float_def AIRSPYHF_SERIAL_SIZE_def
  DEFAULT_ATT_STEP_COUNT_def

section \<open>Samples and transfers\<close>

text \<open>\<open>airspyhf_complex_int16_t\<close>: the imaginary part comes first.\<close>

record airspyhf_complex_int16 =
  im16 :: u16
  re16 :: u16

type_synonym samples16 = "airspyhf_complex_int16 list"

text \<open>The fields of \<open>struct libusb_transfer\<close> the driver sets or reads.\<close>

record libusb_transfer =
  xfer_addr :: ptr
  endpoint :: nat
  xfer_length :: nat
  xfer_buffer :: ptr
  xfer_callback :: bool

section \<open>The device\<close>

record airspyhf_device =
  usb_context :: ptr
  usb_device :: ptr
  transfers :: "libusb_transfer option list option"
  transfers_ptr :: ptr
  callback :: ptr
  transfer_thread_running :: bool
  consumer_thread_running :: bool
  supported_samplerate_count :: u32
  supported_samplerates :: "u32 list"
  supported_samplerates_ptr :: ptr
  samplerate_architectures :: "u8 list"
  samplerate_architectures_ptr :: ptr
  supported_att_step_count :: u32
  supported_att_steps :: "cflt list"
  supported_att_steps_ptr :: ptr
  current_samplerate :: u32
  freq_hz :: cflt
  freq_khz :: u32
  freq_delta_hz :: cflt
  freq_shift :: cflt
  calibration_ppb :: u32
  calibration_vctcxo :: u32
  frontend_options :: u32
  optimal_point :: cflt
  enable_dsp :: u8
  is_low_if :: u8
  filter_gain :: cflt
  vec :: complex_t
  iq_balancer :: "iq_balancer_t option"
  iq_balancer_ptrs :: iq_ptrs
  transfer_count :: nat
  transfer_live :: int
  buffer_size :: nat
  dropped_buffers :: u32
  dropped_buffers_queue :: "u32 list"
  received_samples_queue :: "ptr list"
  streaming :: bool
  stop_requested :: bool
  received_samples_queue_head :: int
  received_samples_queue_tail :: int
  received_buffer_count :: int
  output_buffer :: ptr
  ctx :: ptr

text \<open>The state \<open>calloc\<close> leaves: every field zero.\<close>

definition zero_device :: airspyhf_device where
  "zero_device =
     \<lparr>usb_context = NULL, usb_device = NULL, transfers = None, transfers_ptr = NULL,
      callback = NULL, transfer_thread_running = False, consumer_thread_running = False,
      supported_samplerate_count = 0, supported_samplerates = [],
      supported_samplerates_ptr = NULL, samplerate_architectures = [],
      samplerate_architectures_ptr = NULL, supported_att_step_count = 0,
      supported_att_steps = [], supported_att_steps_ptr = NULL, current_samplerate = 0,
      freq_hz = Zero False, freq_khz = 0, freq_delta_hz = Zero False, freq_shift = Zero False,
      calibration_ppb = 0, calibration_vctcxo = 0, frontend_options = 0,
      optimal_point = Zero False, enable_dsp = 0, is_low_if = 0, filter_gain = Zero False,
      vec = \<lparr>re = Zero False, im = Zero False\<rparr>, iq_balancer = None, iq_balancer_ptrs = iq_no_ptrs, transfer_count = 0,
      transfer_live = 0, buffer_size = 0, dropped_buffers = 0,
      dropped_buffers_queue = replicate RAW_BUFFER_COUNT 0,
      received_samples_queue = replicate RAW_BUFFER_COUNT NULL, streaming = False,
      stop_requested = False, received_samples_queue_head = 0,
      received_samples_queue_tail = 0, received_buffer_count = 0, output_buffer = NULL,
      ctx = NULL\<rparr>"

text \<open>The block handed to the application's callback (\<open>airspyhf_transfer_t\<close>).\<close>

record airspyhf_transfer_t =
  samples :: "complex_t list"
  sample_count :: int
  dropped_samples :: u64

section \<open>The part of the device the streaming threads share\<close>

text \<open>
  The fields the I/O threads synchronise through. Control operations must leave all of them
  alone; \<open>stream_view\<close> is how the frame lemmas say so.
\<close>

definition stream_view :: "airspyhf_device \<Rightarrow>
  (libusb_transfer option list option \<times> ptr \<times> ptr \<times> nat \<times> int \<times> nat) \<times>
  (u32 \<times> u32 list \<times> ptr list) \<times> (bool \<times> bool) \<times> (int \<times> int \<times> int)" where
  "stream_view d =
     ((transfers d, transfers_ptr d, output_buffer d, transfer_count d, transfer_live d, buffer_size d),
      (dropped_buffers d, dropped_buffers_queue d, received_samples_queue d),
      (streaming d, stop_requested d),
      (received_samples_queue_head d, received_samples_queue_tail d, received_buffer_count d))"

lemma stream_view_eq_iff:
  "stream_view d' = stream_view d \<longleftrightarrow>
     transfers d' = transfers d \<and> transfers_ptr d' = transfers_ptr d \<and>
     output_buffer d' = output_buffer d \<and> transfer_count d' = transfer_count d \<and>
     transfer_live d' = transfer_live d \<and> buffer_size d' = buffer_size d \<and>
     dropped_buffers d' = dropped_buffers d \<and>
     dropped_buffers_queue d' = dropped_buffers_queue d \<and>
     received_samples_queue d' = received_samples_queue d \<and>
     streaming d' = streaming d \<and> stop_requested d' = stop_requested d \<and>
     received_samples_queue_head d' = received_samples_queue_head d \<and>
     received_samples_queue_tail d' = received_samples_queue_tail d \<and>
     received_buffer_count d' = received_buffer_count d"
  by (auto simp: stream_view_def)

end
