(* ===== verification/Sample_Queue.thy ===== *)
theory Sample_Queue
  imports Device
begin

text \<open>
  The queue of received sample buffers inside \<open>airspyhf.c\<close>: the transfer callback swaps a
  filled buffer into the slot at the head, the consumer thread takes the slot at the tail,
  works on its buffer without the lock and only then gives the slot back by decrementing the
  count. The interface \<open>sample_queue\<close> states what both sides rely on; its interpretation
  on the code's operations is at the end.
\<close>

section \<open>The interface\<close>

text \<open>
  \<open>h\<close> is the number of items the consumer holds (taken, not yet released); \<open>held\<close> and
  \<open>items\<close> are the held and the waiting items, oldest first, and \<open>owned\<close> the buffers in the
  slots. Pushing a buffer returns a spare one.
\<close>

locale sample_queue =
  fixes inv :: "'q \<Rightarrow> nat \<Rightarrow> bool"
    and items :: "'q \<Rightarrow> nat \<Rightarrow> 'i list"
    and held :: "'q \<Rightarrow> nat \<Rightarrow> 'i list"
    and owned :: "'q \<Rightarrow> 'b multiset"
    and cap :: nat
    and is_full :: "'q \<Rightarrow> bool"
    and push :: "'b \<Rightarrow> 'q \<Rightarrow> ('b \<times> 'q) option"
    and take_item :: "'q \<Rightarrow> ('i \<times> 'q) option"
    and release :: "'q \<Rightarrow> 'q"
    and stamp :: "'b \<Rightarrow> 'q \<Rightarrow> 'i"
    and buf :: "'i \<Rightarrow> 'b"
  assumes push_law: "inv q h \<Longrightarrow> \<not> is_full q \<Longrightarrow>
      \<exists>b' q'. push b q = Some (b', q') \<and> inv q' h \<and> items q' h = items q h @ [stamp b q] \<and>
        held q' h = held q h \<and> add_mset b' (owned q') = add_mset b (owned q)"
    and take_law: "inv q 0 \<Longrightarrow> items q 0 \<noteq> [] \<Longrightarrow>
      \<exists>q'. take_item q = Some (hd (items q 0), q') \<and> inv q' 1 \<and> items q' 1 = tl (items q 0) \<and>
        held q' 1 = [hd (items q 0)] \<and> owned q' = owned q"
    and release_law: "inv q 1 \<Longrightarrow>
      inv (release q) 0 \<and> items (release q) 0 = items q 1 \<and> owned (release q) = owned q"
    and held_0: "inv q 0 \<Longrightarrow> held q 0 = []"
    and full_law: "inv q h \<Longrightarrow> is_full q \<longleftrightarrow> h + length (items q h) = cap"
    and bound_law: "inv q h \<Longrightarrow> h + length (items q h) \<le> cap"
    and owned_law: "inv q h \<Longrightarrow> mset (map buf (held q h @ items q h)) \<subseteq># owned q"
begin

text \<open>A buffer outside the queue is not one the consumer reads or will read.\<close>

lemma not_owned_not_used:
  assumes "inv q h" and "b \<notin># owned q"
  shows "b \<notin> buf ` set (held q h)" and "b \<notin> buf ` set (items q h)"
  using owned_law [OF assms(1)] assms(2)
  by (auto dest!: mset_subset_eqD [where x = b])

text \<open>
  The spare that \<open>push\<close> returns is disjoint from everything held or waiting, provided no
  buffer was in two places before.
\<close>

lemma spare_unused:
  assumes inv: "inv q h" and room: "\<not> is_full q" and p: "push b q = Some (b', q')"
    and once: "\<And>x. count (add_mset b (owned q)) x \<le> 1"
  shows "b' \<notin># owned q'"
proof -
  have e: "add_mset b' (owned q') = add_mset b (owned q)"
    using push_law [OF inv room, of b] p by auto
  have "count (add_mset b' (owned q')) b' \<le> 1"
    unfolding e by (rule once)
  then show ?thesis by (simp add: not_in_iff)
qed

text \<open>Runs of the two sides against the queue, with the history of what went in and out.\<close>

fun exec :: "'b option list \<Rightarrow> 'q \<Rightarrow> nat \<Rightarrow> 'i list \<Rightarrow> 'i list \<Rightarrow> ('q \<times> nat \<times> 'i list \<times> 'i list) option"
where
  "exec [] q h ins outs = Some (q, h, ins, outs)"
| "exec (Some b # ops) q h ins outs =
     (if is_full q then exec ops q h ins outs
      else case push b q of None \<Rightarrow> None
           | Some (_, q') \<Rightarrow> exec ops q' h (ins @ [stamp b q]) outs)"
| "exec (None # ops) q h ins outs =
     (if h = 1 then exec ops (release q) 0 ins outs
      else if items q 0 = [] then exec ops q h ins outs
      else case take_item q of None \<Rightarrow> None
           | Some (i, q') \<Rightarrow> exec ops q' 1 ins (outs @ [i]))"

lemma exec_fifo:
  assumes "inv q h" and "h \<le> 1" and "ins = outs @ items q h"
  shows "\<exists>q' h' ins' outs'. exec ops q h ins outs = Some (q', h', ins', outs') \<and>
           inv q' h' \<and> h' \<le> 1 \<and> ins' = outs' @ items q' h'"
  using assms
proof (induction ops arbitrary: q h ins outs)
  case Nil
  then show ?case by simp
next
  case (Cons op ops)
  show ?case
  proof (cases op)
    case (Some b)
    show ?thesis
    proof (cases "is_full q")
      case True
      with Cons Some show ?thesis by simp
    next
      case False
      from push_law [OF Cons.prems(1) False, of b] obtain b' q' where
        "push b q = Some (b', q')" "inv q' h" "items q' h = items q h @ [stamp b q]"
        by auto
      with Cons.IH [of q' h "ins @ [stamp b q]" outs] Cons.prems False Some
      show ?thesis by simp
    qed
  next
    case None
    consider "h = 1" | "h = 0" "items q 0 = []" | "h = 0" "items q 0 \<noteq> []"
      using Cons.prems(2) by linarith
    then show ?thesis
    proof cases
      case 1
      with release_law [of q] Cons.prems Cons.IH [of "release q" 0 ins outs] None
      show ?thesis by simp
    next
      case 2
      with Cons.prems Cons.IH [of q 0 ins outs] None show ?thesis by simp
    next
      case 3
      with Cons.prems(1) have "inv q 0" by simp
      from take_law [OF this 3(2)] obtain q' where
        "take_item q = Some (hd (items q 0), q')" "inv q' 1" "items q' 1 = tl (items q 0)"
        by auto
      with Cons.IH [of q' 1 ins "outs @ [hd (items q 0)]"] Cons.prems 3 None
      show ?thesis by simp
    qed
  qed
qed

end

section \<open>The operations of the code\<close>

text \<open>
  The locked part of \<open>airspyhf_libusb_transfer_callback\<close> when there is room: swap the
  filled buffer with the one in the slot, store and clear the dropped-buffer counter, advance.
\<close>

definition queue_full :: "airspyhf_device \<Rightarrow> bool" where
  "queue_full d \<longleftrightarrow> \<not> received_buffer_count d < int RAW_BUFFER_COUNT"

definition queue_push :: "ptr \<Rightarrow> airspyhf_device \<Rightarrow> (ptr \<times> airspyhf_device) option" where
  "queue_push buffer d = do {
     temp \<leftarrow> rdi (received_samples_queue d) (received_samples_queue_head d);
     q \<leftarrow> wri (received_samples_queue d) (received_samples_queue_head d) buffer;
     dq \<leftarrow> wri (dropped_buffers_queue d) (received_samples_queue_head d) (dropped_buffers d);
     Some (temp, d\<lparr>received_samples_queue := q, dropped_buffers_queue := dq,
                   dropped_buffers := 0,
                   received_samples_queue_head :=
                     (received_samples_queue_head d + 1) AND (int RAW_BUFFER_COUNT - 1),
                   received_buffer_count := received_buffer_count d + 1\<rparr>)
   }"

text \<open>The locked part of \<open>consumer_threadproc\<close> that takes a slot, and the one that returns it.\<close>

definition queue_take :: "airspyhf_device \<Rightarrow> ((ptr \<times> u32) \<times> airspyhf_device) option" where
  "queue_take d = do {
     input_samples \<leftarrow> rdi (received_samples_queue d) (received_samples_queue_tail d);
     dropped \<leftarrow> rdi (dropped_buffers_queue d) (received_samples_queue_tail d);
     Some ((input_samples, dropped),
           d\<lparr>received_samples_queue_tail :=
               (received_samples_queue_tail d + 1) AND (int RAW_BUFFER_COUNT - 1)\<rparr>)
   }"

definition queue_release :: "airspyhf_device \<Rightarrow> airspyhf_device" where
  "queue_release d = d\<lparr>received_buffer_count := received_buffer_count d - 1\<rparr>"

section \<open>Abstraction and invariant\<close>

definition slot :: "airspyhf_device \<Rightarrow> int \<Rightarrow> ptr \<times> u32" where
  "slot d i = (received_samples_queue d ! nat (i mod 8), dropped_buffers_queue d ! nat (i mod 8))"

definition queue_inv :: "airspyhf_device \<Rightarrow> nat \<Rightarrow> bool" where
  "queue_inv d h \<longleftrightarrow>
     length (received_samples_queue d) = 8 \<and> length (dropped_buffers_queue d) = 8 \<and>
     0 \<le> received_samples_queue_tail d \<and> received_samples_queue_tail d < 8 \<and>
     h \<le> 1 \<and> int h \<le> received_buffer_count d \<and> received_buffer_count d \<le> 8 \<and>
     received_samples_queue_head d =
       (received_samples_queue_tail d + (received_buffer_count d - int h)) mod 8"

definition queue_items :: "airspyhf_device \<Rightarrow> nat \<Rightarrow> (ptr \<times> u32) list" where
  "queue_items d h =
     map (\<lambda>k. slot d (received_samples_queue_tail d + int k)) [0..<nat (received_buffer_count d) - h]"

definition queue_held :: "airspyhf_device \<Rightarrow> nat \<Rightarrow> (ptr \<times> u32) list" where
  "queue_held d h = (if h = 0 then [] else [slot d (received_samples_queue_tail d - 1)])"

definition queue_owned :: "airspyhf_device \<Rightarrow> ptr multiset" where
  "queue_owned d = mset (received_samples_queue d)"

definition queue_stamp :: "ptr \<Rightarrow> airspyhf_device \<Rightarrow> ptr \<times> u32" where
  "queue_stamp b d = (b, dropped_buffers d)"

lemmas queue_defs = queue_full_def queue_push_def queue_take_def queue_release_def

lemma ring_and [simp]: "x AND (int RAW_BUFFER_COUNT - 1) = x mod 8"
  by (simp add: RAW_BUFFER_COUNT_def and_7_eq_mod_8)

lemma mod_8_range [simp]: "0 \<le> (i :: int) mod 8" "i mod 8 < 8" "nat (i mod 8) < 8"
  by simp_all

lemma nat_mod_8_eq_iff: "nat (i mod 8) = nat (j mod 8) \<longleftrightarrow> i mod 8 = (j :: int) mod 8"
  by (simp add: eq_nat_nat_iff)

lemma length_queue_items: "length (queue_items d h) = nat (received_buffer_count d) - h"
  by (simp add: queue_items_def)

lemma queue_count:
  "queue_inv d h \<Longrightarrow> h + length (queue_items d h) = nat (received_buffer_count d)"
  by (simp add: queue_inv_def length_queue_items) linarith

text \<open>
  What the indices obey whatever the threads have done, and all that keeps the accesses in
  bounds; the count is not bounded from below.
\<close>

definition queue_shape :: "airspyhf_device \<Rightarrow> bool" where
  "queue_shape d \<longleftrightarrow>
     length (received_samples_queue d) = 8 \<and> length (dropped_buffers_queue d) = 8 \<and>
     0 \<le> received_samples_queue_tail d \<and> received_samples_queue_tail d < 8 \<and>
     0 \<le> received_samples_queue_head d \<and> received_samples_queue_head d < 8 \<and>
     received_buffer_count d \<le> 8"

lemma queue_inv_shape: "queue_inv d h \<Longrightarrow> queue_shape d"
  by (simp add: queue_inv_def queue_shape_def)

text \<open>What a push does to the slots: only the head slot changes.\<close>

definition pushed :: "ptr \<Rightarrow> airspyhf_device \<Rightarrow> airspyhf_device" where
  "pushed b d = d\<lparr>received_samples_queue :=
       (received_samples_queue d)[nat (received_samples_queue_head d) := b],
     dropped_buffers_queue :=
       (dropped_buffers_queue d)[nat (received_samples_queue_head d) := dropped_buffers d],
     dropped_buffers := 0,
     received_samples_queue_head := (received_samples_queue_head d + 1) mod 8,
     received_buffer_count := received_buffer_count d + 1\<rparr>"

lemma queue_push_shape:
  assumes "queue_shape d" and "\<not> queue_full d"
  shows "queue_push b d =
      Some (received_samples_queue d ! nat (received_samples_queue_head d), pushed b d)"
    and "queue_shape (pushed b d)"
proof -
  show "queue_push b d =
      Some (received_samples_queue d ! nat (received_samples_queue_head d), pushed b d)"
    using assms by (simp add: queue_push_def queue_shape_def pushed_def)
  show "queue_shape (pushed b d)"
    using assms by (simp add: queue_shape_def pushed_def queue_full_def RAW_BUFFER_COUNT_def)
qed

lemma queue_push_eq:
  assumes "queue_inv d h" and "\<not> queue_full d"
  shows "queue_push b d = Some (received_samples_queue d ! nat (received_samples_queue_head d),
           d\<lparr>received_samples_queue :=
               (received_samples_queue d)[nat (received_samples_queue_head d) := b],
             dropped_buffers_queue :=
               (dropped_buffers_queue d)[nat (received_samples_queue_head d) := dropped_buffers d],
             dropped_buffers := 0,
             received_samples_queue_head := (received_samples_queue_head d + 1) mod 8,
             received_buffer_count := received_buffer_count d + 1\<rparr>)"
  using queue_push_shape(1) [OF queue_inv_shape [OF assms(1)] assms(2)] by (simp add: pushed_def)

lemma slot_push_other:
  assumes "queue_inv d h" and "\<not> queue_full d" and "queue_push b d = Some (t, d')"
    and "i mod 8 \<noteq> received_samples_queue_head d"
  shows "slot d' i = slot d i"
proof -
  have "nat (received_samples_queue_head d) \<noteq> nat (i mod 8)"
    using assms(1,4) by (simp add: queue_inv_def eq_nat_nat_iff)
  then show ?thesis
    using queue_push_eq [OF assms(1,2), of b] assms(3) by (auto simp: slot_def)
qed

lemma slot_push_head:
  assumes "queue_inv d h" and "\<not> queue_full d" and "queue_push b d = Some (t, d')"
    and "i mod 8 = received_samples_queue_head d"
  shows "slot d' i = queue_stamp b d"
  using queue_push_eq [OF assms(1,2), of b] assms by (auto simp: slot_def queue_stamp_def queue_inv_def)

lemma queue_push_inv:
  assumes inv: "queue_inv d h" and room: "\<not> queue_full d" and p: "queue_push b d = Some (t, d')"
  shows "queue_inv d' h"
proof -
  have head: "received_samples_queue_head d =
      (received_samples_queue_tail d + (received_buffer_count d - int h)) mod 8"
    using inv by (simp add: queue_inv_def)
  have "(received_samples_queue_head d + 1) mod 8 =
        (received_samples_queue_tail d + (received_buffer_count d + 1 - int h)) mod 8"
    unfolding head by (simp add: mod_simps algebra_simps)
  moreover have "received_buffer_count d + 1 \<le> 8"
    using room by (simp add: queue_full_def RAW_BUFFER_COUNT_def)
  moreover have "d' = d\<lparr>received_samples_queue :=
               (received_samples_queue d)[nat (received_samples_queue_head d) := b],
             dropped_buffers_queue :=
               (dropped_buffers_queue d)[nat (received_samples_queue_head d) := dropped_buffers d],
             dropped_buffers := 0,
             received_samples_queue_head := (received_samples_queue_head d + 1) mod 8,
             received_buffer_count := received_buffer_count d + 1\<rparr>"
    using queue_push_eq [OF inv room, of b] p by simp
  ultimately show ?thesis
    using inv by (simp only: queue_inv_def) auto
qed

lemma queue_push_fields:
  assumes "queue_inv d h" and "\<not> queue_full d" and "queue_push b d = Some (t, d')"
  shows "received_samples_queue_tail d' = received_samples_queue_tail d"
    and "received_buffer_count d' = received_buffer_count d + 1"
  using queue_push_eq [OF assms(1,2), of b] assms(3) by auto

lemma queue_push_items:
  assumes inv: "queue_inv d h" and room: "\<not> queue_full d" and p: "queue_push b d = Some (t, d')"
  shows "queue_items d' h = queue_items d h @ [queue_stamp b d]"
proof -
  let ?tl = "received_samples_queue_tail d" and ?n = "nat (received_buffer_count d) - h"
  have n: "nat (received_buffer_count d + 1) - h = Suc ?n" "int ?n = received_buffer_count d - int h"
    using inv by (auto simp: queue_inv_def)
  have old: "slot d' (?tl + int k) = slot d (?tl + int k)" if "k < ?n" for k
  proof (rule slot_push_other [OF inv room p])
    have "int ?n < 8" using inv room by (auto simp: queue_inv_def queue_full_def RAW_BUFFER_COUNT_def)
    then have "(?tl + int k) mod 8 \<noteq> (?tl + int ?n) mod 8"
      using that by (intro ring_neq) auto
    then show "(?tl + int k) mod 8 \<noteq> received_samples_queue_head d"
      using inv n by (simp add: queue_inv_def)
  qed
  have new: "slot d' (?tl + int ?n) = queue_stamp b d"
    using inv n by (intro slot_push_head [OF inv room p]) (simp add: queue_inv_def)
  show ?thesis
    using old new n by (simp add: queue_items_def queue_push_fields [OF inv room p])
qed

lemma queue_push_held:
  assumes inv: "queue_inv d h" and room: "\<not> queue_full d" and p: "queue_push b d = Some (t, d')"
  shows "queue_held d' h = queue_held d h"
proof (cases "h = 0")
  case True
  then show ?thesis by (simp add: queue_held_def)
next
  case False
  let ?tl = "received_samples_queue_tail d"
  have h: "h = 1" using False inv by (simp add: queue_inv_def)
  have "(?tl - 1) mod 8 \<noteq> (?tl + (received_buffer_count d - 1)) mod 8"
    using inv room h by (intro ring_neq) (auto simp: queue_inv_def queue_full_def RAW_BUFFER_COUNT_def)
  then have "slot d' (?tl - 1) = slot d (?tl - 1)"
    using inv h by (intro slot_push_other [OF inv room p]) (simp add: queue_inv_def)
  then show ?thesis by (simp add: queue_held_def queue_push_fields [OF inv room p])
qed

lemma queue_push_shape_owned:
  assumes shape: "queue_shape d" and room: "\<not> queue_full d" and p: "queue_push b d = Some (t, d')"
  shows "add_mset t (queue_owned d') = add_mset b (queue_owned d)"
proof -
  have "nat (received_samples_queue_head d) < length (received_samples_queue d)"
    using shape by (auto simp: queue_shape_def)
  from nth_list_update_distinct_mset [OF this, of b] show ?thesis
    using queue_push_shape(1) [OF shape room, of b] p by (auto simp: queue_owned_def pushed_def)
qed

lemmas queue_push_owned = queue_push_shape_owned [OF queue_inv_shape]

lemma queue_take_shape:
  assumes "queue_shape d"
  shows "queue_take d = Some (slot d (received_samples_queue_tail d),
           d\<lparr>received_samples_queue_tail := (received_samples_queue_tail d + 1) mod 8\<rparr>)"
    and "queue_shape (d\<lparr>received_samples_queue_tail := (received_samples_queue_tail d + 1) mod 8\<rparr>)"
  using assms by (simp_all add: queue_take_def queue_shape_def slot_def)

lemma queue_take_eq:
  assumes "queue_inv d 0"
  shows "queue_take d = Some (slot d (received_samples_queue_tail d),
           d\<lparr>received_samples_queue_tail := (received_samples_queue_tail d + 1) mod 8\<rparr>)"
  using assms by (simp add: queue_take_def queue_inv_def slot_def)

lemma slot_mod [simp]: "slot d (i mod 8) = slot d i" "slot d (i mod 8 + j) = slot d (i + j)"
  "slot d (i mod 8 - j) = slot d (i - j)"
  by (simp_all add: slot_def mod_simps)

lemma slot_tail_update [simp]:
  "slot (d\<lparr>received_samples_queue_tail := x\<rparr>) i = slot d i"
  "slot (d\<lparr>received_buffer_count := y\<rparr>) i = slot d i"
  by (simp_all add: slot_def)

lemma queue_items_take:
  assumes inv: "queue_inv d 0" and ne: "queue_items d 0 \<noteq> []"
  defines "d' \<equiv> d\<lparr>received_samples_queue_tail := (received_samples_queue_tail d + 1) mod 8\<rparr>"
  shows "queue_items d 0 = slot d (received_samples_queue_tail d) # queue_items d' 1"
proof -
  obtain n where n: "nat (received_buffer_count d) = Suc n"
    using ne by (cases "nat (received_buffer_count d)") (auto simp: queue_items_def)
  have "queue_items d 0 = map (\<lambda>k. slot d (received_samples_queue_tail d + int k)) [0..<Suc n]"
    by (simp only: queue_items_def n diff_zero)
  also have "\<dots> = slot d (received_samples_queue_tail d) #
                map (\<lambda>k. slot d (received_samples_queue_tail d + 1 + int k)) [0..<n]"
    by (simp only: map_upt_Suc_shift) (simp add: algebra_simps)
  also have "map (\<lambda>k. slot d (received_samples_queue_tail d + 1 + int k)) [0..<n] = queue_items d' 1"
    using n by (simp add: queue_items_def d'_def)
  finally show ?thesis .
qed

lemma queue_take_inv:
  assumes "queue_inv d 0" and "queue_items d 0 \<noteq> []"
  shows "queue_inv (d\<lparr>received_samples_queue_tail := (received_samples_queue_tail d + 1) mod 8\<rparr>) 1"
proof -
  have "0 < received_buffer_count d"
    using assms(2) by (cases "received_buffer_count d \<le> 0") (auto simp: queue_items_def)
  then show ?thesis using assms(1) by (simp add: queue_inv_def mod_simps)
qed

lemma queue_owned_bound:
  assumes "queue_inv d h"
  shows "mset (map fst (queue_held d h @ queue_items d h)) \<subseteq># queue_owned d"
proof -
  let ?q = "received_samples_queue d" and ?tl = "received_samples_queue_tail d"
  let ?n = "nat (received_buffer_count d) - h"
  define js where "js = map (\<lambda>k. nat ((?tl - int h + int k) mod 8)) [0..<h + ?n]"
  have small: "h + ?n \<le> 8" using assms by (auto simp: queue_inv_def)
  have "distinct js"
    unfolding js_def
  proof (rule distinct_map [THEN iffD2], intro conjI inj_onI distinct_upt)
    fix x y
    assume x: "x \<in> set [0..<h + ?n]" and y: "y \<in> set [0..<h + ?n]"
      and e: "nat ((?tl - int h + int x) mod 8) = nat ((?tl - int h + int y) mod 8)"
    show "x = y"
    proof (rule ccontr)
      assume "x \<noteq> y"
      then consider "x < y" | "y < x" by linarith
      then show False
        using x y e small ring_neq [of "?tl - int h + int x" "?tl - int h + int y" 8]
          ring_neq [of "?tl - int h + int y" "?tl - int h + int x" 8]
        by cases (auto simp: nat_mod_8_eq_iff)
    qed
  qed
  moreover have "set js \<subseteq> {..<length ?q}"
    using assms by (auto simp: js_def queue_inv_def)
  ultimately have sub: "mset js \<subseteq># mset [0..<length ?q]"
    by (subst mset_set_set [symmetric]) (auto intro!: subset_imp_msubset_mset_set)
  have "map fst (queue_held d h @ queue_items d h) = map ((!) ?q) js"
  proof (cases "h = 0")
    case True
    then show ?thesis by (simp add: queue_held_def queue_items_def js_def slot_def)
  next
    case False
    then have h: "h = 1" using assms by (simp add: queue_inv_def)
    have "map (\<lambda>k. nat ((?tl - 1 + int k) mod 8)) [0..<Suc ?n] =
          nat ((?tl - 1) mod 8) # map (\<lambda>k. nat ((?tl + int k) mod 8)) [0..<?n]"
      by (simp only: map_upt_Suc_shift) (simp add: algebra_simps)
    with h show ?thesis by (simp add: queue_held_def queue_items_def js_def slot_def)
  qed
  moreover have "mset (map ((!) ?q) js) \<subseteq># mset (map ((!) ?q) [0..<length ?q])"
    using sub by (simp add: image_mset_subseteq_mono)
  ultimately show ?thesis
    by (simp add: queue_owned_def map_nth)
qed

section \<open>The code's queue is a sample queue\<close>

interpretation rawq: sample_queue queue_inv queue_items queue_held queue_owned 8
  queue_full queue_push queue_take queue_release queue_stamp fst
proof (unfold_locales, goal_cases)
  case (1 d h b)
  note push = queue_push_eq [OF 1(1,2), of b]
  show ?case
    using queue_push_inv [OF 1 push] queue_push_items [OF 1 push] queue_push_held [OF 1 push]
      queue_push_owned [OF 1 push] push by blast
next
  case (2 d)
  then show ?case
    using queue_take_inv [OF 2] queue_items_take [OF 2]
    by (simp add: queue_take_eq queue_held_def queue_owned_def)
next
  case (3 d)
  then have "nat (received_buffer_count d - 1) = nat (received_buffer_count d) - 1"
    by linarith
  with 3 show ?case
    by (auto simp: queue_release_def queue_inv_def queue_items_def queue_owned_def)
next
  case (4 d)
  show ?case by (simp add: queue_held_def)
next
  case (5 d h)
  then show ?case
    using queue_count [OF 5] by (auto simp: queue_full_def queue_inv_def RAW_BUFFER_COUNT_def)
next
  case (6 d h)
  then show ?case using queue_count [OF 6] by (auto simp: queue_inv_def)
next
  case (7 d h)
  then show ?case by (rule queue_owned_bound)
qed

end
