(* ===== verification/Transfers.thy ===== *)
theory Transfers
  imports Sample_Queue
begin

text \<open>
  The bulk transfers of \<open>airspyhf.c\<close>: their allocation and release, submission,
  cancellation, and the completion callback \<open>airspyhf_libusb_transfer_callback\<close>. The callback
  is split where it takes and leaves the mutex, so that the streaming theory can interleave
  its parts with the consumer thread; the whole callback is their composition.
\<close>

section \<open>Allocation\<close>

text \<open>The loop that allocates the queue's buffers; it stops at the first failed allocation.\<close>

fun alloc_queue :: "env \<Rightarrow> nat list \<Rightarrow> airspyhf_device \<Rightarrow> trace \<Rightarrow> bool \<times> airspyhf_device \<times> trace" where
  "alloc_queue E [] d w = (True, d, w)"
| "alloc_queue E (i # is) d w =
     (let (p, w) = malloc E (buffer_size d) w;
          d = d\<lparr>received_samples_queue := (received_samples_queue d)[i := p]\<rparr>
      in if p = NULL then (False, d, w) else alloc_queue E is d w)"

definition libusb_alloc_transfer :: "env \<Rightarrow> trace \<Rightarrow> ptr \<times> trace" where
  "libusb_alloc_transfer E w =
     (let p = (if alloc_ok E w (xfer_struct_size E) then Suc (length w) else NULL)
      in (p, w @ [AllocTransfer p]))"

text \<open>The loop over the transfers: allocate the structure, fill it, check its buffer.\<close>

fun alloc_xfers ::
  "env \<Rightarrow> nat \<Rightarrow> nat list \<Rightarrow> libusb_transfer option list \<Rightarrow> trace \<Rightarrow>
   bool \<times> libusb_transfer option list \<times> trace" where
  "alloc_xfers E len [] xs w = (True, xs, w)"
| "alloc_xfers E len (i # is) xs w =
     (let (x, w) = libusb_alloc_transfer E w in
      if x = NULL then (False, xs, w)
      else let (b, w) = malloc E len w;
               xs = xs[i := Some \<lparr>xfer_addr = x, endpoint = 0, xfer_length = len,
                                  xfer_buffer = b, xfer_callback = False\<rparr>]
           in if b = NULL then (False, xs, w) else alloc_xfers E len is xs w)"

definition allocate_transfers ::
  "env \<Rightarrow> airspyhf_device \<Rightarrow> trace \<Rightarrow> int \<times> airspyhf_device \<times> trace" where
  "allocate_transfers E d w =
     (case transfers d of
        Some _ \<Rightarrow> (AIRSPYHF_ERROR, d, w)
      | None \<Rightarrow>
          let (out, w) = malloc E ((buffer_size d div sizeof_complex_int16) * sizeof_complex_float) w;
              d = d\<lparr>output_buffer := out\<rparr>;
              (ok, d, w) = alloc_queue E [0..<RAW_BUFFER_COUNT] d w
          in if \<not> ok then (AIRSPYHF_ERROR, d, w)
             else let (p, w) = malloc E (transfer_count d * xfer_struct_size E) w
                  in if p = NULL then (AIRSPYHF_ERROR, d, w)
                     else let (ok, xs, w) = alloc_xfers E (buffer_size d) [0..<transfer_count d]
                                              (replicate (transfer_count d) None) w;
                              d = d\<lparr>transfers := Some xs, transfers_ptr := p\<rparr>
                          in (if ok then AIRSPYHF_SUCCESS else AIRSPYHF_ERROR, d, w))"

section \<open>Release\<close>

fun free_xfers :: "libusb_transfer option list \<Rightarrow> trace \<Rightarrow> trace" where
  "free_xfers [] w = w"
| "free_xfers (None # xs) w = free_xfers xs w"
| "free_xfers (Some x # xs) w = free_xfers xs (free (xfer_buffer x) w @ [FreeTransfer (xfer_addr x)])"

fun free_queue :: "ptr list \<Rightarrow> trace \<Rightarrow> trace" where
  "free_queue [] w = w"
| "free_queue (p # ps) w = free_queue ps (if p \<noteq> NULL then free p w else w)"

text \<open>The result is always \<open>AIRSPYHF_SUCCESS\<close>.\<close>

definition free_transfers :: "airspyhf_device \<Rightarrow> trace \<Rightarrow> airspyhf_device \<times> trace" where
  "free_transfers d w =
     (case transfers d of
        None \<Rightarrow> (d, w)
      | Some xs \<Rightarrow>
          let w = free (output_buffer d) w;
              w = free_xfers (take (transfer_count d) xs) w;
              w = free (transfers_ptr d) w;
              w = free_queue (received_samples_queue d) w
          in (d\<lparr>output_buffer := NULL, transfers := None, transfers_ptr := NULL,
               received_samples_queue := map (\<lambda>_. NULL) (received_samples_queue d)\<rparr>, w))"

section \<open>Submission\<close>

definition nth_xfer :: "airspyhf_device \<Rightarrow> nat \<Rightarrow> libusb_transfer option" where
  "nth_xfer d i = transfers d \<bind> (\<lambda>xs. rd xs i \<bind> (\<lambda>x. x))"

definition set_xfer :: "nat \<Rightarrow> libusb_transfer \<Rightarrow> airspyhf_device \<Rightarrow> airspyhf_device" where
  "set_xfer i x d = d\<lparr>transfers := map_option (\<lambda>xs. xs[i := Some x]) (transfers d)\<rparr>"

definition libusb_submit_transfer :: "env \<Rightarrow> libusb_transfer \<Rightarrow> trace \<Rightarrow> int \<times> trace" where
  "libusb_submit_transfer E x w = call E (SubmitTransfer (xfer_addr x) (xfer_buffer x)) w"

text \<open>\<open>LIBUSB_ENDPOINT_IN | AIRSPYHF_ENDPOINT_IN\<close>.\<close>

definition bulk_endpoint :: nat where
  "bulk_endpoint = 128 + AIRSPYHF_ENDPOINT_IN"

fun prepare_loop ::
  "env \<Rightarrow> nat \<Rightarrow> nat list \<Rightarrow> airspyhf_device \<Rightarrow> trace \<Rightarrow> (int \<times> airspyhf_device \<times> trace) option" where
  "prepare_loop E ep [] d w = Some (AIRSPYHF_SUCCESS, d, w)"
| "prepare_loop E ep (i # is) d w = do {
     x \<leftarrow> nth_xfer d i;
     let x = x\<lparr>endpoint := ep, xfer_callback := True\<rparr>;
     let d = set_xfer i x d;
     let (e, w) = libusb_submit_transfer E x w;
     if e \<noteq> 0 then Some (AIRSPYHF_ERROR, d, w)
     else prepare_loop E ep is (d\<lparr>transfer_live := transfer_live d + 1\<rparr>) w
   }"

definition prepare_transfers ::
  "env \<Rightarrow> nat \<Rightarrow> airspyhf_device \<Rightarrow> trace \<Rightarrow> (int \<times> airspyhf_device \<times> trace) option" where
  "prepare_transfers E ep d w =
     (if transfers d \<noteq> None then prepare_loop E ep [0..<transfer_count d] d w
      else Some (AIRSPYHF_ERROR, d, w))"

section \<open>The completion callback\<close>

text \<open>
  Before the mutex: count the completion; return unless the stream runs; a failed or short
  transfer ends the stream. The flag says whether the callback goes on.
\<close>

definition callback_enter ::
  "libusb_transfer \<Rightarrow> bool \<Rightarrow> int \<Rightarrow> airspyhf_device \<Rightarrow> bool \<times> airspyhf_device" where
  "callback_enter x completed actual_length d =
     (let d = d\<lparr>transfer_live := transfer_live d - 1\<rparr> in
      if \<not> streaming d \<or> stop_requested d then (False, d)
      else if completed \<and> actual_length = int (xfer_length x) then (True, d)
      else (False, d\<lparr>streaming := False\<rparr>))"

text \<open>Under the mutex: enqueue the buffer, or count a dropped one.\<close>

definition callback_locked :: "nat \<Rightarrow> airspyhf_device \<Rightarrow> airspyhf_device option" where
  "callback_locked i d =
     (if \<not> queue_full d then do {
        x \<leftarrow> nth_xfer d i;
        (temp, d) \<leftarrow> queue_push (xfer_buffer x) d;
        Some (set_xfer i (x\<lparr>xfer_buffer := temp\<rparr>) d)
      } else Some (d\<lparr>dropped_buffers := dropped_buffers d + 1\<rparr>))"

text \<open>After the mutex: submit the transfer again.\<close>

definition callback_resubmit :: "bool \<Rightarrow> airspyhf_device \<Rightarrow> airspyhf_device" where
  "callback_resubmit failed d =
     (if failed then d\<lparr>streaming := False\<rparr> else d\<lparr>transfer_live := transfer_live d + 1\<rparr>)"

definition airspyhf_libusb_transfer_callback ::
  "env \<Rightarrow> nat \<Rightarrow> bool \<Rightarrow> int \<Rightarrow> airspyhf_device \<Rightarrow> trace \<Rightarrow> (airspyhf_device \<times> trace) option" where
  "airspyhf_libusb_transfer_callback E i completed actual_length d w = do {
     x \<leftarrow> nth_xfer d i;
     let (go, d) = callback_enter x completed actual_length d;
     if \<not> go then Some (d, w)
     else do {
       d \<leftarrow> callback_locked i d;
       x \<leftarrow> nth_xfer d i;
       let (e, w) = libusb_submit_transfer E x w;
       Some (callback_resubmit (e \<noteq> 0) d, w)
     }
   }"

text \<open>\<open>libusb_handle_events_timeout_completed\<close> runs the callback of every completed transfer.\<close>

fun run_completions ::
  "env \<Rightarrow> (nat \<times> bool \<times> int) list \<Rightarrow> airspyhf_device \<Rightarrow> trace \<Rightarrow> (airspyhf_device \<times> trace) option" where
  "run_completions E [] d w = Some (d, w)"
| "run_completions E ((i, ok, n) # cs) d w =
     airspyhf_libusb_transfer_callback E i ok n d w \<bind> (\<lambda>(d, w). run_completions E cs d w)"

definition handle_events ::
  "env \<Rightarrow> airspyhf_device \<Rightarrow> trace \<Rightarrow> (int \<times> airspyhf_device \<times> trace) option" where
  "handle_events E d w = do {
     let (r, w') = call E HandleEvents w;
     (d, w') \<leftarrow> run_completions E (completions E w) d w';
     Some (r, d, w')
   }"

section \<open>Cancellation\<close>

fun cancel_xfers :: "libusb_transfer option list \<Rightarrow> trace \<Rightarrow> trace" where
  "cancel_xfers [] w = w"
| "cancel_xfers (None # xs) w = cancel_xfers xs w"
| "cancel_xfers (Some x # xs) w = cancel_xfers xs (w @ [CancelTransfer (xfer_addr x)])"

text \<open>\<open>for (i = 0; i < transfer_count && transfer_live > 0; i++)\<close>: \<open>n\<close> rounds are left.\<close>

fun drain :: "env \<Rightarrow> nat \<Rightarrow> airspyhf_device \<Rightarrow> trace \<Rightarrow> (airspyhf_device \<times> trace) option" where
  "drain E 0 d w = Some (d, w)"
| "drain E (Suc n) d w =
     (if transfer_live d > 0
      then handle_events E d w \<bind> (\<lambda>(_, d, w). drain E n d w)
      else Some (d, w))"

definition cancel_transfers ::
  "env \<Rightarrow> airspyhf_device \<Rightarrow> trace \<Rightarrow> (int \<times> airspyhf_device \<times> trace) option" where
  "cancel_transfers E d w =
     (case transfers d of
        None \<Rightarrow> Some (AIRSPYHF_ERROR, d, w)
      | Some xs \<Rightarrow> do {
          let w = cancel_xfers (take (transfer_count d) xs) w;
          (d, w) \<leftarrow> drain E (transfer_count d) d w;
          Some (AIRSPYHF_SUCCESS, d, w)
        })"

end
