(* ===== verification/Stream_Control.thy ===== *)
theory Stream_Control
  imports Transfers
begin

text \<open>
  Starting and stopping a stream in \<open>airspyhf.c\<close>: \<open>airspyhf_set_receiver_mode\<close>,
  \<open>create_io_threads\<close>, \<open>kill_io_threads\<close>, \<open>airspyhf_start\<close>, \<open>airspyhf_stop\<close> and
  \<open>airspyhf_is_streaming\<close>, as one sequential run of the calling thread. The threads they
  create are the subject of the theory \<open>Streaming\<close>.
\<close>

definition airspyhf_set_receiver_mode :: "env \<Rightarrow> receiver_mode_t \<Rightarrow> trace \<Rightarrow> int \<times> trace" where
  "airspyhf_set_receiver_mode E value w =
     (let (result, w) = libusb_control_out E AIRSPYHF_RECEIVER_MODE (receiver_mode_code value) 0 [] w
      in (if result \<noteq> 0 then AIRSPYHF_ERROR else AIRSPYHF_SUCCESS, w))"

text \<open>The two threads: 0 is the consumer, 1 the transfer thread.\<close>

definition consumer_thread :: nat where "consumer_thread = 0"
definition transfer_thread :: nat where "transfer_thread = 1"

definition create_io_threads ::
  "env \<Rightarrow> ptr \<Rightarrow> airspyhf_device \<Rightarrow> trace \<Rightarrow> (int \<times> airspyhf_device \<times> trace) option" where
  "create_io_threads E cb d w =
     (if \<not> streaming d \<and> \<not> stop_requested d then do {
        let d = d\<lparr>callback := cb, streaming := True\<rparr>;
        (result, d, w) \<leftarrow> prepare_transfers E bulk_endpoint d w;
        if result \<noteq> AIRSPYHF_SUCCESS then Some (result, d, w)
        else do {
          let d = d\<lparr>received_samples_queue_head := 0, received_samples_queue_tail := 0,
                    received_buffer_count := 0\<rparr>;
          let (r, w) = call E (ThreadCreate consumer_thread) w;
          if r \<noteq> 0 then Some (AIRSPYHF_ERROR, d, w)
          else do {
            let d = d\<lparr>consumer_thread_running := True\<rparr>;
            let (r, w) = call E (ThreadCreate transfer_thread) w;
            if r \<noteq> 0 then Some (AIRSPYHF_ERROR, d, w)
            else Some (AIRSPYHF_SUCCESS, d\<lparr>transfer_thread_running := True\<rparr>, w)
          }
        }
      } else Some (AIRSPYHF_ERROR, d, w))"

text \<open>
  \<open>kill_io_threads\<close> as the calling thread sees it: the joins are entries of the trace, in the
  code's order. That each returns only when its thread has run to its end is the rule
  \<open>main_join\<close> of the theory \<open>Streaming\<close>, and that both threads get there is proved with it; the
  condition signal that wakes the consumer for this has no effect on the calling thread's state.
\<close>

definition kill_io_threads ::
  "env \<Rightarrow> airspyhf_device \<Rightarrow> trace \<Rightarrow> (int \<times> airspyhf_device \<times> trace) option" where
  "kill_io_threads E d w =
     (if stop_requested d then do {
        let d = d\<lparr>stop_requested := False, streaming := False\<rparr>;
        (r, d, w) \<leftarrow> cancel_transfers E d w;
        let (d, w) = (if transfer_thread_running d
                      then (d\<lparr>transfer_thread_running := False\<rparr>, w @ [ThreadJoin transfer_thread])
                      else (d, w));
        let (d, w) = (if consumer_thread_running d
                      then (d\<lparr>consumer_thread_running := False\<rparr>, w @ [ThreadJoin consumer_thread])
                      else (d, w));
        (r, d, w) \<leftarrow> handle_events E d w;
        Some (AIRSPYHF_SUCCESS, d, w)
      } else Some (AIRSPYHF_SUCCESS, d, w))"

definition airspyhf_start ::
  "env \<Rightarrow> ptr \<Rightarrow> ptr \<Rightarrow> airspyhf_device \<Rightarrow> trace \<Rightarrow> (int \<times> airspyhf_device \<times> trace) option" where
  "airspyhf_start E cb context d w = do {
     let d = d\<lparr>dropped_buffers_queue := replicate RAW_BUFFER_COUNT 0, dropped_buffers := 0,
               vec := \<lparr>re = f32 1, im = Zero False\<rparr>\<rparr>;
     let (result, w) = airspyhf_set_receiver_mode E RECEIVER_MODE_OFF w;
     if result \<noteq> AIRSPYHF_SUCCESS then Some (result, d, w)
     else do {
       let w = snd (call E (ClearHalt bulk_endpoint) w);
       let (result, w) = airspyhf_set_receiver_mode E RECEIVER_MODE_ON w;
       if result = AIRSPYHF_SUCCESS then create_io_threads E cb (d\<lparr>ctx := context\<rparr>) w
       else Some (result, d, w)
     }
   }"

definition airspyhf_is_streaming :: "airspyhf_device \<Rightarrow> bool" where
  "airspyhf_is_streaming d \<longleftrightarrow> streaming d \<and> \<not> stop_requested d"

definition airspyhf_stop ::
  "env \<Rightarrow> airspyhf_device \<Rightarrow> trace \<Rightarrow> (int \<times> airspyhf_device \<times> trace) option" where
  "airspyhf_stop E d w = do {
     let d = d\<lparr>stop_requested := True\<rparr>;
     let (result1, w) = airspyhf_set_receiver_mode E RECEIVER_MODE_OFF w;
     (result2, d, w) \<leftarrow> kill_io_threads E d w;
     let w = snd (call E InterruptEventHandler w);
     Some (if result2 \<noteq> AIRSPYHF_SUCCESS then result2 else result1, d, w)
   }"

end
