(* ===== verification/Control.thy ===== *)
theory Control
  imports Stream_Control
begin

text \<open>
  The control operations of \<open>airspyhf.c\<close> that the application may call on an open device:
  tuning, sample rate, calibration, the configuration stored in flash, identification,
  attenuators and the other vendor commands. An output parameter is part of the result; a
  pointer parameter that the code tests for null is an \<open>option\<close>.
\<close>

section \<open>Tuning\<close>

definition if_shift :: "airspyhf_device \<Rightarrow> cflt" where
  "if_shift d = int64f (if enable_dsp d \<noteq> 0 \<and> is_low_if d = 0 then DEFAULT_IF_SHIFT else 0)"

definition adjusted_freq_hz :: "airspyhf_device \<Rightarrow> cflt \<Rightarrow> cflt" where
  "adjusted_freq_hz d f =
     mul64 (mul64 f (add64 (f64 1000000000) (int64f (sint (calibration_ppb d))))) (f64 (1 / 1000000000))"

definition lo_low_khz :: "airspyhf_device \<Rightarrow> u32" where
  "lo_low_khz d = (if is_low_if d \<noteq> 0 then MIN_LOW_IF_LO else MIN_ZERO_IF_LO)"

text \<open>A negative or too large argument of \<open>(uint32_t) round(\<dots>)\<close> is undefined.\<close>

definition tuned_khz :: "airspyhf_device \<Rightarrow> cflt \<Rightarrow> u32 option" where
  "tuned_khz d f =
     map_option (max (lo_low_khz d))
       (round_to_u32 (mul64 (add64 (adjusted_freq_hz d f) (if_shift d)) (f64 (1 / 1000))))"

text \<open>
  \<open>(((int8_t) buf[3] << 16) | (buf[2] << 8) | buf[1]) * 1e3 / (1 << buf[0])\<close>; the shift is
  undefined when the result does not fit an \<open>int\<close>. The shift of a negative \<open>int8_t\<close> to the left,
  which C leaves undefined, is the arithmetic one that the compilers make of it.
\<close>

definition freq_delta_value :: "u8 list \<Rightarrow> cflt option" where
  "freq_delta_value buf =
     (if unat (buf ! 0) < 31
      then Some (div64 (mul64 (int64f (push_bit 16 (sint (buf ! 3)) OR push_bit 8 (uint (buf ! 2))
                                         OR uint (buf ! 1))) (f64 1000))
                       (int64f (2 ^ unat (buf ! 0))))
      else None)"

definition finish_tuning :: "cflt \<Rightarrow> u32 \<Rightarrow> cflt \<Rightarrow> airspyhf_device \<Rightarrow> airspyhf_device" where
  "finish_tuning f khz adjusted d =
     d\<lparr>freq_hz := f,
       freq_shift := add64 (sub64 adjusted (mul64 (int64f (uint khz)) (f64 1000))) (freq_delta_hz d)\<rparr>"

definition airspyhf_set_freq_double ::
  "env \<Rightarrow> cflt \<Rightarrow> airspyhf_device \<Rightarrow> trace \<Rightarrow> (int \<times> airspyhf_device \<times> trace) option" where
  "airspyhf_set_freq_double E f d w = do {
     let adjusted = adjusted_freq_hz d f;
     khz \<leftarrow> tuned_khz d f;
     if freq_khz d \<noteq> khz then do {
       let (result, w) = libusb_control_out E AIRSPYHF_SET_FREQ 0 0 (be_bytes_of_u32 khz) w;
       if int_lt_size result 4 then Some (AIRSPYHF_ERROR, d, w)
       else do {
         let d = d\<lparr>freq_khz := khz\<rparr>;
         let (result, bs, w) = libusb_control_in E AIRSPYHF_GET_FREQ_DELTA 0 0 4 w;
         d \<leftarrow> (if result = 4 then do {
                 x \<leftarrow> freq_delta_value (blit bs (be_bytes_of_u32 khz));
                 Some (d\<lparr>freq_delta_hz := x\<rparr>)
               } else Some d);
         b \<leftarrow> iq_balancer d;
         b \<leftarrow> iq_balancer_set_optimal_point (optimal_point d) b;
         Some (AIRSPYHF_SUCCESS, finish_tuning f khz adjusted (d\<lparr>iq_balancer := Some b\<rparr>), w)
       }
     } else Some (AIRSPYHF_SUCCESS, finish_tuning f khz adjusted d, w)
   }"

definition airspyhf_set_freq ::
  "env \<Rightarrow> u32 \<Rightarrow> airspyhf_device \<Rightarrow> trace \<Rightarrow> (int \<times> airspyhf_device \<times> trace) option" where
  "airspyhf_set_freq E f d w = airspyhf_set_freq_double E (int64f (uint f)) d w"

section \<open>Sample rates\<close>

text \<open>The memory \<open>buffer\<close> points to after the call; a buffer that is too short is overrun.\<close>

definition airspyhf_get_samplerates ::
  "airspyhf_device \<Rightarrow> u32 list \<Rightarrow> u32 \<Rightarrow> (int \<times> u32 list) option" where
  "airspyhf_get_samplerates d buffer len =
     (if len = 0 then do {
        buffer \<leftarrow> wr buffer 0 (supported_samplerate_count d);
        Some (AIRSPYHF_SUCCESS, buffer)
      } else if len \<le> supported_samplerate_count d then
        (if unat len \<le> length (supported_samplerates d) \<and> unat len \<le> length buffer
         then Some (AIRSPYHF_SUCCESS, blit (take (unat len) (supported_samplerates d)) buffer)
         else None)
      else Some (AIRSPYHF_ERROR, buffer))"

text \<open>The search loop: the index of the first entry equal to \<open>r\<close>, or \<open>r\<close> itself.\<close>

fun find_rate :: "u32 list \<Rightarrow> u32 \<Rightarrow> nat list \<Rightarrow> u32 option" where
  "find_rate rates r [] = Some r"
| "find_rate rates r (i # is) =
     rd rates i \<bind> (\<lambda>x. if r = x then Some (of_nat i) else find_rate rates r is)"

definition rate_index :: "airspyhf_device \<Rightarrow> u32 \<Rightarrow> u32 option" where
  "rate_index d samplerate =
     (if MAX_SAMPLERATE_INDEX < samplerate
      then find_rate (supported_samplerates d) samplerate [0..<unat (supported_samplerate_count d)]
      else Some samplerate)"

text \<open>Zero-IF rates need the local oscillator at or above \<open>MIN_ZERO_IF_LO\<close>.\<close>

definition raise_lo ::
  "env \<Rightarrow> airspyhf_device \<Rightarrow> trace \<Rightarrow> bool \<times> airspyhf_device \<times> trace" where
  "raise_lo E d w =
     (if is_low_if d = 0 \<and> freq_khz d < MIN_ZERO_IF_LO then
        (let (result, w) = libusb_control_out E AIRSPYHF_SET_FREQ 0 0 (be_bytes_of_u32 MIN_ZERO_IF_LO) w
         in if int_lt_size result 4 then (False, d, w)
            else (True, d\<lparr>freq_khz := MIN_ZERO_IF_LO\<rparr>, w))
      else (True, d, w))"

definition read_filter_gain :: "libm \<Rightarrow> env \<Rightarrow> trace \<Rightarrow> cflt \<times> trace" where
  "read_filter_gain M E w =
     (let gain = junk E w 0;
          (result, bs, w) = libusb_control_in E AIRSPYHF_GET_FILTER_GAIN 0 0 1 w;
          gain = hd (blit bs [gain])
      in (if result = 1 then m_powf M (f32 10) (mul32 (int32f (uint gain)) (fneg (f32 (5 / 100))))
          else f32 1, w))"

definition airspyhf_set_samplerate ::
  "libm \<Rightarrow> env \<Rightarrow> u32 \<Rightarrow> airspyhf_device \<Rightarrow> trace \<Rightarrow> (int \<times> airspyhf_device \<times> trace) option" where
  "airspyhf_set_samplerate M E samplerate d w = do {
     i \<leftarrow> rate_index d samplerate;
     if supported_samplerate_count d \<le> i then Some (AIRSPYHF_ERROR, d, w)
     else do {
       rate \<leftarrow> rd (supported_samplerates d) (unat i);
       arch \<leftarrow> rd (samplerate_architectures d) (unat i);
       let d = d\<lparr>current_samplerate := rate, is_low_if := arch\<rparr>;
       let w = snd (call E (ClearHalt bulk_endpoint) w);
       let (ok, d, w) = raise_lo E d w;
       if \<not> ok then Some (AIRSPYHF_ERROR, d, w)
       else do {
         let (result, w) = libusb_control_out E AIRSPYHF_SET_SAMPLERATE 0 (to_u16 i) [] w;
         if result \<noteq> 0 then Some (AIRSPYHF_ERROR, d, w)
         else do {
           let (gain, w) = read_filter_gain M E w;
           let d = d\<lparr>filter_gain := gain\<rparr>;
           (_, d, w) \<leftarrow> airspyhf_set_freq_double E (freq_hz d) d w;
           Some (AIRSPYHF_SUCCESS, d, w)
         }
       }
     }
   }"

definition airspyhf_get_output_size :: "airspyhf_device \<Rightarrow> int" where
  "airspyhf_get_output_size d = int SAMPLES_TO_TRANSFER"

definition airspyhf_is_low_if :: "airspyhf_device \<Rightarrow> int" where
  "airspyhf_is_low_if d = uint (is_low_if d)"

section \<open>Calibration and the configuration in flash\<close>

record flash_config =
  magic_number :: u32
  flash_calibration_ppb :: u32
  flash_calibration_vctcxo :: u32
  flash_frontend_options :: u32

text \<open>The structure's bytes in memory and back.\<close>

definition flash_config_bytes :: "flash_config \<Rightarrow> u8 list" where
  "flash_config_bytes c =
     bytes_of_u32 (magic_number c) @ bytes_of_u32 (flash_calibration_ppb c) @
     bytes_of_u32 (flash_calibration_vctcxo c) @ bytes_of_u32 (flash_frontend_options c)"

definition flash_config_of_bytes :: "u8 list \<Rightarrow> flash_config" where
  "flash_config_of_bytes bs =
     \<lparr>magic_number = u32_of_bytes bs, flash_calibration_ppb = u32_of_bytes (drop 4 bs),
      flash_calibration_vctcxo = u32_of_bytes (drop 8 bs),
      flash_frontend_options = u32_of_bytes (drop 12 bs)\<rparr>"

text \<open>\<open>length\<close> is the length of \<open>buffer\<close>; the page is 256 bytes.\<close>

definition airspyhf_config_write :: "env \<Rightarrow> u8 list \<Rightarrow> trace \<Rightarrow> int \<times> trace" where
  "airspyhf_config_write E buffer w =
     (let buf = blit (take 256 buffer) (replicate 256 0);
          (result, w) = libusb_control_out E AIRSPYHF_CONFIG_WRITE 0 0 buf w
      in (if int_lt_size result 256 then AIRSPYHF_ERROR else AIRSPYHF_SUCCESS, w))"

definition airspyhf_config_read :: "env \<Rightarrow> nat \<Rightarrow> trace \<Rightarrow> int \<times> u8 list \<times> trace" where
  "airspyhf_config_read E len w =
     (let buf = junk_bytes E 256 w;
          (result, bs, w) = libusb_control_in E AIRSPYHF_CONFIG_READ 0 0 256 w;
          buffer = take len (blit bs buf)
      in (if int_lt_size result 256 then AIRSPYHF_ERROR else AIRSPYHF_SUCCESS, buffer, w))"

definition airspyhf_get_calibration :: "airspyhf_device \<Rightarrow> u32 option \<Rightarrow> int \<times> u32 option" where
  "airspyhf_get_calibration d ppb =
     (case ppb of Some _ \<Rightarrow> (AIRSPYHF_SUCCESS, Some (calibration_ppb d)) | None \<Rightarrow> (AIRSPYHF_ERROR, None))"

definition airspyhf_set_calibration ::
  "env \<Rightarrow> u32 \<Rightarrow> airspyhf_device \<Rightarrow> trace \<Rightarrow> (int \<times> airspyhf_device \<times> trace) option" where
  "airspyhf_set_calibration E ppb d w =
     (let d = d\<lparr>calibration_ppb := ppb\<rparr> in airspyhf_set_freq_double E (freq_hz d) d w)"

definition airspyhf_get_vctcxo_calibration :: "airspyhf_device \<Rightarrow> u16 option \<Rightarrow> int \<times> u16 option" where
  "airspyhf_get_vctcxo_calibration d vc =
     (case vc of Some _ \<Rightarrow> (AIRSPYHF_SUCCESS, Some (ucast (calibration_vctcxo d)))
      | None \<Rightarrow> (AIRSPYHF_ERROR, None))"

definition airspyhf_set_vctcxo_calibration ::
  "env \<Rightarrow> u16 \<Rightarrow> airspyhf_device \<Rightarrow> trace \<Rightarrow> int \<times> airspyhf_device \<times> trace" where
  "airspyhf_set_vctcxo_calibration E vc d w =
     (let d = d\<lparr>calibration_vctcxo := ucast vc\<rparr>;
          (result, w) = libusb_control_out E AIRSPYHF_SET_VCTCXO_CALIBRATION vc 0 [] w
      in (if result < 0 then AIRSPYHF_ERROR else AIRSPYHF_SUCCESS, d, w))"

definition airspyhf_get_frontend_options :: "airspyhf_device \<Rightarrow> u32 option \<Rightarrow> int \<times> u32 option" where
  "airspyhf_get_frontend_options d flags =
     (case flags of Some _ \<Rightarrow> (AIRSPYHF_SUCCESS, Some (frontend_options d)) | None \<Rightarrow> (AIRSPYHF_ERROR, None))"

definition airspyhf_set_frontend_options ::
  "env \<Rightarrow> u32 \<Rightarrow> airspyhf_device \<Rightarrow> trace \<Rightarrow> int \<times> airspyhf_device \<times> trace" where
  "airspyhf_set_frontend_options E flags d w =
     (let d = d\<lparr>frontend_options := flags\<rparr>;
          (result, w) = libusb_control_out E AIRSPYHF_SET_FRONTEND_OPTIONS
             (to_u16 (flags AND 0xFFFF)) (to_u16 (drop_bit 16 flags)) [] w
      in (if result < 0 then AIRSPYHF_ERROR else AIRSPYHF_SUCCESS, d, w))"

definition device_flash_config :: "airspyhf_device \<Rightarrow> flash_config" where
  "device_flash_config d =
     \<lparr>magic_number = CALIBRATION_MAGIC, flash_calibration_ppb = calibration_ppb d,
      flash_calibration_vctcxo = calibration_vctcxo d, flash_frontend_options = frontend_options d\<rparr>"

definition airspyhf_flash_configuration :: "env \<Rightarrow> airspyhf_device \<Rightarrow> trace \<Rightarrow> int \<times> trace" where
  "airspyhf_flash_configuration E d w =
     (if airspyhf_is_streaming d then (AIRSPYHF_ERROR, w)
      else let (result, w) = airspyhf_config_write E (flash_config_bytes (device_flash_config d)) w
           in (if result \<noteq> AIRSPYHF_SUCCESS then AIRSPYHF_ERROR else AIRSPYHF_SUCCESS, w))"

section \<open>IQ correction and DSP settings\<close>

definition airspyhf_set_optimal_iq_correction_point ::
  "cflt \<Rightarrow> airspyhf_device \<Rightarrow> (int \<times> airspyhf_device) option" where
  "airspyhf_set_optimal_iq_correction_point x d = do {
     let d = d\<lparr>optimal_point := x\<rparr>;
     b \<leftarrow> iq_balancer d;
     b \<leftarrow> iq_balancer_set_optimal_point (optimal_point d) b;
     Some (AIRSPYHF_SUCCESS, d\<lparr>iq_balancer := Some b\<rparr>)
   }"

definition airspyhf_iq_balancer_configure ::
  "env \<Rightarrow> int \<Rightarrow> int \<Rightarrow> int \<Rightarrow> int \<Rightarrow> airspyhf_device \<Rightarrow> trace \<Rightarrow> (int \<times> airspyhf_device \<times> trace) option" where
  "airspyhf_iq_balancer_configure E skip integration overlap correlation d w = do {
     b \<leftarrow> iq_balancer d;
     ((q, b), w) \<leftarrow> iq_balancer_configure E skip integration overlap correlation (iq_balancer_ptrs d, b) w;
     Some (AIRSPYHF_SUCCESS, d\<lparr>iq_balancer := Some b, iq_balancer_ptrs := q\<rparr>, w)
   }"

definition airspyhf_set_lib_dsp :: "u8 \<Rightarrow> airspyhf_device \<Rightarrow> int \<times> airspyhf_device" where
  "airspyhf_set_lib_dsp flag d = (AIRSPYHF_SUCCESS, d\<lparr>enable_dsp := flag\<rparr>)"

section \<open>Identification\<close>

definition partid_of_bytes :: "u8 list \<Rightarrow> airspyhf_read_partid_serialno_t" where
  "partid_of_bytes bs =
     \<lparr>part_id = u32_of_bytes bs, serial_no = map (\<lambda>i. u32_of_bytes (drop (4 * Suc i) bs)) [0..<4]\<rparr>"

definition partid_bytes :: "airspyhf_read_partid_serialno_t \<Rightarrow> u8 list" where
  "partid_bytes p = bytes_of_u32 (part_id p) @ concat (map bytes_of_u32 (serial_no p))"

text \<open>\<open>p\<close> is what the caller's structure held; a short reply overwrites its beginning.\<close>

definition airspyhf_board_partid_serialno_read ::
  "env \<Rightarrow> airspyhf_read_partid_serialno_t \<Rightarrow> trace \<Rightarrow>
   int \<times> airspyhf_read_partid_serialno_t \<times> trace" where
  "airspyhf_board_partid_serialno_read E p w =
     (let (result, bs, w) = libusb_control_in E AIRSPYHF_GET_SERIALNO_BOARDID 0 0 20 w;
          p = partid_of_bytes (blit bs (partid_bytes p))
      in (if result < 20 then AIRSPYHF_ERROR else AIRSPYHF_SUCCESS, p, w))"

text \<open>
  The tail \<open>airspyhf_version_string_read\<close> and \<open>airspyhf_get_bias_tee_name\<close> have in common:
  the bytes written to the caller's string, from a local array of \<open>MAX_NAME_STRING_SIZE\<close>.
\<close>

definition copy_string :: "u8 list \<Rightarrow> int \<Rightarrow> u8 \<Rightarrow> (int \<times> u8 list) option" where
  "copy_string local_string result len =
     (if result < 0 then Some (AIRSPYHF_ERROR, [])
      else if 0 < len then
        (if unat len - 1 \<le> length local_string
         then Some (AIRSPYHF_SUCCESS, take (unat len - 1) local_string @ [0])
         else None)
      else Some (AIRSPYHF_ERROR, []))"

definition airspyhf_version_string_read ::
  "env \<Rightarrow> u8 \<Rightarrow> trace \<Rightarrow> (int \<times> u8 list \<times> trace) option" where
  "airspyhf_version_string_read E len w = do {
     let version_local = junk_bytes E MAX_VERSION_STRING_SIZE w;
     let (result, bs, w) = libusb_control_in E AIRSPYHF_GET_VERSION_STRING 0 0 (MAX_VERSION_STRING_SIZE - 1) w;
     (r, s) \<leftarrow> copy_string (blit bs version_local) result len;
     Some (r, s, w)
   }"

section \<open>Attenuators and bias tee\<close>

text \<open>What \<open>airspyhf_get_att_steps\<close> writes to its untyped buffer.\<close>

datatype att_output = Att_Count u32 | Att_Steps "cflt list" | Att_Nothing

definition airspyhf_get_att_steps :: "airspyhf_device \<Rightarrow> u32 \<Rightarrow> (int \<times> att_output) option" where
  "airspyhf_get_att_steps d len =
     (if len = 0 then Some (AIRSPYHF_SUCCESS, Att_Count (supported_att_step_count d))
      else if len \<le> supported_att_step_count d then
        (if unat len \<le> length (supported_att_steps d)
         then Some (AIRSPYHF_SUCCESS, Att_Steps (take (unat len) (supported_att_steps d)))
         else None)
      else Some (AIRSPYHF_ERROR, Att_Nothing))"

text \<open>The loop of \<open>airspyhf_set_att\<close>: the first step that is at least \<open>att\<close>, else index 0.\<close>

fun find_att :: "cflt list \<Rightarrow> cflt \<Rightarrow> nat list \<Rightarrow> u16 option" where
  "find_att steps att [] = Some 0"
| "find_att steps att (i # is) =
     rd steps i \<bind> (\<lambda>x. if flt_le att x then Some (of_nat i) else find_att steps att is)"

definition airspyhf_set_att ::
  "env \<Rightarrow> cflt \<Rightarrow> airspyhf_device \<Rightarrow> trace \<Rightarrow> (int \<times> trace) option" where
  "airspyhf_set_att E att d w = do {
     att_index \<leftarrow> find_att (supported_att_steps d) att [0..<unat (supported_att_step_count d)];
     let (result, w) = libusb_control_out E AIRSPYHF_SET_ATT att_index 0 [] w;
     Some (if result < 0 then AIRSPYHF_ERROR else AIRSPYHF_SUCCESS, w)
   }"

definition airspyhf_set_bias_tee :: "env \<Rightarrow> u8 \<Rightarrow> trace \<Rightarrow> int \<times> trace" where
  "airspyhf_set_bias_tee E value w =
     (let (result, w) = libusb_control_out E AIRSPYHF_SET_BIAS_TEE (scast value) 0 [] w
      in (if result < 0 then AIRSPYHF_ERROR else AIRSPYHF_SUCCESS, w))"

definition airspyhf_get_bias_tee_count :: "env \<Rightarrow> u32 \<Rightarrow> trace \<Rightarrow> int \<times> u32 \<times> trace" where
  "airspyhf_get_bias_tee_count E value w =
     (let (result, bs, w) = libusb_control_in E AIRSPYHF_GET_BIAS_TEE_COUNT 0 0 4 w
      in if result < 4 then (AIRSPYHF_ERROR, 0, w)
         else (AIRSPYHF_SUCCESS, u32_of_bytes (blit bs (bytes_of_u32 value)), w))"

definition airspyhf_get_bias_tee_name ::
  "env \<Rightarrow> u32 \<Rightarrow> u8 \<Rightarrow> trace \<Rightarrow> (int \<times> u8 list \<times> trace) option" where
  "airspyhf_get_bias_tee_name E index len w = do {
     let name_local = junk_bytes E MAX_NAME_STRING_SIZE w;
     let (result, bs, w) = libusb_control_in E AIRSPYHF_GET_BIAS_TEE_NAME 0 (to_u16 index) (MAX_NAME_STRING_SIZE - 1) w;
     (r, s) \<leftarrow> copy_string (blit bs name_local) result len;
     Some (r, s, w)
   }"

section \<open>The simple vendor commands\<close>

definition airspyhf_set_hf_att :: "env \<Rightarrow> u8 \<Rightarrow> trace \<Rightarrow> int \<times> trace" where
  "airspyhf_set_hf_att E att_index w =
     (let (result, w) = libusb_control_out E AIRSPYHF_SET_ATT (ucast att_index) 0 [] w
      in (if result < 0 then AIRSPYHF_ERROR else AIRSPYHF_SUCCESS, w))"

definition airspyhf_set_hf_lna :: "env \<Rightarrow> u8 \<Rightarrow> trace \<Rightarrow> int \<times> trace" where
  "airspyhf_set_hf_lna E flag w =
     (let (result, w) = libusb_control_out E AIRSPYHF_SET_LNA (ucast flag) 0 [] w
      in (if result < 0 then AIRSPYHF_ERROR else AIRSPYHF_SUCCESS, w))"

definition airspyhf_set_user_output ::
  "env \<Rightarrow> airspyhf_user_output_t \<Rightarrow> airspyhf_user_output_state_t \<Rightarrow> trace \<Rightarrow> int \<times> trace" where
  "airspyhf_set_user_output E pin value w =
     (let (result, w) = libusb_control_out E AIRSPYHF_SET_USER_OUTPUT
                          (user_output_code pin) (user_output_state_code value) [] w
      in (if result < 0 then AIRSPYHF_ERROR else AIRSPYHF_SUCCESS, w))"

definition airspyhf_set_hf_agc :: "env \<Rightarrow> u8 \<Rightarrow> trace \<Rightarrow> int \<times> trace" where
  "airspyhf_set_hf_agc E flag w =
     (let (result, w) = libusb_control_out E AIRSPYHF_SET_AGC (ucast flag) 0 [] w
      in (if result < 0 then AIRSPYHF_ERROR else AIRSPYHF_SUCCESS, w))"

definition airspyhf_set_hf_agc_threshold :: "env \<Rightarrow> u8 \<Rightarrow> trace \<Rightarrow> int \<times> trace" where
  "airspyhf_set_hf_agc_threshold E flag w =
     (let (result, w) = libusb_control_out E AIRSPYHF_SET_AGC_THRESHOLD (ucast flag) 0 [] w
      in (if result < 0 then AIRSPYHF_ERROR else AIRSPYHF_SUCCESS, w))"

end
