(* ===== verification/C_Strings.thy ===== *)
theory C_Strings
  imports Prelude
begin

text \<open>
  The string functions of the C library the sources call, on byte strings: \<open>strtoull\<close> and
  \<open>strtoul\<close> with the rules of the C standard (white space, sign, base prefix, saturation on
  overflow, negation modulo the width). A string is the list of its bytes up to the
  terminator, or with the terminator and whatever follows it.
\<close>

definition is_space :: "u8 \<Rightarrow> bool" where
  "is_space c \<longleftrightarrow> c = 32 \<or> 9 \<le> c \<and> c \<le> 13"

text \<open>The value of a digit in the largest base, 36 for other characters.\<close>

definition digit_value :: "u8 \<Rightarrow> nat" where
  "digit_value c =
     (if 48 \<le> c \<and> c \<le> 57 then unat c - 48
      else if 97 \<le> c \<and> c \<le> 122 then unat c - 87
      else if 65 \<le> c \<and> c \<le> 90 then unat c - 55
      else 36)"

definition digits :: "nat \<Rightarrow> u8 list \<Rightarrow> u8 list" where
  "digits base s = takeWhile (\<lambda>c. digit_value c < base) s"

definition digits_value :: "nat \<Rightarrow> u8 list \<Rightarrow> nat" where
  "digits_value base ds = foldl (\<lambda>v c. v * base + digit_value c) 0 ds"

text \<open>\<open>0x\<close> is a prefix only when a hexadecimal digit follows.\<close>

definition hex_prefix :: "u8 list \<Rightarrow> bool" where
  "hex_prefix s \<longleftrightarrow> (case s of (a # x # d # _) \<Rightarrow> a = 48 \<and> (x = 120 \<or> x = 88) \<and> digit_value d < 16 | _ \<Rightarrow> False)"

text \<open>Base 0 is decided by the prefix.\<close>

definition strip_prefix :: "nat \<Rightarrow> u8 list \<Rightarrow> nat \<times> u8 list" where
  "strip_prefix base s =
     (if (base = 16 \<or> base = 0) \<and> hex_prefix s then (16, drop 2 s)
      else if base = 0 then (if s \<noteq> [] \<and> hd s = 48 then (8, s) else (10, s))
      else (base, s))"

text \<open>The converted value (an \<open>unsigned long long\<close>) and the unconverted rest.\<close>

definition strtoull :: "nat \<Rightarrow> u8 list \<Rightarrow> u64 \<times> u8 list" where
  "strtoull base s =
     (let t = dropWhile is_space s;
          (negative, t) = (case t of [] \<Rightarrow> (False, t)
             | c # r \<Rightarrow> if c = 45 then (True, r) else if c = 43 then (False, r) else (False, t));
          (base, t) = strip_prefix base t;
          ds = digits base t;
          v = digits_value base ds
      in if ds = [] then (0, s)
         else if 2 ^ 64 \<le> v then (- 1, drop (length ds) t)
         else (if negative then - of_nat v else of_nat v, drop (length ds) t))"

section \<open>Hexadecimal numbers\<close>

text \<open>The digits of a number as the firmware prints it: sixteen, upper case.\<close>

definition hex_char :: "nat \<Rightarrow> u8" where
  "hex_char n = of_nat (if n < 10 then 48 + n else 55 + n)"

fun hex_digits :: "nat \<Rightarrow> nat \<Rightarrow> u8 list" where
  "hex_digits 0 v = []"
| "hex_digits (Suc k) v = hex_digits k (v div 16) @ [hex_char (v mod 16)]"

lemma digit_value_hex_char: "n < 16 \<Longrightarrow> digit_value (hex_char n) = n"
proof -
  have "\<forall>n \<in> set [0..<16]. digit_value (hex_char n) = n"
    by (simp add: upt_rec hex_char_def digit_value_def word_le_nat_alt)
  then show "n < 16 \<Longrightarrow> digit_value (hex_char n) = n" by simp
qed

lemma hex_digits_value: "v < 16 ^ k \<Longrightarrow> digits_value 16 (hex_digits k v) = v"
proof (induction k arbitrary: v)
  case 0
  then show ?case by (simp add: digits_value_def)
next
  case (Suc k)
  then have "digits_value 16 (hex_digits k (v div 16)) = v div 16"
    by (simp add: less_mult_imp_div_less mult.commute)
  then show ?case
    by (simp add: digits_value_def digit_value_hex_char)
qed

lemma hex_digits_are_digits: "c \<in> set (hex_digits k v) \<Longrightarrow> digit_value c < 16"
  by (induction k arbitrary: v) (auto simp: digit_value_hex_char)

lemma length_hex_digits [simp]: "length (hex_digits k v) = k"
  by (induction k arbitrary: v) simp_all

text \<open>Neither white space, nor a sign, nor a prefix can be mistaken for hexadecimal digits.\<close>

lemma digit_not_space:
  assumes "digit_value c < 16"
  shows "\<not> is_space c \<and> c \<noteq> 45 \<and> c \<noteq> 43 \<and> c \<noteq> 120 \<and> c \<noteq> 88"
proof -
  have "48 \<le> unat c"
    using assms by (simp add: digit_value_def word_le_nat_alt split: if_splits)
  moreover have "unat (45 :: u8) = 45" "unat (43 :: u8) = 43" "unat (32 :: u8) = 32" "unat (13 :: u8) = 13"
    by simp_all
  ultimately have "c \<noteq> 45" "c \<noteq> 43" "c \<noteq> 32" "\<not> c \<le> 13"
    unfolding word_le_nat_alt by force+
  then have "\<not> is_space c" by (simp add: is_space_def)
  with \<open>c \<noteq> 45\<close> \<open>c \<noteq> 43\<close> have "\<not> is_space c \<and> c \<noteq> 45 \<and> c \<noteq> 43" by simp
  moreover have "digit_value 120 = 33" "digit_value 88 = 33"
    by (simp_all add: digit_value_def word_le_nat_alt)
  ultimately show ?thesis using assms by auto
qed

lemma digits_terminated:
  assumes "\<And>c. c \<in> set ds \<Longrightarrow> digit_value c < base" and "base \<le> 36"
  shows "digits base (ds @ 0 # r) = ds"
  using assms by (simp add: digits_def digit_value_def takeWhile_append2)

lemma strtoull_hex_digits:
  assumes "v < 2 ^ 64"
  shows "strtoull 16 (hex_digits 16 v @ 0 # r) = (of_nat v, 0 # r)"
proof -
  let ?ds = "hex_digits 16 v"
  have "length ?ds = Suc (Suc 14)" by simp
  then obtain a b t where ds: "?ds = a # b # t" unfolding length_Suc_conv by blast
  have d: "\<And>c. c \<in> set ?ds \<Longrightarrow> digit_value c < 16" by (rule hex_digits_are_digits)
  then have "\<not> is_space a" "a \<noteq> 45" "a \<noteq> 43" "b \<noteq> 120" "b \<noteq> 88"
    using digit_not_space [of a] digit_not_space [of b] by (auto simp: ds)
  then have "dropWhile is_space (?ds @ 0 # r) = ?ds @ 0 # r" "strip_prefix 16 (?ds @ 0 # r) = (16, ?ds @ 0 # r)"
    by (auto simp: ds strip_prefix_def hex_prefix_def split: list.splits)
  moreover have "digits 16 (?ds @ 0 # r) = ?ds" using d by (intro digits_terminated) simp_all
  moreover have "digits_value 16 ?ds = v" using assms by (intro hex_digits_value) simp
  ultimately show ?thesis
    using assms \<open>a \<noteq> 45\<close> \<open>a \<noteq> 43\<close> by (simp add: strtoull_def Let_def ds)
qed

end
