(* ===== verification/Open_Close.thy ===== *)
theory Open_Close
  imports Control C_Strings
begin

text \<open>
  Finding, opening and closing devices in \<open>airspyhf.c\<close>: \<open>airspyhf_open_device\<close>,
  \<open>airspyhf_list_devices\<close>, the tables read from the firmware, \<open>airspyhf_open_init\<close> and its
  callers, and \<open>airspyhf_close\<close>.
\<close>

section \<open>Serial numbers\<close>

definition airspyhf_usb_vid :: u16 where "airspyhf_usb_vid = 0x03EB"
definition airspyhf_usb_pid :: u16 where "airspyhf_usb_pid = 0x800C"
definition STR_PREFIX_SERIAL_AIRSPYHF_SIZE :: nat where "STR_PREFIX_SERIAL_AIRSPYHF_SIZE = 12"

text \<open>The string \<open>AIRSPYHF SN:\<close>.\<close>

definition str_prefix_serial_airspyhf :: "u8 list" where
  "str_prefix_serial_airspyhf = [65, 73, 82, 83, 80, 89, 72, 70, 32, 83, 78, 58]"

lemma length_serial_prefix [simp]:
  "length str_prefix_serial_airspyhf = STR_PREFIX_SERIAL_AIRSPYHF_SIZE"
  by (simp add: str_prefix_serial_airspyhf_def STR_PREFIX_SERIAL_AIRSPYHF_SIZE_def)

text \<open>
  The serial number in a string descriptor of \<open>n\<close> bytes: present when the length and the
  prefix are right. The number is followed by a zero byte the driver writes.
\<close>

definition serial_text :: "int \<Rightarrow> u8 list \<Rightarrow> u8 list option" where
  "serial_text n s =
     (if n = int AIRSPYHF_SERIAL_SIZE \<and> take STR_PREFIX_SERIAL_AIRSPYHF_SIZE s = str_prefix_serial_airspyhf
      then Some (drop STR_PREFIX_SERIAL_AIRSPYHF_SIZE (s[AIRSPYHF_SERIAL_SIZE := 0])) else None)"

definition airspy_match :: "u16 \<Rightarrow> u16 \<Rightarrow> usb_dev \<Rightarrow> bool" where
  "airspy_match vid pid dv \<longleftrightarrow> idVendor dv = vid \<and> idProduct dv = pid"

section \<open>Opening a device of the bus\<close>

text \<open>Configuration, interface and setting of an open handle; a failure closes it again.\<close>

definition setup_handle :: "env \<Rightarrow> ptr \<Rightarrow> trace \<Rightarrow> bool \<times> trace" where
  "setup_handle E h w =
     (let (r, w) = call E (SetConfiguration h) w in
      if r \<noteq> 0 then (False, w @ [CloseDevice h])
      else let (r, w) = call E (ClaimInterface h) w in
           if r \<noteq> 0 then (False, w @ [CloseDevice h])
           else let (r, w) = call E (SetAltSetting h) w in
                if r \<noteq> 0 then (False, w @ [CloseDevice h]) else (True, w))"

text \<open>One device of the list: the handle to keep, or null to go on.\<close>

definition try_device ::
  "env \<Rightarrow> u16 \<Rightarrow> u16 \<Rightarrow> u64 \<Rightarrow> nat \<Rightarrow> usb_dev \<Rightarrow> trace \<Rightarrow> ptr \<times> trace" where
  "try_device E vid pid sn i dv w =
     (if \<not> airspy_match vid pid dv then (NULL, w)
      else if sn \<noteq> SERIAL_NUMBER_UNUSED then
        (if 0 < iSerialNumber dv then
           let (r, h, w) = libusb_open E i w in
           if r \<noteq> 0 then (NULL, w)
           else let (n, s, w) = libusb_get_string_descriptor_ascii E h (iSerialNumber dv) (AIRSPYHF_SERIAL_SIZE + 1) w
                in case serial_text n s of
                     None \<Rightarrow> (NULL, w @ [CloseDevice h])
                   | Some t \<Rightarrow>
                       if fst (strtoull 16 t) = sn
                       then let (ok, w) = setup_handle E h w in (if ok then h else NULL, w)
                       else (NULL, w @ [CloseDevice h])
         else (NULL, w))
      else let (r, h, w) = libusb_open E i w in
           if r = 0 then let (ok, w) = setup_handle E h w in (if ok then h else NULL, w)
           else (NULL, w))"

fun open_loop ::
  "env \<Rightarrow> u16 \<Rightarrow> u16 \<Rightarrow> u64 \<Rightarrow> nat \<Rightarrow> usb_dev list \<Rightarrow> trace \<Rightarrow> ptr \<times> trace" where
  "open_loop E vid pid sn i [] w = (NULL, w)"
| "open_loop E vid pid sn i (dv # ds) w =
     (let (h, w) = try_device E vid pid sn i dv w
      in if h \<noteq> NULL then (h, w) else open_loop E vid pid sn (Suc i) ds w)"

definition airspyhf_open_device ::
  "env \<Rightarrow> u16 \<Rightarrow> u16 \<Rightarrow> u64 \<Rightarrow> airspyhf_device \<Rightarrow> trace \<Rightarrow> int \<times> airspyhf_device \<times> trace" where
  "airspyhf_open_device E vid pid sn d w =
     (let d = d\<lparr>usb_device := NULL\<rparr>;
          (cnt, devices, l, w) = libusb_get_device_list E w
      in if cnt < 0 then (AIRSPYHF_ERROR, d, w)
         else let (h, w) = open_loop E vid pid sn 0 devices w
              in (if h = NULL then AIRSPYHF_ERROR else AIRSPYHF_SUCCESS,
                  d\<lparr>usb_device := h\<rparr>, w @ [FreeDeviceList l]))"

text \<open>Outside Android, opening by file descriptor is not supported.\<close>

definition airspyhf_open_device_fd :: "airspyhf_device \<Rightarrow> int \<times> airspyhf_device" where
  "airspyhf_open_device_fd d = (AIRSPYHF_UNSUPPORTED, d\<lparr>usb_device := NULL\<rparr>)"

section \<open>Listing devices\<close>

text \<open>The serial number of one device of the list, when it has a readable one.\<close>

definition list_device :: "env \<Rightarrow> nat \<Rightarrow> usb_dev \<Rightarrow> trace \<Rightarrow> u64 option \<times> trace" where
  "list_device E i dv w =
     (if airspy_match airspyhf_usb_vid airspyhf_usb_pid dv \<and> 0 < iSerialNumber dv then
        let (r, h, w) = libusb_open E i w in
        if r \<noteq> 0 then (None, w)
        else let (n, s, w) = libusb_get_string_descriptor_ascii E h (iSerialNumber dv) (AIRSPYHF_SERIAL_SIZE + 1) w
             in (case serial_text n s of
                   None \<Rightarrow> None
                 | Some t \<Rightarrow> let (serial, rest) = strtoull 16 t
                             in if serial = 0 \<and> rest = t then None else Some serial,
                 w @ [CloseDevice h])
      else (None, w))"

text \<open>
  The loop; \<open>limit\<close> is \<open>count\<close> when the caller gave an array, and nothing when it asked for
  the number of devices. The result is the list of serial numbers found.
\<close>

fun list_loop ::
  "env \<Rightarrow> int option \<Rightarrow> nat \<Rightarrow> usb_dev list \<Rightarrow> u64 list \<Rightarrow> trace \<Rightarrow> u64 list \<times> trace" where
  "list_loop E limit i [] out w = (out, w)"
| "list_loop E limit i (dv # ds) out w =
     (if (case limit of None \<Rightarrow> True | Some c \<Rightarrow> int (length out) < c) then
        let (s, w) = list_device E i dv w
        in list_loop E limit (Suc i) ds (case s of None \<Rightarrow> out | Some x \<Rightarrow> out @ [x]) w
      else (out, w))"

text \<open>
  \<open>airspyhf_list_devices(serials, count)\<close>: the result, what is in the array of \<open>count\<close>
  entries afterwards, the trace. A negative \<open>count\<close> with an array makes the \<open>memset\<close> huge.
\<close>

definition airspyhf_list_devices ::
  "env \<Rightarrow> int option \<Rightarrow> trace \<Rightarrow> (int \<times> u64 list \<times> trace) option" where
  "airspyhf_list_devices E max_count w = do {
     serials \<leftarrow> (case max_count of None \<Rightarrow> Some []
                 | Some c \<Rightarrow> if c < 0 then None else Some (replicate (nat c) 0));
     let (r, context, w) = libusb_init E w;
     if r \<noteq> 0 then Some (AIRSPYHF_ERROR, serials, w)
     else do {
       let (cnt, devices, l, w) = libusb_get_device_list E w;
       if cnt < 0 then Some (AIRSPYHF_ERROR, serials, w)
       else do {
         let (out, w) = list_loop E max_count 0 devices [] w;
         Some (int (length out), (if max_count = None then [] else blit out serials),
               w @ [FreeDeviceList l, LibExit context])
       }
     }
   }"

section \<open>Tables of the firmware\<close>

text \<open>
  A vendor IN request into the memory \<open>area\<close> that \<open>p\<close> points to: more bytes than the area
  holds, or any through a null pointer, are written out of bounds.
\<close>

definition fw_read ::
  "env \<Rightarrow> airspyhf_vendor_request \<Rightarrow> u32 \<Rightarrow> u16 \<Rightarrow> ptr \<Rightarrow> u8 list \<Rightarrow> trace \<Rightarrow>
   (int \<times> u8 list \<times> trace) option" where
  "fw_read E req len n p area w =
     (let (result, bs, w) = libusb_control_in E req 0 (to_u16 len) (unat n) w
      in if bs \<noteq> [] \<and> (p = NULL \<or> length area < length bs) then None
         else Some (if result < 1 then AIRSPYHF_ERROR else AIRSPYHF_SUCCESS, blit bs area, w))"

text \<open>All three readers ask for four bytes an entry, and for one entry to get the count.\<close>

definition fw_length :: "u32 \<Rightarrow> u16" where
  "fw_length len = to_u16 ((if 0 < len then len else 1) * 4)"

definition airspyhf_read_samplerates_from_fw ::
  "env \<Rightarrow> ptr \<Rightarrow> u8 list \<Rightarrow> u32 \<Rightarrow> trace \<Rightarrow> (int \<times> u8 list \<times> trace) option" where
  "airspyhf_read_samplerates_from_fw E p area len w =
     fw_read E AIRSPYHF_GET_SAMPLERATES len (fw_length len) p area w"

definition airspyhf_read_att_steps_from_fw ::
  "env \<Rightarrow> ptr \<Rightarrow> u8 list \<Rightarrow> u32 \<Rightarrow> trace \<Rightarrow> (int \<times> u8 list \<times> trace) option" where
  "airspyhf_read_att_steps_from_fw E p area len w =
     fw_read E AIRSPYHF_GET_ATT_STEPS len (fw_length len) p area w"

definition airspyhf_read_samplerate_architectures_from_fw ::
  "env \<Rightarrow> ptr \<Rightarrow> u8 list \<Rightarrow> u32 \<Rightarrow> trace \<Rightarrow> (int \<times> u8 list \<times> trace) option" where
  "airspyhf_read_samplerate_architectures_from_fw E p area len w =
     fw_read E AIRSPYHF_GET_SAMPLERATE_ARCHITECTURES len (fw_length len) p area w"

text \<open>The 32-bit values in \<open>n\<close> groups of four bytes.\<close>

definition u32s_of_bytes :: "nat \<Rightarrow> u8 list \<Rightarrow> u32 list" where
  "u32s_of_bytes n bs = map (\<lambda>i. u32_of_bytes (drop (4 * i) bs)) [0..<n]"

text \<open>An allocation of \<open>n\<close> bytes and its indeterminate contents; nothing behind a null pointer.\<close>

definition malloc_bytes :: "env \<Rightarrow> nat \<Rightarrow> trace \<Rightarrow> ptr \<times> u8 list \<times> trace" where
  "malloc_bytes E n w =
     (let (p, w) = malloc E n w in (p, if p = NULL then [] else junk_bytes E n w, w))"

text \<open>\<open>malloc(count * sizeof(\<dots>))\<close> is computed in the 64-bit \<open>size_t\<close>.\<close>

definition set_rates :: "ptr \<Rightarrow> u8 list \<Rightarrow> airspyhf_device \<Rightarrow> airspyhf_device" where
  "set_rates p area d = d\<lparr>supported_samplerates_ptr := p,
     supported_samplerates := (if p = NULL then [] else u32s_of_bytes (length area div 4) area)\<rparr>"

text \<open>The architectures after the rates: an error means zero IF for all.\<close>

definition read_architectures :: "env \<Rightarrow> airspyhf_device \<Rightarrow> trace \<Rightarrow> (airspyhf_device \<times> trace) option" where
  "read_architectures E d w = do {
     let cnt = supported_samplerate_count d;
     let (p, area, w) = malloc_bytes E (unat cnt) w;
     (result, area, w) \<leftarrow> airspyhf_read_samplerate_architectures_from_fw E p area cnt w;
     if result \<noteq> AIRSPYHF_SUCCESS
     then (if p = NULL then None
           else Some (d\<lparr>samplerate_architectures_ptr := p, samplerate_architectures := replicate (unat cnt) 0\<rparr>, w))
     else Some (d\<lparr>samplerate_architectures_ptr := p, samplerate_architectures := area\<rparr>, w)
   }"

text \<open>The fallback of one zero-IF rate.\<close>

definition default_rates :: "env \<Rightarrow> airspyhf_device \<Rightarrow> trace \<Rightarrow> (airspyhf_device \<times> trace) option" where
  "default_rates E d w =
     (let (p, w) = malloc E 4 w; (q, w') = malloc E 1 w
      in if p = NULL \<or> q = NULL then None
         else Some (d\<lparr>supported_samplerate_count := 1, supported_samplerates := [DEFAULT_SAMPLERATE],
                      supported_samplerates_ptr := p, samplerate_architectures := [0],
                      samplerate_architectures_ptr := q\<rparr>, w'))"

text \<open>\<open>lib\<close> is the address of the device structure, which holds the count.\<close>

definition read_samplerates :: "env \<Rightarrow> ptr \<Rightarrow> airspyhf_device \<Rightarrow> trace \<Rightarrow> (airspyhf_device \<times> trace) option" where
  "read_samplerates E lib d w = do {
     (result, area, w) \<leftarrow> airspyhf_read_samplerates_from_fw E lib
                             (bytes_of_u32 (supported_samplerate_count d)) 0 w;
     let d = d\<lparr>supported_samplerate_count := u32_of_bytes area\<rparr>;
     (d, w) \<leftarrow>
       (if result = AIRSPYHF_SUCCESS then do {
          let cnt = supported_samplerate_count d;
          let (p, area, w) = malloc_bytes E (unat cnt * 4) w;
          (result, area, w) \<leftarrow> airspyhf_read_samplerates_from_fw E p area cnt w;
          if result = AIRSPYHF_SUCCESS then read_architectures E (set_rates p area d) w
          else default_rates E d (w @ [Free p])
        } else default_rates E d w);
     rate \<leftarrow> rd (supported_samplerates d) 0;
     arch \<leftarrow> rd (samplerate_architectures d) 0;
     Some (d\<lparr>current_samplerate := rate, is_low_if := arch\<rparr>, w)
   }"

definition default_att_steps :: "env \<Rightarrow> airspyhf_device \<Rightarrow> trace \<Rightarrow> (airspyhf_device \<times> trace) option" where
  "default_att_steps E d w =
     (let (p, w) = malloc E (DEFAULT_ATT_STEP_COUNT * 4) w
      in if p = NULL then None
         else Some (d\<lparr>supported_att_step_count := of_nat DEFAULT_ATT_STEP_COUNT, supported_att_steps_ptr := p,
                      supported_att_steps :=
                        map (\<lambda>i. mul32 (int32f (int i)) DEFAULT_ATT_STEP_INCREMENT) [0..<DEFAULT_ATT_STEP_COUNT]\<rparr>, w))"

definition read_att_steps :: "env \<Rightarrow> ptr \<Rightarrow> airspyhf_device \<Rightarrow> trace \<Rightarrow> (airspyhf_device \<times> trace) option" where
  "read_att_steps E lib d w = do {
     (result, area, w) \<leftarrow> airspyhf_read_att_steps_from_fw E lib
                             (bytes_of_u32 (supported_att_step_count d)) 0 w;
     let d = d\<lparr>supported_att_step_count := u32_of_bytes area\<rparr>;
     if result = AIRSPYHF_SUCCESS then do {
       let cnt = supported_att_step_count d;
       let (p, area, w) = malloc_bytes E (unat cnt * 4) w;
       (result, area, w) \<leftarrow> airspyhf_read_att_steps_from_fw E p area cnt w;
       if result = AIRSPYHF_SUCCESS
       then Some (d\<lparr>supported_att_steps_ptr := p,
                    supported_att_steps := map f32_of_bits (if p = NULL then [] else u32s_of_bytes (length area div 4) area)\<rparr>, w)
       else default_att_steps E d (w @ [Free p])
     } else default_att_steps E d w
   }"

section \<open>\<open>airspyhf_open_init\<close>\<close>

text \<open>The calibration stored in flash, applied when it carries the magic number.\<close>

definition read_calibration :: "env \<Rightarrow> airspyhf_device \<Rightarrow> trace \<Rightarrow> airspyhf_device \<times> trace" where
  "read_calibration E d w =
     (let (result, buffer, w) = airspyhf_config_read E 16 w;
          config = flash_config_of_bytes buffer
      in if result = AIRSPYHF_SUCCESS \<and> magic_number config = CALIBRATION_MAGIC then
           let d = d\<lparr>calibration_ppb := flash_calibration_ppb config\<rparr>;
               (r, d, w) = airspyhf_set_vctcxo_calibration E (to_u16 (flash_calibration_vctcxo config)) d w;
               (r, d, w) = airspyhf_set_frontend_options E (flash_frontend_options config) d w
           in (d, w)
         else (d\<lparr>calibration_ppb := 0, calibration_vctcxo := 0, frontend_options := 0\<rparr>, w))"

definition open_fields :: "airspyhf_device \<Rightarrow> airspyhf_device" where
  "open_fields d =
     d\<lparr>transfers := None, transfers_ptr := NULL, callback := NULL, transfer_count := 16,
       buffer_size := SAMPLES_TO_TRANSFER * sizeof_complex_int16, streaming := False, stop_requested := False,
       supported_samplerates := [], supported_samplerates_ptr := NULL,
       samplerate_architectures := [], samplerate_architectures_ptr := NULL\<rparr>"

definition tuning_fields :: "airspyhf_device \<Rightarrow> airspyhf_device" where
  "tuning_fields d =
     d\<lparr>freq_hz := Zero False, freq_khz := 0, freq_delta_hz := Zero False, freq_shift := Zero False,
       vec := \<lparr>re = f32 1, im = Zero False\<rparr>, optimal_point := Zero False, filter_gain := f32 1, enable_dsp := 1\<rparr>"

definition airspyhf_open_exit :: "airspyhf_device \<Rightarrow> trace \<Rightarrow> airspyhf_device \<times> trace" where
  "airspyhf_open_exit d w =
     (let (d, w) = (if usb_device d \<noteq> NULL
                    then (d\<lparr>usb_device := NULL\<rparr>, w @ [ReleaseInterface (usb_device d), CloseDevice (usb_device d)])
                    else (d, w))
      in (d\<lparr>usb_context := NULL\<rparr>, w @ [LibExit (usb_context d)]))"

text \<open>The result, the device with its address on success, the static tables, the trace.\<close>

definition airspyhf_open_init ::
  "libm \<Rightarrow> iq_junk \<Rightarrow> env \<Rightarrow> u64 \<Rightarrow> int \<Rightarrow> iq_lib \<Rightarrow> trace \<Rightarrow>
   (int \<times> (ptr \<times> airspyhf_device) option \<times> iq_lib \<times> trace) option" where
  "airspyhf_open_init M J E serial_number fd L w = do {
     let (lib, w) = malloc E (device_struct_size E) w;
     if lib = NULL then Some (AIRSPYHF_ERROR, None, L, w)
     else do {
       let (libusb_error, context, w) = libusb_init E w;
       let d = zero_device\<lparr>usb_context := context\<rparr>;
       if libusb_error \<noteq> 0 then Some (AIRSPYHF_ERROR, None, L, w @ [Free lib])
       else do {
         let (result, d, w) =
           (if fd = FILE_DESCRIPTOR_UNUSED
            then airspyhf_open_device E airspyhf_usb_vid airspyhf_usb_pid serial_number d w
            else let (result, d) = airspyhf_open_device_fd d in (result, d, w));
         if usb_device d = NULL then Some (result, None, L, w @ [LibExit (usb_context d), Free lib])
         else do {
           (d, w) \<leftarrow> read_samplerates E lib (open_fields d) w;
           (d, w) \<leftarrow> read_att_steps E lib d w;
           let (result, d, w) = allocate_transfers E d w;
           if result \<noteq> 0 then do {
             let (d, w) = airspyhf_open_exit d w;
             Some (AIRSPYHF_ERROR, None, L, w @ [Free lib])
           } else do {
             let (d, w) = read_calibration E (tuning_fields d) w;
             (q, b, L, w) \<leftarrow> iq_balancer_create M J E L INITIAL_PHASE INITIAL_AMPLITUDE w;
             Some (AIRSPYHF_SUCCESS, Some (lib, d\<lparr>iq_balancer := Some b, iq_balancer_ptrs := q\<rparr>), L, w)
           }
         }
       }
     }
   }"

definition airspyhf_open_sn where
  "airspyhf_open_sn M J E serial_number L w =
     airspyhf_open_init M J E serial_number FILE_DESCRIPTOR_UNUSED L w"

definition airspyhf_open_fd where
  "airspyhf_open_fd M J E fd L w = airspyhf_open_init M J E SERIAL_NUMBER_UNUSED fd L w"

definition airspyhf_open where
  "airspyhf_open M J E L w =
     airspyhf_open_init M J E SERIAL_NUMBER_UNUSED FILE_DESCRIPTOR_UNUSED L w"

section \<open>Closing\<close>

definition airspyhf_close ::
  "env \<Rightarrow> (ptr \<times> airspyhf_device) option \<Rightarrow> trace \<Rightarrow> (int \<times> trace) option" where
  "airspyhf_close E device w =
     (case device of
        None \<Rightarrow> Some (AIRSPYHF_SUCCESS, w)
      | Some (lib, d) \<Rightarrow> do {
          (result, d, w) \<leftarrow> airspyhf_stop E d w;
          let (d, w) = free_transfers d w;
          let (d, w) = airspyhf_open_exit d w;
          let w = free (supported_samplerates_ptr d) w;
          let w = free (samplerate_architectures_ptr d) w;
          let w = free (supported_att_steps_ptr d) w;
          let w = iq_balancer_destroy (iq_balancer_ptrs d) w;
          Some (result, free lib w)
        })"

end
