(* ===== verification/Tool_Text.thy ===== *)
theory Tool_Text
  imports C_Strings Airspyhf_Types
begin

text \<open>
  Numbers and their texts in \<open>src/tools/src/airspyhf_rx.c\<close>: the parsers of the command
  line \<open>parse_u64\<close> and \<open>parse_u32\<close>, and the printer \<open>u64toa\<close> with its in-place
  \<open>stringrev\<close>; and the integer conversions of \<open>sscanf\<close> the programs under \<open>src/tools/src\<close> use.
\<close>

section \<open>Parsing\<close>

definition strlen :: "u8 list \<Rightarrow> nat" where
  "strlen s = length (takeWhile (\<lambda>c. c \<noteq> 0) s)"

text \<open>\<open>*p == 0\<close>, where the list may or may not include the terminator.\<close>

definition at_end :: "u8 list \<Rightarrow> bool" where
  "at_end s \<longleftrightarrow> s = [] \<or> hd s = 0"

text \<open>A prefix \<open>0x\<close> or \<open>0b\<close> before at least one more character selects the base.\<close>

definition base_prefix :: "u8 list \<Rightarrow> nat \<times> u8 list" where
  "base_prefix s =
     (if 2 < strlen s \<and> s ! 0 = 48
      then (if s ! 1 = 120 \<or> s ! 1 = 88 then (16, drop 2 s)
            else if s ! 1 = 98 \<or> s ! 1 = 66 then (2, drop 2 s)
            else (10, s))
      else (10, s))"

text \<open>The status and the variable \<open>value\<close> points to.\<close>

definition parse_u64 :: "u8 list \<Rightarrow> u64 \<Rightarrow> int \<times> u64" where
  "parse_u64 s old =
     (let (base, s) = base_prefix s;
          (u64_value, s_end) = strtoull base s
      in if s \<noteq> s_end \<and> at_end s_end then (AIRSPYHF_SUCCESS, u64_value) else (AIRSPYHF_ERROR, old))"

text \<open>\<open>strtoul\<close> on a host with 64-bit \<open>unsigned long\<close>.\<close>

definition parse_u32 :: "u8 list \<Rightarrow> u32 \<Rightarrow> int \<times> u32" where
  "parse_u32 s old =
     (let (base, s) = base_prefix s;
          (ulong_value, s_end) = strtoull base s
      in if s \<noteq> s_end \<and> at_end s_end then (AIRSPYHF_SUCCESS, ucast ulong_value) else (AIRSPYHF_ERROR, old))"

section \<open>\<open>sscanf\<close>\<close>

text \<open>
  An integer conversion of \<open>sscanf\<close>: the number read, \<open>None\<close> for a matching failure. Unlike
  \<open>strtoull\<close> it does not fall back to the \<open>0\<close> of an incomplete prefix \<open>0x\<close>.
\<close>

definition scan_number :: "nat \<Rightarrow> u8 list \<Rightarrow> int option" where
  "scan_number base s =
     (let t = dropWhile is_space s;
          (negative, t) = (case t of [] \<Rightarrow> (False, t)
             | c # r \<Rightarrow> if c = 45 then (True, r) else if c = 43 then (False, r) else (False, t));
          prefixed = (base = 16 \<and> 1 < length t \<and> t ! 0 = 48 \<and> (t ! 1 = 120 \<or> t ! 1 = 88));
          ds = digits base (if prefixed then drop 2 t else t);
          v = int (digits_value base ds)
      in if ds = [] then None else Some (if negative then - v else v))"

text \<open>
  \<open>sscanf(s, "%d", &v)\<close>: the value stored, nothing when the conversion fails. A number
  that an \<open>int\<close> cannot represent is undefined behaviour.
\<close>

definition sscanf_d :: "u8 list \<Rightarrow> u32 option option" where
  "sscanf_d s =
     (case scan_number 10 s of
        None \<Rightarrow> Some None
      | Some v \<Rightarrow> if - (2 ^ 31) \<le> v \<and> v < 2 ^ 31 then Some (Some (word_of_int v)) else None)"

text \<open>\<open>sscanf(s, "0x%llx", &v)\<close>.\<close>

definition sscanf_0x_llx :: "u8 list \<Rightarrow> u64 option option" where
  "sscanf_0x_llx s =
     (if take 2 s = [48, 120] then
        (case scan_number 16 (drop 2 s) of
           None \<Rightarrow> Some None
         | Some v \<Rightarrow> if \<bar>v\<bar> < 2 ^ 64 then Some (Some (word_of_int v)) else None)
      else Some None)"

section \<open>Printing\<close>

definition U64TOA_MAX_DIGIT :: nat where "U64TOA_MAX_DIGIT = 31"

text \<open>The three exclusive ors of \<open>stringrev\<close>, one memory access after the other.\<close>

definition xor_swap :: "u8 list \<Rightarrow> nat \<Rightarrow> nat \<Rightarrow> u8 list option" where
  "xor_swap d p1 p2 = do {
     x \<leftarrow> rd d p1; y \<leftarrow> rd d p2; d \<leftarrow> wr d p1 (x XOR y);
     y \<leftarrow> rd d p2; x \<leftarrow> rd d p1; d \<leftarrow> wr d p2 (y XOR x);
     x \<leftarrow> rd d p1; y \<leftarrow> rd d p2; wr d p1 (x XOR y)
   }"

function stringrev_loop :: "nat \<Rightarrow> nat \<Rightarrow> u8 list \<Rightarrow> u8 list option" where
  "stringrev_loop p1 p2 d =
     (if p1 < p2 then xor_swap d p1 p2 \<bind> stringrev_loop (Suc p1) (p2 - 1) else Some d)"
  by pat_completeness auto

termination stringrev_loop
  by (relation "measure (\<lambda>(p1, p2, d). p2 - p1)") auto

declare stringrev_loop.simps [simp del]

text \<open>\<open>str\<close> is the memory the pointer points to; without a terminator \<open>strlen\<close> overruns it.\<close>

definition stringrev :: "u8 list \<Rightarrow> u8 list option" where
  "stringrev str =
     (if 0 \<notin> set str then None
      else if hd str = 0 then Some str
      else stringrev_loop 0 (strlen str - 1) str)"

text \<open>The loop that stores the digits from the last to the first.\<close>

function u64toa_loop :: "u64 \<Rightarrow> nat \<Rightarrow> u8 list \<Rightarrow> (u64 \<times> nat \<times> u8 list) option" where
  "u64toa_loop acc pos data =
     (case wr data pos (ucast (acc mod 10) + 48) of
        None \<Rightarrow> None
      | Some data \<Rightarrow>
          (if 0 < acc div 10 \<and> Suc pos < U64TOA_MAX_DIGIT
           then u64toa_loop (acc div 10) (Suc pos) data
           else Some (acc div 10, Suc pos, data)))"
  by pat_completeness auto

termination u64toa_loop
  by (relation "measure (\<lambda>(s, p, d). U64TOA_MAX_DIGIT - p)") auto

declare u64toa_loop.simps [simp del]

text \<open>The buffer afterwards, and whether the result is the buffer or null.\<close>

definition u64toa :: "u64 \<Rightarrow> u8 list \<Rightarrow> (u8 list \<times> bool) option" where
  "u64toa val data = do {
     (acc, pos, data) \<leftarrow> u64toa_loop val 0 data;
     if pos = U64TOA_MAX_DIGIT \<and> 0 < acc then Some (data, False)
     else do {
       data \<leftarrow> wr data pos 0;
       res \<leftarrow> stringrev data;
       Some (res, True)
     }
   }"

section \<open>Reversal by exclusive or\<close>

lemma xor_swap_eq:
  assumes "p1 < p2" and "p2 < length d"
  shows "xor_swap d p1 p2 = Some (d[p1 := d ! p2, p2 := d ! p1])"
proof -
  have x: "b XOR (a XOR b) = a" "(a XOR b) XOR a = b" for a b :: u8
    by (simp_all add: xor.left_commute xor.commute)
  have "xor_swap d p1 p2 = Some (d[p1 := d ! p1 XOR d ! p2, p2 := d ! p2 XOR (d ! p1 XOR d ! p2),
      p1 := (d ! p1 XOR d ! p2) XOR (d ! p2 XOR (d ! p1 XOR d ! p2))])"
    using assms by (simp add: xor_swap_def)
  also have "\<dots> = Some (d[p1 := d ! p2, p2 := d ! p1])"
    unfolding x using assms by (simp add: list_update_swap)
  finally show ?thesis .
qed

lemma stringrev_loop_eq:
  "length a + length m + length b = length d \<Longrightarrow> d = a @ m @ b \<Longrightarrow> m \<noteq> [] \<Longrightarrow>
   stringrev_loop (length a) (length a + length m - 1) d = Some (a @ rev m @ b)"
proof (induction "length m" arbitrary: a m b d rule: less_induct)
  case less
  show ?case
  proof (cases "length m \<le> 1")
    case True
    then have "rev m = m" using less.prems(3) by (cases m) auto
    with True less.prems show ?thesis by (subst stringrev_loop.simps) auto
  next
    case False
    then obtain x m1 where "m = x # m1" "m1 \<noteq> []" by (cases m) auto
    then obtain m2 y where m: "m = x # m2 @ [y]" by (cases m1 rule: rev_cases) auto
    have swap: "xor_swap d (length a) (length a + length m - 1) = Some (a @ y # m2 @ x # b)"
      using less.prems m by (subst xor_swap_eq) (auto simp: nth_append list_update_append)
    show ?thesis
    proof (cases "m2 = []")
      case True
      then show ?thesis
        using swap m by (subst stringrev_loop.simps) (simp add: stringrev_loop.simps)
    next
      case ne: False
      have "stringrev_loop (length (a @ [y])) (length (a @ [y]) + length m2 - 1) (a @ y # m2 @ x # b) =
            Some ((a @ [y]) @ rev m2 @ (x # b))"
        by (rule less.hyps) (use m ne in auto)
      then show ?thesis using swap m by (subst stringrev_loop.simps) simp
    qed
  qed
qed

lemma stringrev_eq:
  assumes "0 \<notin> set s"
  shows "stringrev (s @ 0 # r) = Some (rev s @ 0 # r)"
proof (cases "s = []")
  case False
  have "takeWhile (\<lambda>c. c \<noteq> 0) (s @ 0 # r) = s" using assms by (induction s) auto
  then have "strlen (s @ 0 # r) = length s" by (simp add: strlen_def)
  moreover have "hd (s @ 0 # r) \<noteq> 0" using False assms by (cases s) auto
  ultimately show ?thesis
    using stringrev_loop_eq [of "[]" s "0 # r" "s @ 0 # r"] False by (simp add: stringrev_def)
qed (simp add: stringrev_def)

section \<open>Decimal digits\<close>

text \<open>The digits of a number, the last first.\<close>

fun decimal_rev :: "nat \<Rightarrow> nat list" where
  "decimal_rev n = (n mod 10) # (if 10 \<le> n then decimal_rev (n div 10) else [])"

declare decimal_rev.simps [simp del]

definition digit_char :: "nat \<Rightarrow> u8" where
  "digit_char n = of_nat n + 48"

definition decimal_text :: "nat \<Rightarrow> u8 list" where
  "decimal_text n = rev (map digit_char (decimal_rev n))"

lemma decimal_rev_less: "d \<in> set (decimal_rev n) \<Longrightarrow> d < 10"
  by (induction n rule: decimal_rev.induct) (subst (asm) (2) decimal_rev.simps, auto split: if_splits)

lemma decimal_rev_length: "n < 10 ^ Suc k \<Longrightarrow> length (decimal_rev n) \<le> Suc k"
proof (induction k arbitrary: n)
  case 0
  then show ?case by (subst decimal_rev.simps) simp
next
  case (Suc k)
  then have "n div 10 < 10 ^ Suc k" by (simp add: less_mult_imp_div_less mult.commute)
  with Suc.IH show ?case by (subst decimal_rev.simps) simp
qed

lemma digit_value_digit_char: "n < 10 \<Longrightarrow> digit_value (digit_char n) = n"
proof -
  have "\<forall>n \<in> set [0..<10]. digit_value (digit_char n) = n"
    by (simp add: upt_rec digit_char_def digit_value_def word_le_nat_alt)
  then show "n < 10 \<Longrightarrow> digit_value (digit_char n) = n" by simp
qed

lemma decimal_value: "digits_value 10 (decimal_text n) = n"
proof (induction n rule: decimal_rev.induct)
  case (1 n)
  show ?case
  proof (cases "10 \<le> n")
    case True
    then have "decimal_text n = decimal_text (n div 10) @ [digit_char (n mod 10)]"
      by (simp add: decimal_text_def) (subst decimal_rev.simps, simp)
    with "1.IH" [OF True] show ?thesis by (simp add: digits_value_def digit_value_digit_char)
  next
    case False
    then have "decimal_text n = [digit_char n]" by (simp add: decimal_text_def decimal_rev.simps)
    with False show ?thesis by (simp add: digits_value_def digit_value_digit_char)
  qed
qed

lemma decimal_text_digits: "c \<in> set (decimal_text n) \<Longrightarrow> digit_value c < 10"
  by (auto simp: decimal_text_def digit_value_digit_char dest: decimal_rev_less)

lemma decimal_text_nonempty: "decimal_text n \<noteq> []"
  by (simp add: decimal_text_def decimal_rev.simps)

lemma decimal_text_no_zero: "0 \<notin> set (decimal_text n)"
  using decimal_text_digits [of 0 n] by (auto simp: digit_value_def word_le_nat_alt)

lemma digit_steps:
  fixes s :: u64
  shows "ucast (s mod 10) + 48 = digit_char (unat s mod 10)"
    and "0 < s div 10 \<longleftrightarrow> 10 \<le> unat s" and "unat (s div 10) = unat s div 10"
proof -
  have m: "unat (s mod 10) = unat s mod 10" by (simp add: unat_mod)
  have "ucast (s mod 10) = (of_nat (unat (s mod 10)) :: u8)" by simp
  then show "ucast (s mod 10) + 48 = digit_char (unat s mod 10)" unfolding digit_char_def m by simp
  show d: "unat (s div 10) = unat s div 10" by (simp add: unat_div)
  have "0 < s div 10 \<longleftrightarrow> 0 < unat (s div 10)" by (simp add: word_less_nat_alt)
  then show "0 < s div 10 \<longleftrightarrow> 10 \<le> unat s" unfolding d by (simp add: div_greater_zero_iff)
qed

lemma u64toa_loop_eq:
  "pos + length (decimal_rev (unat s)) \<le> U64TOA_MAX_DIGIT \<Longrightarrow>
   pos + length (decimal_rev (unat s)) \<le> length data \<Longrightarrow>
   u64toa_loop s pos data =
     Some (0, pos + length (decimal_rev (unat s)),
           take pos data @ map digit_char (decimal_rev (unat s)) @
             drop (pos + length (decimal_rev (unat s))) data)"
proof (induction "decimal_rev (unat s)" arbitrary: s pos data)
  case Nil
  then show ?case by (simp add: decimal_rev.simps)
next
  case (Cons d ds)
  let ?n = "unat s"
  have step: "decimal_rev ?n = ?n mod 10 # (if 10 \<le> ?n then decimal_rev (?n div 10) else [])"
    by (rule decimal_rev.simps)
  have ds: "ds = (if 10 \<le> ?n then decimal_rev (?n div 10) else [])" using Cons.hyps(2) step by simp
  let ?data = "data[pos := digit_char (?n mod 10)]"
  have upd: "take (Suc pos) ?data = take pos data @ [digit_char (?n mod 10)]"
    using Cons.prems(2) step by (simp add: take_Suc_conv_app_nth)
  show ?case
  proof (cases "10 \<le> ?n")
    case True
    have "u64toa_loop (s div 10) (Suc pos) ?data =
      Some (0, Suc pos + length (decimal_rev (?n div 10)),
        take (Suc pos) ?data @ map digit_char (decimal_rev (?n div 10)) @
          drop (Suc pos + length (decimal_rev (?n div 10))) ?data)"
      using Cons.hyps(1) [of "s div 10" "Suc pos" ?data] Cons.prems True ds step
      by (simp add: digit_steps)
    moreover have pos: "Suc pos < U64TOA_MAX_DIGIT" "pos < length data"
      using Cons.prems True step decimal_rev.simps [of "?n div 10"] by simp_all
    moreover have "0 < s div 10" using True digit_steps(2) by blast
    ultimately have "u64toa_loop s pos data = Some (0, Suc pos + length (decimal_rev (?n div 10)),
        take (Suc pos) ?data @ map digit_char (decimal_rev (?n div 10)) @
          drop (Suc pos + length (decimal_rev (?n div 10))) ?data)"
      by (subst u64toa_loop.simps) (simp only: wr_Some digit_steps(1) option.case if_True simp_thms)
    moreover have "decimal_rev ?n = ?n mod 10 # decimal_rev (?n div 10)" using True step by simp
    ultimately show ?thesis unfolding upd by simp
  next
    case False
    then have "\<not> 0 < s div 10" by (simp only: digit_steps(2)) simp
    then have z: "s div 10 = 0" by (simp only: word_gt_0) simp
    have one: "decimal_rev ?n = [?n mod 10]" using step False by simp
    have pos: "pos < length data" using Cons.prems(2) one by simp
    have "u64toa_loop s pos data = Some (0, Suc pos, ?data)"
      using pos z by (subst u64toa_loop.simps) (simp add: digit_steps(1))
    then show ?thesis unfolding one using upd_conv_take_nth_drop [OF pos] by simp
  qed
qed

text \<open>\<open>u64toa\<close> prints every number in decimal and never runs out of digits.\<close>

lemma u64toa_eq:
  assumes "length data = 32"
  shows "\<exists>r. u64toa v data = Some (decimal_text (unat v) @ 0 # r, True)"
proof -
  let ?ds = "decimal_rev (unat v)"
  have "unat v < 2 ^ LENGTH(64)" by (rule unsigned_less)
  then have "unat v < 10 ^ Suc 19" by simp
  then have len: "length ?ds \<le> 20" using decimal_rev_length [of "unat v" 19] by simp
  then obtain c r where "drop (length ?ds) data = c # r"
    using assms by (cases "drop (length ?ds) data") auto
  then have "u64toa_loop v 0 data = Some (0, length ?ds, map digit_char ?ds @ c # r)"
    using u64toa_loop_eq [of 0 v data] len assms by (simp add: U64TOA_MAX_DIGIT_def)
  moreover have "0 \<notin> set (map digit_char ?ds)"
    using decimal_text_no_zero [of "unat v"] by (simp add: decimal_text_def)
  ultimately show ?thesis
    using len stringrev_eq [of "map digit_char ?ds" r]
    by (simp add: u64toa_def U64TOA_MAX_DIGIT_def decimal_text_def list_update_append)
qed

section \<open>Parsing what was printed\<close>

lemma strtoull_decimal:
  assumes "n < 2 ^ 64" and "at_end r"
  shows "strtoull 10 (decimal_text n @ r) = (of_nat n, r)"
proof -
  let ?ds = "decimal_text n"
  obtain a t where ds: "?ds = a # t" using decimal_text_nonempty [of n] by (cases ?ds) auto
  have "digit_value a < 16" using decimal_text_digits [of a n] ds by fastforce
  then have a: "\<not> is_space a" "a \<noteq> 45" "a \<noteq> 43" using digit_not_space by blast+
  have "digits 10 (?ds @ r) = ?ds"
    using assms(2) decimal_text_digits [of _ n]
    by (cases r) (auto simp: digits_def at_end_def digit_value_def takeWhile_append2)
  moreover have "digits_value 10 ?ds = n" by (rule decimal_value)
  ultimately show ?thesis
    using a assms(1) by (simp add: strtoull_def Let_def ds strip_prefix_def)
qed

lemma decimal_base_prefix: "base_prefix (decimal_text n @ r) = (10, decimal_text n @ r)" if "at_end r"
proof -
  let ?ds = "decimal_text n"
  obtain a t where ds: "?ds = a # t" using decimal_text_nonempty [of n] by (cases ?ds) auto
  show ?thesis
  proof (cases t)
    case Nil
    have "strlen (?ds @ r) \<le> 1" using that Nil ds by (cases r) (auto simp: strlen_def at_end_def)
    then show ?thesis by (simp add: base_prefix_def)
  next
    case (Cons b u)
    then have "digit_value b < 10" using decimal_text_digits [of b n] ds by simp
    then have "b \<noteq> 120" "b \<noteq> 88" "b \<noteq> 98" "b \<noteq> 66"
      by (auto simp: digit_value_def word_le_nat_alt)
    then show ?thesis using ds Cons by (simp add: base_prefix_def)
  qed
qed

end
