(* ===== verification/Rx_Tool.thy ===== *)
theory Rx_Tool
  imports Open_Close Tool_Text
begin

text \<open>
  The receiver program \<open>src/tools/src/airspyhf_rx.c\<close>: its options and their checks, the
  callback that records samples, the set-up of the receiver and the whole of \<open>main\<close>, with
  every exit path. Texts printed for the user are not modelled. The options arrive as the list
  of the results of \<open>getopt\<close>; \<open>Tools_Argv\<close> reads them from \<open>argv\<close>.
\<close>

section \<open>Recording\<close>

record timeval =
  tv_sec :: int
  tv_usec :: int

text \<open>The difference of two times, in \<open>float\<close>.\<close>

definition TimevalDiff :: "timeval \<Rightarrow> timeval \<Rightarrow> cflt" where
  "TimevalDiff a b =
     add32 (int32f (tv_sec a - tv_sec b)) (mul32 (f32 (1 / 1000000)) (int32f (tv_usec a - tv_usec b)))"

text \<open>The global variables the callback shares with \<open>main\<close>; the open file is its contents.\<close>

record rx_globals =
  do_exit :: bool
  rx_fd :: "u8 list option"
  limit_num_samples :: bool
  bytes_to_xfer :: u64
  got_first_packet :: bool
  t_start :: timeval
  time_start :: timeval
  average_rate :: cflt
  global_average_rate :: cflt
  rate_samples :: u32
  buffer_count :: u32
  sample_count_sum :: u32

definition rx_globals0 :: rx_globals where
  "rx_globals0 = \<lparr>do_exit = False, rx_fd = None, limit_num_samples = False, bytes_to_xfer = 0, got_first_packet = False,
     t_start = \<lparr>tv_sec = 0, tv_usec = 0\<rparr>, time_start = \<lparr>tv_sec = 0, tv_usec = 0\<rparr>,
     average_rate = Zero False, global_average_rate = Zero False, rate_samples = 0, buffer_count = 0,
     sample_count_sum = 0\<rparr>"

text \<open>The rate statistics, updated every 50 buffers.\<close>

definition rate_update :: "timeval \<Rightarrow> int \<Rightarrow> rx_globals \<Rightarrow> rx_globals" where
  "rate_update now cnt g =
     (if \<not> got_first_packet g then g\<lparr>t_start := now, time_start := now, got_first_packet := True\<rparr>
      else
        let g = g\<lparr>buffer_count := buffer_count g + 1, sample_count_sum := sample_count_sum g + word_of_int cnt\<rparr>
        in if buffer_count g = 50 then
             let rate = div32 (int32f (uint (sample_count_sum g))) (TimevalDiff now (time_start g));
                 average = add32 (average_rate g) (mul32 (f32 (2 / 10)) (sub32 rate (average_rate g)))
             in g\<lparr>average_rate := average, global_average_rate := add32 (global_average_rate g) average,
                  rate_samples := rate_samples g + 1, time_start := now, sample_count_sum := 0, buffer_count := 0\<rparr>
           else g)"

text \<open>
  \<open>rx_callback(transfer)\<close> for a transfer of \<open>cnt\<close> samples whose memory holds \<open>buf\<close> (\<open>None\<close> for a
  null pointer); \<open>written\<close> says how many of the bytes it is given \<open>fwrite\<close> takes. Too
  short a memory would be read past its end.
\<close>

definition rx_callback ::
  "timeval \<Rightarrow> (nat \<Rightarrow> nat) \<Rightarrow> int \<Rightarrow> u8 list option \<Rightarrow> rx_globals \<Rightarrow> (int \<times> rx_globals) option" where
  "rx_callback now written cnt buf g =
     (case rx_fd g of
        None \<Rightarrow> Some (- 1, g)
      | Some file \<Rightarrow>
          if cnt * 4 * 2 < - (2 ^ 31) \<or> 2 ^ 31 \<le> cnt * 4 * 2 then None
          else do {
            let bytes_to_write = (word_of_int (cnt * 4 * 2) :: u32);
            let g = rate_update now cnt g;
            let bytes_to_write = (if limit_num_samples g \<and> bytes_to_xfer g \<le> ucast bytes_to_write
                                  then ucast (bytes_to_xfer g) else bytes_to_write);
            let g = (if limit_num_samples g
                     then g\<lparr>bytes_to_xfer := bytes_to_xfer g - ucast bytes_to_write\<rparr> else g);
            (bytes_written, file) \<leftarrow>
              (case buf of
                 None \<Rightarrow> Some (0, file)
               | Some bs \<Rightarrow>
                   let n = min (unat bytes_to_write) (written (unat bytes_to_write))
                   in if length bs < unat bytes_to_write then None else Some (n, file @ take n bs));
            let g = g\<lparr>rx_fd := Some file\<rparr>;
            Some (if bytes_written \<noteq> unat bytes_to_write \<or> limit_num_samples g \<and> bytes_to_xfer g = 0
                  then - 1 else 0, g)
          })"

section \<open>Waiting\<close>

definition sigint_callback_handler :: "rx_globals \<Rightarrow> rx_globals" where
  "sigint_callback_handler g = g\<lparr>do_exit := True\<rparr>"

text \<open>
  A second in which \<open>main\<close> sleeps: what the threads of the stream do to device and globals, and
  whether a signal arrives.
\<close>

type_synonym rx_second = "(airspyhf_device \<Rightarrow> rx_globals \<Rightarrow> airspyhf_device \<times> rx_globals) \<times> bool"

fun rx_sleep :: "rx_second \<Rightarrow> airspyhf_device \<Rightarrow> rx_globals \<Rightarrow> airspyhf_device \<times> rx_globals" where
  "rx_sleep (threads, signal) d g =
     (let (d, g) = threads d g in (d, if signal then sigint_callback_handler g else g))"

text \<open>
  The waiting loop of \<open>main\<close>, over the seconds that pass; it sets \<open>do_exit\<close> itself when all bytes
  have been recorded. \<open>None\<close>: it has not ended within these seconds.
\<close>

fun rx_wait_loop :: "rx_second list \<Rightarrow> airspyhf_device \<Rightarrow> rx_globals \<Rightarrow> (airspyhf_device \<times> rx_globals) option" where
  "rx_wait_loop seconds d g =
     (if airspyhf_is_streaming d \<and> \<not> do_exit g then
        (if limit_num_samples g \<and> bytes_to_xfer g = 0 then Some (d, g\<lparr>do_exit := True\<rparr>)
         else (case seconds of
                 [] \<Rightarrow> None
               | sec # later \<Rightarrow> let (d', g') = rx_sleep sec d g in rx_wait_loop later d' g'))
      else Some (d, g))"

text \<open>A second passes before the loop.\<close>

definition rx_wait :: "rx_second list \<Rightarrow> airspyhf_device \<Rightarrow> rx_globals \<Rightarrow> (airspyhf_device \<times> rx_globals) option" where
  "rx_wait seconds d g =
     (case seconds of
        [] \<Rightarrow> None
      | sec # later \<Rightarrow> let (d', g') = rx_sleep sec d g in rx_wait_loop later d' g')"

section \<open>The WAV header\<close>

record wav_file_hdr =
  riff_size :: u32
  wFormatTag :: u16
  wChannels :: u16
  dwSamplesPerSec :: u32
  dwAvgBytesPerSec :: u32
  wBlockAlign :: u16
  wBitsPerSample :: u16
  data_size :: u32

definition wave_file_hdr0 :: wav_file_hdr where
  "wave_file_hdr0 = \<lparr>riff_size = 0, wFormatTag = 0, wChannels = 0, dwSamplesPerSec = 0,
     dwAvgBytesPerSec = 0, wBlockAlign = 0, wBitsPerSample = 0, data_size = 0\<rparr>"

definition bytes_of_u16 :: "u16 \<Rightarrow> u8 list" where
  "bytes_of_u16 x = [ucast x, ucast (drop_bit 8 x)]"

text \<open>The 44 bytes of the structure: \<open>RIFF\<close>, \<open>WAVE\<close>, the format chunk of 16 bytes, \<open>data\<close>.\<close>

definition wav_hdr_bytes :: "wav_file_hdr \<Rightarrow> u8 list" where
  "wav_hdr_bytes h =
     [82, 73, 70, 70] @ bytes_of_u32 (riff_size h) @ [87, 65, 86, 69] @
     [102, 109, 116, 32] @ bytes_of_u32 16 @
     bytes_of_u16 (wFormatTag h) @ bytes_of_u16 (wChannels h) @
     bytes_of_u32 (dwSamplesPerSec h) @ bytes_of_u32 (dwAvgBytesPerSec h) @
     bytes_of_u16 (wBlockAlign h) @ bytes_of_u16 (wBitsPerSample h) @
     [100, 97, 116, 97] @ bytes_of_u32 (data_size h)"

lemma length_wav_hdr_bytes [simp]: "length (wav_hdr_bytes h) = 44"
  by (simp add: wav_hdr_bytes_def bytes_of_u16_def)

text \<open>The header for a file that ends at \<open>file_pos\<close>.\<close>

definition finish_wav_hdr :: "u32 \<Rightarrow> u32 \<Rightarrow> wav_file_hdr \<Rightarrow> wav_file_hdr" where
  "finish_wav_hdr file_pos rate h =
     h\<lparr>riff_size := file_pos - 8, wFormatTag := 3, wChannels := 2, dwSamplesPerSec := rate,
       dwAvgBytesPerSec := rate * 4, wBlockAlign := 2 * (32 div 8), wBitsPerSample := 32,
       data_size := file_pos - 44\<rparr>"

text \<open>
  \<open>rewind\<close> and overwriting the beginning of the file, of which \<open>fwrite\<close> takes \<open>n\<close> bytes at
  most; the program does not look at its result.
\<close>

definition finish_wav :: "nat \<Rightarrow> u32 \<Rightarrow> u8 list \<Rightarrow> u8 list" where
  "finish_wav n rate file =
     blit (take n (wav_hdr_bytes (finish_wav_hdr (of_nat (length file)) rate wave_file_hdr0))) file"

section \<open>Options\<close>

record rx_options =
  opt_path :: "u8 list option"
  opt_receive_wav :: bool
  opt_serial_number :: bool
  opt_serial_number_val :: u64
  opt_freq :: bool
  opt_freq_hz :: u32
  opt_sample_rate :: u32
  opt_limit :: bool
  opt_samples_to_xfer :: u64
  opt_hf_agc :: bool
  opt_hf_agc_threshold :: bool
  opt_hf_att_val :: u32
  opt_hf_lna :: bool
  opt_verbose :: bool
  opt_no_manual_commands :: bool

text \<open>\<open>serial\<close> is the indeterminate initial value of \<open>serial_number_val\<close>.\<close>

definition rx_options0 :: "u64 \<Rightarrow> rx_options" where
  "rx_options0 serial =
     \<lparr>opt_path = None, opt_receive_wav = False, opt_serial_number = False, opt_serial_number_val = serial,
      opt_freq = False, opt_freq_hz = 0, opt_sample_rate = 768000, opt_limit = False,
      opt_samples_to_xfer = 0, opt_hf_agc = True, opt_hf_agc_threshold = False, opt_hf_att_val = 0,
      opt_hf_lna = False, opt_verbose = False, opt_no_manual_commands = False\<rparr>"

text \<open>
  The \<open>%f\<close> conversion of \<open>sscanf\<close> is a parameter, because its rounding is up to the C
  library: the value, when the text starts with a floating-point number.
\<close>

type_synonym scanner = "u8 list \<Rightarrow> cflt option"

definition str_on :: "u8 list" where "str_on = [111, 110]"
definition str_off :: "u8 list" where "str_off = [111, 102, 102]"
definition str_high :: "u8 list" where "str_high = [104, 105, 103, 104]"

datatype rx_option =
    Opt_r "u8 list" | Opt_w | Opt_s "u8 list" | Opt_f "u8 list" | Opt_a "u8 list" | Opt_n "u8 list"
  | Opt_g "u8 list" | Opt_l "u8 list" | Opt_t "u8 list" | Opt_m "u8 list" | Opt_d | Opt_h | Opt_z | Opt_unknown

text \<open>
  One option: \<open>Inl ()\<close> is the exit with the usage text. A frequency outside the range of
  \<open>uint32_t\<close> is undefined. So is every other value of \<open>getopt\<close>, which comes with a null
  \<open>optarg\<close>: the message of the default branch prints \<open>optarg\<close> with \<open>%s\<close>.
\<close>

fun rx_option_step :: "scanner \<Rightarrow> rx_option \<Rightarrow> rx_options \<Rightarrow> (unit + rx_options) option" where
  "rx_option_step S (Opt_r arg) opts = Some (Inr (opts\<lparr>opt_path := Some arg\<rparr>))"
| "rx_option_step S Opt_w opts = Some (Inr (opts\<lparr>opt_receive_wav := True\<rparr>))"
| "rx_option_step S (Opt_s arg) opts =
     (let (r, v) = parse_u64 arg (opt_serial_number_val opts)
      in Some (if r \<noteq> AIRSPYHF_SUCCESS then Inl ()
               else Inr (opts\<lparr>opt_serial_number := True, opt_serial_number_val := v\<rparr>)))"
| "rx_option_step S (Opt_f arg) opts =
     (case S arg of
        None \<Rightarrow> Some (Inr opts)
      | Some f \<Rightarrow> map_option (\<lambda>hz. Inr (opts\<lparr>opt_freq := True, opt_freq_hz := word_of_int hz\<rparr>))
                    (flt_to_int 0 (2 ^ 32 - 1) (mul32 f (int32f 1000000))))"
| "rx_option_step S (Opt_a arg) opts =
     (let (r, v) = parse_u32 arg (opt_sample_rate opts)
      in Some (if r \<noteq> AIRSPYHF_SUCCESS then Inl () else Inr (opts\<lparr>opt_sample_rate := v\<rparr>)))"
| "rx_option_step S (Opt_n arg) opts =
     (let (r, v) = parse_u64 arg (opt_samples_to_xfer opts)
      in Some (if r \<noteq> AIRSPYHF_SUCCESS then Inl ()
               else Inr (opts\<lparr>opt_limit := True, opt_samples_to_xfer := v\<rparr>)))"
| "rx_option_step S (Opt_g arg) opts = Some (Inr (if arg = str_off then opts\<lparr>opt_hf_agc := False\<rparr> else opts))"
| "rx_option_step S (Opt_l arg) opts = Some (Inr (if arg = str_high then opts\<lparr>opt_hf_agc_threshold := True\<rparr> else opts))"
| "rx_option_step S (Opt_t arg) opts =
     (case sscanf_d arg of
        None \<Rightarrow> None
      | Some None \<Rightarrow> Some (Inr opts)
      | Some (Some v) \<Rightarrow> Some (if v \<le> 8 then Inr (opts\<lparr>opt_hf_att_val := v\<rparr>) else Inl ()))"
| "rx_option_step S (Opt_m arg) opts = Some (Inr (if arg = str_on then opts\<lparr>opt_hf_lna := True\<rparr> else opts))"
| "rx_option_step S Opt_d opts = Some (Inr (opts\<lparr>opt_verbose := True\<rparr>))"
| "rx_option_step S Opt_h opts = Some (Inl ())"
| "rx_option_step S Opt_z opts = Some (Inr (opts\<lparr>opt_no_manual_commands := True\<rparr>))"
| "rx_option_step S Opt_unknown opts = None"

fun rx_options_loop :: "scanner \<Rightarrow> rx_option list \<Rightarrow> rx_options \<Rightarrow> (unit + rx_options) option" where
  "rx_options_loop S [] opts = Some (Inr opts)"
| "rx_options_loop S (x # xs) opts =
     (case rx_option_step S x opts of
        None \<Rightarrow> None
      | Some (Inl ()) \<Rightarrow> Some (Inl ())
      | Some (Inr opts') \<Rightarrow> rx_options_loop S xs opts')"

definition SAMPLES_TO_XFER_MAX_U64 :: u64 where "SAMPLES_TO_XFER_MAX_U64 = 0x8000000000000000"
definition DEFAULT_FREQ_HZ :: u32 where "DEFAULT_FREQ_HZ = 7100000"

definition freq_in_range :: "u32 \<Rightarrow> bool" where
  "freq_in_range hz \<longleftrightarrow> 9000 \<le> hz \<and> hz \<le> 31000000 \<or> 60000000 \<le> hz \<and> hz \<le> 260000000"

text \<open>
  The checks: the number of bytes to transfer, the options with the frequency and the path
  in use. \<open>wav_path\<close> is the name built from date and frequency. The code keeps it in an array
  of the inner block and reads it after the block has ended; the model takes the array as
  still there, as compilers leave it.
\<close>

definition rx_check_options :: "u8 list \<Rightarrow> rx_options \<Rightarrow> unit + (u64 \<times> rx_options)" where
  "rx_check_options wav_path opts =
     (let bytes = opt_samples_to_xfer opts * (32 * 2 div 8)
      in if SAMPLES_TO_XFER_MAX_U64 \<le> opt_samples_to_xfer opts then Inl ()
         else if opt_freq opts \<and> \<not> freq_in_range (opt_freq_hz opts) then Inl ()
         else let opts = (if opt_freq opts then opts else opts\<lparr>opt_freq_hz := DEFAULT_FREQ_HZ\<rparr>);
                  opts = (if opt_receive_wav opts then opts\<lparr>opt_path := Some wav_path\<rparr> else opts)
              in if opt_path opts = None then Inl () else Inr (bytes, opts))"

section \<open>Setting up the receiver\<close>

text \<open>The search for the requested rate among those of the device; 0 when it is not there.\<close>

fun search_rate :: "u32 \<Rightarrow> u32 list \<Rightarrow> u32" where
  "search_rate r [] = 0"
| "search_rate r (x # xs) = (if r = x then r else search_rate r xs)"

text \<open>
  The rates are read into an array allocated for their number. \<open>junk_rate\<close> stands for its
  indeterminate contents.
\<close>

definition rx_choose_rate ::
  "env \<Rightarrow> rx_options \<Rightarrow> airspyhf_device \<Rightarrow> trace \<Rightarrow> (u32 \<times> trace) option" where
  "rx_choose_rate E opts d w = do {
     (_, cnt) \<leftarrow> airspyhf_get_samplerates d [0] 0;
     let nsrates = hd cnt;
     let (p, w) = malloc E (unat nsrates * 4) w;
     (_, rates) \<leftarrow> airspyhf_get_samplerates d
                     (if p = NULL then [] else map (\<lambda>i. ucast (junk E w i)) [0..<unat nsrates]) nsrates;
     Some (search_rate (opt_sample_rate opts) rates, free p w)
   }"

text \<open>The manual commands: AGC with its threshold, or the attenuator, then the preamplifier.\<close>

definition rx_manual_commands :: "env \<Rightarrow> rx_options \<Rightarrow> trace \<Rightarrow> bool \<times> trace" where
  "rx_manual_commands E opts w =
     (if opt_no_manual_commands opts then (True, w)
      else let (r, w) = airspyhf_set_hf_agc E (if opt_hf_agc opts then 1 else 0) w in
        if r \<noteq> AIRSPYHF_SUCCESS then (False, w)
        else let (r, w) = (if opt_hf_agc opts
                           then airspyhf_set_hf_agc_threshold E (if opt_hf_agc_threshold opts then 1 else 0) w
                           else airspyhf_set_hf_att E (ucast (opt_hf_att_val opts)) w) in
          if r \<noteq> AIRSPYHF_SUCCESS then (False, w)
          else let (r, w) = airspyhf_set_hf_lna E (if opt_hf_lna opts then 1 else 0) w
               in (r = AIRSPYHF_SUCCESS, w))"

text \<open>From the open device to the configured one: whether to go on, and the rate for the header.\<close>

definition rx_configure ::
  "libm \<Rightarrow> env \<Rightarrow> rx_options \<Rightarrow> airspyhf_device \<Rightarrow> trace \<Rightarrow>
   (bool \<times> u32 \<times> airspyhf_device \<times> trace) option" where
  "rx_configure M E opts d w = do {
     (rate, w) \<leftarrow> rx_choose_rate E opts d w;
     if rate = 0 then Some (False, 0, d, w)
     else do {
       (r, d, w) \<leftarrow> airspyhf_set_samplerate M E rate d w;
       if r \<noteq> AIRSPYHF_SUCCESS then Some (False, rate, d, w)
       else do {
         let (r, partid, w) = airspyhf_board_partid_serialno_read E \<lparr>part_id = 0, serial_no = [0, 0, 0, 0]\<rparr> w;
         if r \<noteq> AIRSPYHF_SUCCESS then Some (False, rate, d, w)
         else let (ok, w) = rx_manual_commands E opts w in Some (ok, rate, d, w)
       }
     }
   }"

section \<open>\<open>main\<close>\<close>

datatype rx_exit = Exit_Usage | Exit_Failure | Exit_Success

text \<open>
  What the run depends on besides the arguments: the USB world, the C library, the
  indeterminate values, whether the output file can be opened and buffered, how many bytes
  \<open>fwrite\<close> takes of the header at the beginning and at the end, the address of the callback,
  and the seconds that pass while \<open>main\<close> waits. When they are too few for the waiting to end,
  the run has no result either.
\<close>

record rx_world =
  w_env :: env
  w_libm :: libm
  w_junk :: iq_junk
  w_scan :: scanner
  w_serial :: u64
  w_wav_path :: "u8 list"
  w_fopen_ok :: bool
  w_setvbuf_ok :: bool
  w_fwrite_first :: nat
  w_fwrite_last :: nat
  w_callback :: ptr
  w_seconds :: "rx_second list"

text \<open>\<open>exit_failure\<close>: close the device and fail; the file stays open.\<close>

definition rx_fail ::
  "env \<Rightarrow> (ptr \<times> airspyhf_device) option \<Rightarrow> u8 list option \<Rightarrow> trace \<Rightarrow>
   (rx_exit \<times> u8 list option \<times> trace) option" where
  "rx_fail E dv file w = map_option (\<lambda>(_, w). (Exit_Failure, file, w)) (airspyhf_close E dv w)"

text \<open>
  The file. The path \<open>stdout\<close> stands for the standard output, which is not opened and here
  has the address \<open>NULL\<close>; \<open>rx_file\<close> is what a file contains when the stream starts.
\<close>

definition str_stdout :: "u8 list" where "str_stdout = [115, 116, 100, 111, 117, 116]"

definition rx_open_file :: "rx_world \<Rightarrow> rx_options \<Rightarrow> trace \<Rightarrow> bool \<times> ptr \<times> trace" where
  "rx_open_file W opts w =
     (if opt_path opts = Some str_stdout then (True, NULL, w)
      else let (fd, w) = create_call (w_env W) FileOpen (w_fopen_ok W) w in (fd \<noteq> NULL, fd, w))"

definition rx_close_file :: "ptr \<Rightarrow> trace \<Rightarrow> trace" where
  "rx_close_file fd w = (if fd \<noteq> NULL then w @ [FileClose fd] else w)"

definition rx_file :: "rx_world \<Rightarrow> rx_options \<Rightarrow> u8 list" where
  "rx_file W opts = (if opt_receive_wav opts then take (w_fwrite_first W) (wav_hdr_bytes wave_file_hdr0) else [])"

text \<open>The stream and the orderly end.\<close>

definition rx_stream ::
  "rx_world \<Rightarrow> rx_options \<Rightarrow> u64 \<Rightarrow> u32 \<Rightarrow> ptr \<Rightarrow> airspyhf_device \<Rightarrow> trace \<Rightarrow>
   (rx_exit \<times> u8 list option \<times> trace) option" where
  "rx_stream W opts bytes rate lib d w = do {
     let (opened, fd, w) = rx_open_file W opts w;
     if \<not> opened then rx_fail (w_env W) (Some (lib, d)) None w
     else if \<not> w_setvbuf_ok W then rx_fail (w_env W) (Some (lib, d)) (Some []) w
     else do {
       let g = rx_globals0\<lparr>rx_fd := Some (rx_file W opts), limit_num_samples := opt_limit opts,
                bytes_to_xfer := bytes\<rparr>;
       (r, d, w) \<leftarrow> airspyhf_start (w_env W) (w_callback W) NULL d w;
       if r \<noteq> AIRSPYHF_SUCCESS then rx_fail (w_env W) (Some (lib, d)) (rx_fd g) w
       else do {
         (r, d, w) \<leftarrow> airspyhf_set_freq (w_env W) (opt_freq_hz opts) d w;
         if r \<noteq> AIRSPYHF_SUCCESS then rx_fail (w_env W) (Some (lib, d)) (rx_fd g) w
         else do {
           (d, g) \<leftarrow> rx_wait (w_seconds W) d (g\<lparr>average_rate := int32f (uint rate)\<rparr>);
           (_, d, w) \<leftarrow> airspyhf_stop (w_env W) d w;
           (_, w) \<leftarrow> airspyhf_close (w_env W) (Some (lib, d)) w;
           Some (Exit_Success,
                 map_option (if opt_receive_wav opts then finish_wav (w_fwrite_last W) rate else id) (rx_fd g),
                 rx_close_file fd w)
         }
       }
     }
   }"

definition rx_open ::
  "rx_world \<Rightarrow> rx_options \<Rightarrow> trace \<Rightarrow> (int \<times> (ptr \<times> airspyhf_device) option \<times> iq_lib \<times> trace) option" where
  "rx_open W opts w =
     (if opt_serial_number opts
      then airspyhf_open_sn (w_libm W) (w_junk W) (w_env W) (opt_serial_number_val opts) iq_lib0 w
      else airspyhf_open (w_libm W) (w_junk W) (w_env W) iq_lib0 w)"

text \<open>What follows the loop over the options, with its outcome.\<close>

definition rx_run ::
  "rx_world \<Rightarrow> unit + rx_options \<Rightarrow> trace \<Rightarrow> (rx_exit \<times> u8 list option \<times> trace) option" where
  "rx_run W res w =
     (case res of
        Inl _ \<Rightarrow> Some (Exit_Usage, None, w)
      | Inr opts \<Rightarrow>
          (case rx_check_options (w_wav_path W) opts of
             Inl _ \<Rightarrow> Some (Exit_Usage, None, w)
           | Inr (bytes, opts) \<Rightarrow> do {
               (r, dv, L, w) \<leftarrow> rx_open W opts w;
               (case dv of
                  None \<Rightarrow> rx_fail (w_env W) None None w
                | Some (lib, d) \<Rightarrow>
                    if r \<noteq> AIRSPYHF_SUCCESS then rx_fail (w_env W) dv None w
                    else do {
                      (ok, rate, d, w) \<leftarrow> rx_configure (w_libm W) (w_env W) opts d w;
                      if ok then rx_stream W opts bytes rate lib d w
                      else rx_fail (w_env W) (Some (lib, d)) None w
                    })
             }))"

definition rx_main ::
  "rx_world \<Rightarrow> rx_option list \<Rightarrow> trace \<Rightarrow> (rx_exit \<times> u8 list option \<times> trace) option" where
  "rx_main W args w =
     rx_options_loop (w_scan W) args (rx_options0 (w_serial W)) \<bind> (\<lambda>res. rx_run W res w)"

end
