(* ===== verification/Small_Tools.thy ===== *)
theory Small_Tools
  imports Rx_Tool
begin

text \<open>
  The small programs of \<open>src/tools/src\<close>: \<open>airspyhf_calibrate.c\<close>, \<open>airspyhf_gpio.c\<close>,
  \<open>airspyhf_info.c\<close> and \<open>airspyhf_lib_version.c\<close>, each with its option loop and every exit of
  its \<open>main\<close>. The options arrive as the list of the results of \<open>getopt\<close>, which \<open>Tools_Argv\<close>
  reads from \<open>argv\<close>; what a program prints is modelled by the values printed.
\<close>

section \<open>What the programs share\<close>

text \<open>
  \<open>airspyhf_list_devices\<close> returns an \<open>int\<close> that all three store in an \<open>unsigned\<close>, so that
  \<open>ndev <= 0\<close> holds for 0 only.
\<close>

definition scan_devices :: "env \<Rightarrow> trace \<Rightarrow> (u32 \<times> trace) option" where
  "scan_devices E w =
     map_option (\<lambda>(n, _, w). (word_of_int n, w)) (airspyhf_list_devices E None w)"

text \<open>
  \<open>serials = malloc(ndev * sizeof(*serials))\<close> and the second listing into it: the pointer and
  its entries when the condition that guards the opening loop holds.
\<close>

definition read_serials :: "env \<Rightarrow> u32 \<Rightarrow> trace \<Rightarrow> (ptr \<times> u64 list option \<times> trace) option" where
  "read_serials E ndev w =
     (let (p, w) = malloc E (unat ndev * 8) w
      in if p = NULL then Some (p, None, w)
         else do {
           (n, serials, w) \<leftarrow> airspyhf_list_devices E (Some (sint ndev)) w;
           Some (p, if 0 < n then Some serials else None, w)
         })"

text \<open>The identification, of which both programs print the serial number, when it could be read.\<close>

definition print_serial :: "env \<Rightarrow> trace \<Rightarrow> airspyhf_read_partid_serialno_t option \<times> trace" where
  "print_serial E w =
     (let (r, p, w) = airspyhf_board_partid_serialno_read E \<lparr>part_id = 0, serial_no = [0, 0, 0, 0]\<rparr> w
      in (if r = AIRSPYHF_SUCCESS then Some p else None, w))"

section \<open>\<open>airspyhf_calibrate\<close>\<close>

datatype calibrate_option = Cal_s "u8 list" | Cal_c "u8 list" | Cal_usage

record calibrate_args =
  cal_sn :: "u64 option"
  cal_ppb :: "u32 option"

text \<open>\<open>Inl ()\<close> is the exit with the usage text.\<close>

fun calibrate_options :: "calibrate_option list \<Rightarrow> calibrate_args \<Rightarrow> (unit + calibrate_args) option" where
  "calibrate_options [] a = Some (Inr a)"
| "calibrate_options (Cal_s arg # xs) a =
     (case sscanf_0x_llx arg of
        None \<Rightarrow> None
      | Some None \<Rightarrow> Some (Inl ())
      | Some (Some sn) \<Rightarrow> calibrate_options xs (a\<lparr>cal_sn := Some sn\<rparr>))"
| "calibrate_options (Cal_c arg # xs) a =
     (case sscanf_d arg of
        None \<Rightarrow> None
      | Some None \<Rightarrow> Some (Inl ())
      | Some (Some ppb) \<Rightarrow> calibrate_options xs (a\<lparr>cal_ppb := Some ppb\<rparr>))"
| "calibrate_options (Cal_usage # xs) a = Some (Inl ())"

text \<open>\<open>print_receiver_data\<close>: the serial number and the calibration of the open device.\<close>

definition calibrate_print :: "env \<Rightarrow> airspyhf_device \<Rightarrow> trace \<Rightarrow> (airspyhf_read_partid_serialno_t option \<times> u32 option) \<times> trace" where
  "calibrate_print E d w =
     (let (sn, w) = print_serial E w;
          (r, ppb) = airspyhf_get_calibration d (Some 0)
      in ((sn, if r = AIRSPYHF_SUCCESS then ppb else None), w))"

text \<open>Whether each of the two steps reported success, the device, the trace.\<close>

definition write_new_calibration_value ::
  "env \<Rightarrow> airspyhf_device \<Rightarrow> u32 \<Rightarrow> trace \<Rightarrow> ((bool \<times> bool) \<times> airspyhf_device \<times> trace) option" where
  "write_new_calibration_value E d new_ppb w = do {
     (r, d, w) \<leftarrow> airspyhf_set_calibration E new_ppb d w;
     let (s, w) = airspyhf_flash_configuration E d w;
     Some ((r = AIRSPYHF_SUCCESS, s = AIRSPYHF_SUCCESS), d, w)
   }"

record calibrate_report =
  rep_receiver :: "(airspyhf_read_partid_serialno_t option \<times> u32 option) option"
  rep_written :: "(bool \<times> bool) option"

definition calibrate_report0 :: calibrate_report where
  "calibrate_report0 = \<lparr>rep_receiver = None, rep_written = None\<rparr>"

definition calibrate_run ::
  "libm \<Rightarrow> iq_junk \<Rightarrow> env \<Rightarrow> unit + calibrate_args \<Rightarrow> trace \<Rightarrow> (rx_exit \<times> calibrate_report \<times> trace) option" where
  "calibrate_run M J E res w =
     (case res of
        Inl _ \<Rightarrow> Some (Exit_Usage, calibrate_report0, w)
      | Inr a \<Rightarrow> do {
          (ndev, w) \<leftarrow> scan_devices E w;
          if ndev = 0 then Some (Exit_Failure, calibrate_report0, w)
          else (case cal_sn a of
            None \<Rightarrow> Some (Exit_Usage, calibrate_report0, w)
          | Some sn \<Rightarrow> do {
              (r, dv, L, w) \<leftarrow> airspyhf_open_sn M J E sn iq_lib0 w;
              if r \<noteq> AIRSPYHF_SUCCESS then Some (Exit_Failure, calibrate_report0, w)
              else (case dv of
                None \<Rightarrow> None
              | Some (lib, d) \<Rightarrow> do {
                  let (shown, w) = calibrate_print E d w;
                  (written, w) \<leftarrow>
                    (case cal_ppb a of
                       None \<Rightarrow> Some (None, w)
                     | Some ppb \<Rightarrow> do {
                         (ok, d, w) \<leftarrow> write_new_calibration_value E d ppb w;
                         Some (Some ok, w)
                       });
                  Some (Exit_Success, \<lparr>rep_receiver = Some shown, rep_written = written\<rparr>, w)
                })
            })
        })"

definition calibrate_main ::
  "libm \<Rightarrow> iq_junk \<Rightarrow> env \<Rightarrow> calibrate_option list \<Rightarrow> trace \<Rightarrow> (rx_exit \<times> calibrate_report \<times> trace) option" where
  "calibrate_main M J E args w =
     calibrate_options args \<lparr>cal_sn = None, cal_ppb = None\<rparr> \<bind> (\<lambda>res. calibrate_run M J E res w)"

section \<open>\<open>airspyhf_gpio\<close>\<close>

record GPIO =
  gpio_pin :: airspyhf_user_output_t
  gpio_state :: airspyhf_user_output_state_t

definition gpio0 :: "GPIO list" where
  "gpio0 = map (\<lambda>pin. \<lparr>gpio_pin = pin, gpio_state = AIRSPYHF_USER_OUTPUT_LOW\<rparr>)
     [AIRSPYHF_USER_OUTPUT_0, AIRSPYHF_USER_OUTPUT_1, AIRSPYHF_USER_OUTPUT_2, AIRSPYHF_USER_OUTPUT_3]"

text \<open>\<open>Gpio_level k arg\<close> is the option \<open>-k arg\<close>, for \<open>k\<close> from 0 to 3.\<close>

datatype gpio_option = Gpio_level nat "u8 list" | Gpio_s "u8 list" | Gpio_usage

fun gpio_options :: "gpio_option list \<Rightarrow> GPIO list \<times> u64 option \<Rightarrow> (unit + GPIO list \<times> u64 option) option" where
  "gpio_options [] a = Some (Inr a)"
| "gpio_options (Gpio_level k arg # xs) (gpio, sn) =
     (let set = (\<lambda>v. do { g \<leftarrow> rd gpio k; gpio \<leftarrow> wr gpio k (g\<lparr>gpio_state := v\<rparr>); gpio_options xs (gpio, sn) })
      in if arg = str_on then set AIRSPYHF_USER_OUTPUT_HIGH
         else if arg = str_off then set AIRSPYHF_USER_OUTPUT_LOW
         else Some (Inl ()))"
| "gpio_options (Gpio_s arg # xs) (gpio, sn) =
     (case sscanf_0x_llx arg of
        None \<Rightarrow> None
      | Some None \<Rightarrow> Some (Inl ())
      | Some (Some v) \<Rightarrow> gpio_options xs (gpio, Some v))"
| "gpio_options (Gpio_usage # xs) a = Some (Inl ())"

text \<open>The loop over the serial numbers: every device is opened into the same variable \<open>dev\<close>.\<close>

fun gpio_open_loop ::
  "libm \<Rightarrow> iq_junk \<Rightarrow> env \<Rightarrow> u64 list \<Rightarrow> (ptr \<times> airspyhf_device) option \<Rightarrow> iq_lib \<Rightarrow> trace \<Rightarrow>
   (bool \<times> (ptr \<times> airspyhf_device) option \<times> trace) option" where
  "gpio_open_loop M J E [] dev L w = Some (True, dev, w)"
| "gpio_open_loop M J E (s # ss) dev L w = do {
     (r, dev, L, w) \<leftarrow> airspyhf_open_sn M J E s L w;
     if r \<noteq> AIRSPYHF_SUCCESS then Some (False, dev, w)
     else gpio_open_loop M J E ss dev L w
   }"

definition gpio_open ::
  "libm \<Rightarrow> iq_junk \<Rightarrow> env \<Rightarrow> u64 option \<Rightarrow> u32 \<Rightarrow> trace \<Rightarrow>
   (bool \<times> (ptr \<times> airspyhf_device) option \<times> trace) option" where
  "gpio_open M J E sn ndev w =
     (case sn of
        Some v \<Rightarrow> do {
          (r, dev, L, w) \<leftarrow> airspyhf_open_sn M J E v iq_lib0 w;
          Some (r = AIRSPYHF_SUCCESS, dev, w)
        }
      | None \<Rightarrow> do {
          (p, serials, w) \<leftarrow> read_serials E ndev w;
          (case serials of
             None \<Rightarrow> Some (True, None, w)
           | Some ss \<Rightarrow> do {
               (ok, dev, w) \<leftarrow> gpio_open_loop M J E ss None iq_lib0 w;
               Some (ok, dev, if ok then free p w else w)
             })
        })"

text \<open>Setting the outputs. A null device would be dereferenced.\<close>

fun gpio_update :: "env \<Rightarrow> GPIO list \<Rightarrow> trace \<Rightarrow> bool \<times> trace" where
  "gpio_update E [] w = (True, w)"
| "gpio_update E (g # gs) w =
     (let (r, w) = airspyhf_set_user_output E (gpio_pin g) (gpio_state g) w
      in if r \<noteq> AIRSPYHF_SUCCESS then (False, w) else gpio_update E gs w)"

definition gpio_run ::
  "libm \<Rightarrow> iq_junk \<Rightarrow> env \<Rightarrow> unit + GPIO list \<times> u64 option \<Rightarrow> trace \<Rightarrow> (rx_exit \<times> trace) option" where
  "gpio_run M J E res w =
     (case res of
        Inl _ \<Rightarrow> Some (Exit_Usage, w)
      | Inr (gpio, sn) \<Rightarrow> do {
          (ndev, w) \<leftarrow> scan_devices E w;
          if ndev = 0 then Some (Exit_Failure, w)
          else do {
            (ok, dev, w) \<leftarrow> gpio_open M J E sn ndev w;
            (ok, w) \<leftarrow>
              (if \<not> ok then Some (False, w)
               else case dev of None \<Rightarrow> None | Some _ \<Rightarrow> Some (gpio_update E gpio w));
            (_, w) \<leftarrow> airspyhf_close E dev w;
            Some (if ok then Exit_Success else Exit_Failure, w)
          }
        })"

definition gpio_main ::
  "libm \<Rightarrow> iq_junk \<Rightarrow> env \<Rightarrow> gpio_option list \<Rightarrow> trace \<Rightarrow> (rx_exit \<times> trace) option" where
  "gpio_main M J E args w = gpio_options args (gpio0, None) \<bind> (\<lambda>res. gpio_run M J E res w)"

section \<open>\<open>airspyhf_info\<close>\<close>

datatype info_option = Info_s "u8 list" | Info_usage

fun info_options :: "info_option list \<Rightarrow> u64 option \<Rightarrow> (unit + u64 option) option" where
  "info_options [] sn = Some (Inr sn)"
| "info_options (Info_s arg # xs) sn =
     (case sscanf_0x_llx arg of
        None \<Rightarrow> None
      | Some None \<Rightarrow> Some (Inl ())
      | Some (Some v) \<Rightarrow> info_options xs (Some v))"
| "info_options (Info_usage # xs) sn = Some (Inl ())"

record info_report =
  info_serial :: "airspyhf_read_partid_serialno_t option"
  info_version :: "u8 list option"
  info_rates :: "u32 list"

text \<open>
  \<open>print_receiver_data\<close>, which also closes the device, except when the number of sample
  rates cannot be read. The version string is read into 255 bytes.
\<close>

definition info_print ::
  "env \<Rightarrow> ptr \<Rightarrow> airspyhf_device \<Rightarrow> trace \<Rightarrow> (info_report \<times> trace) option" where
  "info_print E lib d w = do {
     let (sn, w) = print_serial E w;
     (r, vstr, w) \<leftarrow> airspyhf_version_string_read E 255 w;
     let version = (if r = AIRSPYHF_SUCCESS then Some vstr else None);
     (r, cnt) \<leftarrow> airspyhf_get_samplerates d [0] 0;
     if r = AIRSPYHF_SUCCESS then do {
       let nsrates = hd cnt;
       let (p, w) = malloc E (unat nsrates * 4) w;
       (rates, w) \<leftarrow>
         (if p = NULL then Some ([], w)
          else do {
            (r, rates) \<leftarrow> airspyhf_get_samplerates d (map (\<lambda>i. ucast (junk E w i)) [0..<unat nsrates]) nsrates;
            Some (if r = AIRSPYHF_SUCCESS then (map (\<lambda>x. x div 1000) rates, free p w) else ([], w))
          });
       (_, w) \<leftarrow> airspyhf_close E (Some (lib, d)) w;
       Some (\<lparr>info_serial = sn, info_version = version, info_rates = rates\<rparr>, w)
     } else Some (\<lparr>info_serial = sn, info_version = version, info_rates = []\<rparr>, w)
   }"

text \<open>The loop over all receivers; it stops at the first that cannot be opened.\<close>

fun info_loop ::
  "libm \<Rightarrow> iq_junk \<Rightarrow> env \<Rightarrow> u64 list \<Rightarrow> iq_lib \<Rightarrow> trace \<Rightarrow> (info_report list \<times> trace) option" where
  "info_loop M J E [] L w = Some ([], w)"
| "info_loop M J E (s # ss) L w = do {
     (r, dv, L, w) \<leftarrow> airspyhf_open_sn M J E s L w;
     if r \<noteq> AIRSPYHF_SUCCESS then Some ([], w)
     else (case dv of
       None \<Rightarrow> info_loop M J E ss L w
     | Some (lib, d) \<Rightarrow> do {
         (rep, w) \<leftarrow> info_print E lib d w;
         (reps, w) \<leftarrow> info_loop M J E ss L w;
         Some (rep # reps, w)
       })
   }"

definition info_run ::
  "libm \<Rightarrow> iq_junk \<Rightarrow> env \<Rightarrow> unit + u64 option \<Rightarrow> trace \<Rightarrow> (rx_exit \<times> info_report list \<times> trace) option" where
  "info_run M J E res w =
     (case res of
        Inl _ \<Rightarrow> Some (Exit_Usage, [], w)
      | Inr sn \<Rightarrow> do {
          (ndev, w) \<leftarrow> scan_devices E w;
          if ndev = 0 then Some (Exit_Failure, [], w)
          else (case sn of
            Some v \<Rightarrow> do {
              (r, dv, L, w) \<leftarrow> airspyhf_open_sn M J E v iq_lib0 w;
              if r \<noteq> AIRSPYHF_SUCCESS then Some (Exit_Failure, [], w)
              else (case dv of
                None \<Rightarrow> Some (Exit_Success, [], w)
              | Some (lib, d) \<Rightarrow> do {
                  (rep, w) \<leftarrow> info_print E lib d w;
                  Some (Exit_Success, [rep], w)
                })
            }
          | None \<Rightarrow> do {
              (p, serials, w) \<leftarrow> read_serials E ndev w;
              (case serials of
                 None \<Rightarrow> Some (Exit_Success, [], w)
               | Some ss \<Rightarrow> do {
                   (reps, w) \<leftarrow> info_loop M J E ss iq_lib0 w;
                   Some (Exit_Success, reps, free p w)
                 })
            })
        })"

definition info_main ::
  "libm \<Rightarrow> iq_junk \<Rightarrow> env \<Rightarrow> info_option list \<Rightarrow> trace \<Rightarrow> (rx_exit \<times> info_report list \<times> trace) option" where
  "info_main M J E args w = info_options args None \<bind> (\<lambda>res. info_run M J E res w)"

section \<open>\<open>airspyhf_lib_version\<close>\<close>

definition lib_version_main :: "rx_exit \<times> (u32 \<times> u32 \<times> u32)" where
  "lib_version_main =
     (Exit_Success, (major_version airspyhf_lib_version, minor_version airspyhf_lib_version,
        revision airspyhf_lib_version))"

end
