(* ===== verification/Convert.thy ===== *)
theory Convert
  imports Device
begin

text \<open>
  The conversion of a block of received samples in \<open>airspyhf.c\<close>: scaling to \<open>float\<close>, the
  IQ correction for zero-IF sample rates, and the fine tuning rotator.
\<close>

definition multiply_complex_complex :: "complex_t \<Rightarrow> complex_t \<Rightarrow> complex_t" where
  "multiply_complex_complex a b =
     \<lparr>re = sub32 (mul32 (re a) (re b)) (mul32 (im a) (im b)),
      im = add32 (mul32 (im a) (re b)) (mul32 (re a) (im b))\<rparr>"

definition multiply_complex_real :: "complex_t \<Rightarrow> cflt \<Rightarrow> complex_t" where
  "multiply_complex_real a b = \<lparr>re = mul32 (re a) b, im = mul32 (im a) b\<rparr>"

definition rotate_complex :: "complex_t \<Rightarrow> complex_t \<Rightarrow> complex_t" where
  "rotate_complex v rot =
     (let v = multiply_complex_complex v rot;
          norm = sub32 (f32 (199 / 100)) (add32 (mul32 (re v) (re v)) (mul32 (im v) (im v)))
      in multiply_complex_real v norm)"

text \<open>\<open>M_PI\<close> as glibc defines it.\<close>

definition M_PI :: cflt where
  "M_PI = f64 (314159265358979323846 / 100000000000000000000)"

definition conversion_gain :: "cflt \<Rightarrow> cflt" where
  "conversion_gain gain = mul32 (div32 (f32 1) (int32f 32768)) gain"

definition convert_sample :: "cflt \<Rightarrow> airspyhf_complex_int16 \<Rightarrow> complex_t" where
  "convert_sample gain x =
     \<lparr>re = mul32 (int32f (sint (re16 x))) gain, im = mul32 (int32f (sint (im16 x))) gain\<rparr>"

definition tuning_rot :: "libm \<Rightarrow> airspyhf_device \<Rightarrow> complex_t" where
  "tuning_rot M d =
     (let angle = div64 (mul64 (mul64 (f64 2) M_PI) (freq_shift d))
                        (int64f (uint (current_samplerate d)))
      in \<lparr>re = to_f32 (m_cos M angle), im = to_f32 (fneg (m_sin M angle))\<rparr>)"

text \<open>The fine tuning loop: the running phasor and the rotated samples.\<close>

fun fine_tune :: "complex_t \<Rightarrow> complex_t \<Rightarrow> complex_t list \<Rightarrow> complex_t list \<times> complex_t" where
  "fine_tune rot v [] = ([], v)"
| "fine_tune rot v (x # xs) =
     (let v = rotate_complex v rot;
          (ys, v') = fine_tune rot v xs
      in (multiply_complex_complex x v # ys, v'))"

text \<open>
  \<open>convert_samples(device, src, device->output_buffer, count)\<close>: the output samples and the
  device. A null output buffer, fewer samples than \<open>count\<close>, or a missing balancer would be
  dereferenced.
\<close>

definition convert_samples ::
  "libm \<Rightarrow> iq_lib \<Rightarrow> airspyhf_device \<Rightarrow> samples16 \<Rightarrow> nat \<Rightarrow>
   (complex_t list \<times> airspyhf_device) option" where
  "convert_samples M L d src cnt =
     (if output_buffer d = NULL \<or> length src < cnt then None
      else do {
        let dest = map (convert_sample (conversion_gain (filter_gain d))) (take cnt src);
        if enable_dsp d = 0 then Some (dest, d)
        else do {
          (dest, d) \<leftarrow>
             (if is_low_if d = 0 then do {
                b \<leftarrow> iq_balancer d;
                (dest, b) \<leftarrow> iq_balancer_process M L dest cnt False b;
                Some (dest, d\<lparr>iq_balancer := Some b\<rparr>)
              } else Some (dest, d));
          if flt_eq (freq_shift d) (Zero False) then Some (dest, d)
          else do {
            let (dest, v) = fine_tune (tuning_rot M d) (vec d) dest;
            Some (dest, d\<lparr>vec := v\<rparr>)
          }
        }
      })"

lemma length_fine_tune [simp]: "length (fst (fine_tune rot v xs)) = length xs"
  by (induction xs arbitrary: v) (simp_all add: Let_def case_prod_unfold)

text \<open>The conversion touches no field the threads synchronise through.\<close>

lemma convert_samples_stream_view:
  assumes "convert_samples M L d src n = Some (out, d')"
  shows "stream_view d' = stream_view d"
  using assms
  by (auto simp: convert_samples_def stream_view_def Let_def split: if_splits bind_splits prod.splits)

end
