(* ===== verification/Streaming.thy ===== *)
theory Streaming
  imports Stream_Control Convert
begin

text \<open>
  The running stream: the USB host fills the buffers of submitted transfers, the transfer
  thread runs their callbacks, the consumer thread converts buffers and calls the
  application, the application thread may use the control operations and stops the stream.
  Each rule of \<open>stream_step\<close> is what one of them does between two points at which another
  may run. The flags \<open>streaming\<close> and \<open>stop_requested\<close> are read and written without a lock:
  every such access is a step of its own, also where a condition reads both. What only one
  thread accesses, or is accessed under the mutex only, needs no more than one step for each
  section. \<open>received\<close>, \<open>delivered\<close>, \<open>outputs\<close>, \<open>drops\<close> and \<open>stale\<close> are history variables.
\<close>

section \<open>States\<close>

datatype consumer_pc =
    C_Start                \<comment> \<open>about to take the mutex for the first time\<close>
  | C_While                \<comment> \<open>at the outer loop, about to read \<open>streaming\<close>\<close>
  | C_While_stop           \<comment> \<open>it was true; about to read \<open>stop_requested\<close>\<close>
  | C_Empty                \<comment> \<open>at the inner loop, about to read the count of buffers\<close>
  | C_Inner                \<comment> \<open>it was 0; about to read \<open>streaming\<close>\<close>
  | C_Inner_stop           \<comment> \<open>it was true; about to read \<open>stop_requested\<close>\<close>
  | C_Waiting              \<comment> \<open>in \<open>pthread_cond_wait\<close>\<close>
  | C_Woken                \<comment> \<open>about to take the mutex again\<close>
  | C_If                   \<comment> \<open>behind the inner loop, about to read \<open>streaming\<close>\<close>
  | C_If_stop              \<comment> \<open>it was true; about to read \<open>stop_requested\<close>\<close>
  | C_Have ptr u32         \<comment> \<open>has \<open>input_samples\<close> and has left the mutex\<close>
  | C_Convert ptr u32      \<comment> \<open>in \<open>convert_samples\<close>\<close>
  | C_Failed               \<comment> \<open>the application's callback has returned an error\<close>
  | C_Called               \<comment> \<open>about to take the mutex and give the slot back\<close>
  | C_Break                \<comment> \<open>has left the loops, still with the mutex\<close>
  | C_Exit

datatype transfer_pc =
    T_While                \<comment> \<open>at the loop, about to read \<open>streaming\<close>\<close>
  | T_While_stop           \<comment> \<open>it was true; about to read \<open>stop_requested\<close>\<close>
  | T_Events               \<comment> \<open>in \<open>libusb_handle_events\<close>\<close>
  | T_Entered nat bool     \<comment> \<open>in the callback of a transfer, about to read \<open>stop_requested\<close>\<close>
  | T_Locked nat           \<comment> \<open>in the callback, about to take the mutex\<close>
  | T_Submit nat           \<comment> \<open>in the callback, about to submit again\<close>
  | T_Failed               \<comment> \<open>in the callback of a failed transfer\<close>
  | T_Error                \<comment> \<open>\<open>libusb_handle_events\<close> has reported an error\<close>
  | T_End                  \<comment> \<open>has left the loop\<close>
  | T_Exit

datatype main_pc =
    M_Run
  | M_Stop                 \<comment> \<open>\<open>airspyhf_stop\<close> has set \<open>stop_requested\<close>\<close>
  | M_Clear                \<comment> \<open>\<open>kill_io_threads\<close> has cleared it again\<close>
  | M_Cancel               \<comment> \<open>and has cleared \<open>streaming\<close>\<close>
  | M_Join                 \<comment> \<open>and has signalled the consumer\<close>
  | M_Done                 \<comment> \<open>both threads are joined\<close>

text \<open>
  \<open>disturbed\<close>: a control operation has written what the conversion reads while it was under
  way. \<open>stale\<close>: the number of blocks delivered before the consumer first took a slot of an
  empty queue.
\<close>

record stream_sys =
  dev :: airspyhf_device
  memory :: "ptr \<Rightarrow> samples16"
  cpc :: consumer_pc
  tpc :: transfer_pc
  mpc :: main_pc
  submitted :: "nat set"
  disturbed :: bool
  received :: "(samples16 \<times> u32) list"
  delivered :: "(samples16 \<times> u32) list"
  outputs :: "airspyhf_transfer_t list"
  drops :: nat
  stale :: "nat option"

definition block_samples :: "airspyhf_device \<Rightarrow> nat" where
  "block_samples d = buffer_size d div sizeof_complex_int16"

text \<open>The block \<open>consumer_threadproc\<close> hands to the application.\<close>

definition make_transfer :: "complex_t list \<Rightarrow> nat \<Rightarrow> u32 \<Rightarrow> airspyhf_transfer_t" where
  "make_transfer out cnt dropped =
     \<lparr>samples = out, sample_count = int cnt,
      dropped_samples = ucast dropped * (of_nat cnt :: u64)\<rparr>"

definition wake :: "consumer_pc \<Rightarrow> consumer_pc" where
  "wake c = (if c = C_Waiting then C_Woken else c)"

text \<open>The points at which the consumer thread holds the mutex.\<close>

fun consumer_locks :: "consumer_pc \<Rightarrow> bool" where
  "consumer_locks c = (c \<in> {C_While, C_While_stop, C_Empty, C_Inner, C_Inner_stop, C_If, C_If_stop, C_Break})"

text \<open>
  The conditions of \<open>consumer_threadproc\<close>, one access at a time:
  \<open>while (streaming && !stop_requested)\<close>,
  \<open>while (received_buffer_count == 0 && streaming && !stop_requested)\<close>,
  \<open>if (!streaming || stop_requested) break\<close>. When the last one fails the consumer takes a slot.
\<close>

fun consumer_test :: "airspyhf_device \<Rightarrow> consumer_pc \<Rightarrow> consumer_pc option" where
  "consumer_test d C_Start = Some C_While"
| "consumer_test d C_While = Some (if streaming d then C_While_stop else C_Break)"
| "consumer_test d C_While_stop = Some (if stop_requested d then C_Break else C_Empty)"
| "consumer_test d C_Empty = Some (if received_buffer_count d = 0 then C_Inner else C_If)"
| "consumer_test d C_Inner = Some (if streaming d then C_Inner_stop else C_If)"
| "consumer_test d C_Inner_stop = Some (if stop_requested d then C_If else C_Waiting)"
| "consumer_test d C_Woken = Some C_Empty"
| "consumer_test d C_If = Some (if streaming d then C_If_stop else C_Break)"
| "consumer_test d C_If_stop = (if stop_requested d then Some C_Break else None)"
| "consumer_test d _ = None"

text \<open>
  The conditions of \<open>transfer_threadproc\<close> and the second one of the callback, and the places
  where the thread clears \<open>streaming\<close>, each with what comes next.
\<close>

fun transfer_test :: "airspyhf_device \<Rightarrow> transfer_pc \<Rightarrow> transfer_pc option" where
  "transfer_test d T_While = Some (if streaming d then T_While_stop else T_End)"
| "transfer_test d T_While_stop = Some (if stop_requested d then T_End else T_Events)"
| "transfer_test d (T_Entered i good) =
     Some (if stop_requested d then T_Events else if good then T_Locked i else T_Failed)"
| "transfer_test d _ = None"

fun transfer_clears :: "transfer_pc \<Rightarrow> transfer_pc option" where
  "transfer_clears T_Failed = Some T_Events"
| "transfer_clears T_Error = Some T_While"
| "transfer_clears T_End = Some T_Exit"
| "transfer_clears _ = None"

text \<open>
  The beginning of the callback: the completion is counted; the whole and error-free transfer
  is what goes on. libusb runs the callbacks of a device one at a time, so that
  \<open>transfer_live\<close> has one writer.
\<close>

definition callback_count :: "airspyhf_device \<Rightarrow> airspyhf_device" where
  "callback_count d = d\<lparr>transfer_live := transfer_live d - 1\<rparr>"

definition callback_good :: "libusb_transfer \<Rightarrow> bool \<Rightarrow> int \<Rightarrow> bool" where
  "callback_good x completed actual_length \<longleftrightarrow> completed \<and> actual_length = int (xfer_length x)"

text \<open>The parts in a row, with nothing in between, are the beginning as sequential code.\<close>

lemma callback_enter_parts:
  "callback_enter x ok n d =
     (let d = callback_count d in
      if streaming d then
        (case transfer_test d (T_Entered i (callback_good x ok n)) of
           Some (T_Locked _) \<Rightarrow> (True, d)
         | Some T_Failed \<Rightarrow> (False, d\<lparr>streaming := False\<rparr>)
         | _ \<Rightarrow> (False, d))
      else (False, d))"
  by (simp add: callback_enter_def callback_count_def callback_good_def Let_def)

text \<open>What the conversion reads and writes besides the buffers.\<close>

definition conv_view where
  "conv_view d = (enable_dsp d, is_low_if d, filter_gain d, freq_shift d, current_samplerate d, vec d, iq_balancer d)"

lemma convert_samples_reads:
  assumes "conv_view d' = conv_view d" and "output_buffer d' = output_buffer d"
  shows "map_option (\<lambda>(out, e). (out, conv_view e)) (convert_samples M L d' src n) =
         map_option (\<lambda>(out, e). (out, conv_view e)) (convert_samples M L d src n)"
  using assms
  by (auto simp: conv_view_def convert_samples_def tuning_rot_def Let_def split: prod.splits bind_split)

section \<open>Steps\<close>

inductive stream_step :: "libm \<Rightarrow> iq_lib \<Rightarrow> stream_sys \<Rightarrow> stream_sys \<Rightarrow> bool" for M L where
  usb_data:
    "i \<in> submitted s \<Longrightarrow> nth_xfer (dev s) i = Some x \<Longrightarrow>
     stream_step M L s (s\<lparr>memory := (memory s)(xfer_buffer x := data)\<rparr>)"
| transfer_tests:
    "transfer_test (dev s) (tpc s) = Some c \<Longrightarrow> stream_step M L s (s\<lparr>tpc := c\<rparr>)"
| transfer_clear:
    "transfer_clears (tpc s) = Some c \<Longrightarrow>
     stream_step M L s (s\<lparr>dev := (dev s)\<lparr>streaming := False\<rparr>, tpc := c\<rparr>)"
| transfer_return: \<comment> \<open>\<open>libusb_handle_events\<close> returns, with an error or without\<close>
    "tpc s = T_Events \<Longrightarrow> stream_step M L s (s\<lparr>tpc := (if error then T_Error else T_While)\<rparr>)"
| callback_begin:
    "tpc s = T_Events \<Longrightarrow> i \<in> submitted s \<Longrightarrow> nth_xfer (dev s) i = Some x \<Longrightarrow>
     stream_step M L s (s\<lparr>dev := callback_count (dev s), submitted := submitted s - {i},
       tpc := (if streaming (dev s) then T_Entered i (callback_good x ok n) else T_Events)\<rparr>)"
| callback_push:
    "tpc s = T_Locked i \<Longrightarrow> \<not> consumer_locks (cpc s) \<Longrightarrow> \<not> queue_full (dev s) \<Longrightarrow>
     callback_locked i (dev s) = Some d' \<Longrightarrow> nth_xfer (dev s) i = Some x \<Longrightarrow>
     stream_step M L s (s\<lparr>dev := d', tpc := T_Submit i, cpc := wake (cpc s),
       received := received s @ [(memory s (xfer_buffer x), dropped_buffers (dev s))]\<rparr>)"
| callback_drop:
    "tpc s = T_Locked i \<Longrightarrow> \<not> consumer_locks (cpc s) \<Longrightarrow> queue_full (dev s) \<Longrightarrow>
     callback_locked i (dev s) = Some d' \<Longrightarrow>
     stream_step M L s (s\<lparr>dev := d', tpc := T_Submit i, drops := Suc (drops s)\<rparr>)"
| callback_submit:
    "tpc s = T_Submit i \<Longrightarrow>
     stream_step M L s (s\<lparr>dev := callback_resubmit failed (dev s), tpc := T_Events,
       submitted := (if failed then submitted s else insert i (submitted s))\<rparr>)"
| main_events:     \<comment> \<open>the event handling inside \<open>cancel_transfers\<close> and after the joins\<close>
    "mpc s \<in> {M_Cancel, M_Join, M_Done} \<Longrightarrow> i \<in> submitted s \<Longrightarrow> nth_xfer (dev s) i = Some x \<Longrightarrow>
     callback_enter x ok n (dev s) = (False, d') \<Longrightarrow>
     stream_step M L s (s\<lparr>dev := d', submitted := submitted s - {i}\<rparr>)"
| consumer_tests:
    "consumer_test (dev s) (cpc s) = Some c \<Longrightarrow> stream_step M L s (s\<lparr>cpc := c\<rparr>)"
| consumer_wake:   \<comment> \<open>a wait may also end without a signal\<close>
    "cpc s = C_Waiting \<Longrightarrow> stream_step M L s (s\<lparr>cpc := C_Woken\<rparr>)"
| consumer_take:
    "cpc s = C_If_stop \<Longrightarrow> \<not> stop_requested (dev s) \<Longrightarrow> queue_take (dev s) = Some ((p, n), d') \<Longrightarrow>
     stream_step M L s (s\<lparr>dev := d', cpc := C_Have p n,
       stale := (if stale s = None \<and> received_buffer_count (dev s) = 0 then Some (length (delivered s)) else stale s)\<rparr>)"
| consumer_begin:
    "cpc s = C_Have p n \<Longrightarrow> stream_step M L s (s\<lparr>cpc := C_Convert p n, disturbed := False\<rparr>)"
| consumer_process:
    "cpc s = C_Convert p n \<Longrightarrow> \<not> disturbed s \<Longrightarrow>
     convert_samples M L (dev s) (memory s p) (block_samples (dev s)) = Some (out, d') \<Longrightarrow>
     stream_step M L s (s\<lparr>dev := d', cpc := (if r \<noteq> (0 :: int) then C_Failed else C_Called),
       delivered := delivered s @ [(memory s p, n)],
       outputs := outputs s @ [make_transfer out (block_samples (dev s)) n]\<rparr>)"
| consumer_disturbed:  \<comment> \<open>any samples, any effect on the fields of the control operations\<close>
    "cpc s = C_Convert p n \<Longrightarrow> disturbed s \<Longrightarrow> stream_view d' = stream_view (dev s) \<Longrightarrow>
     stream_step M L s (s\<lparr>dev := d', cpc := (if r \<noteq> (0 :: int) then C_Failed else C_Called),
       delivered := delivered s @ [(memory s p, n)],
       outputs := outputs s @ [make_transfer out (block_samples (dev s)) n]\<rparr>)"
| consumer_fail:
    "cpc s = C_Failed \<Longrightarrow> stream_step M L s (s\<lparr>dev := (dev s)\<lparr>streaming := False\<rparr>, cpc := C_Called\<rparr>)"
| consumer_release:
    "cpc s = C_Called \<Longrightarrow> stream_step M L s (s\<lparr>dev := queue_release (dev s), cpc := C_While\<rparr>)"
| consumer_exit:
    "cpc s = C_Break \<Longrightarrow> stream_step M L s (s\<lparr>dev := (dev s)\<lparr>streaming := False\<rparr>, cpc := C_Exit\<rparr>)"
| main_stop:
    "mpc s = M_Run \<Longrightarrow>
     stream_step M L s (s\<lparr>dev := (dev s)\<lparr>stop_requested := True\<rparr>, mpc := M_Stop\<rparr>)"
| main_clear:
    "mpc s = M_Stop \<Longrightarrow>
     stream_step M L s (s\<lparr>dev := (dev s)\<lparr>stop_requested := False\<rparr>, mpc := M_Clear\<rparr>)"
| main_kill:
    "mpc s = M_Clear \<Longrightarrow>
     stream_step M L s (s\<lparr>dev := (dev s)\<lparr>streaming := False\<rparr>, mpc := M_Cancel\<rparr>)"
| main_signal:     \<comment> \<open>under the mutex\<close>
    "mpc s = M_Cancel \<Longrightarrow> \<not> consumer_locks (cpc s) \<Longrightarrow>
     stream_step M L s (s\<lparr>cpc := wake (cpc s), mpc := M_Join\<rparr>)"
| main_join:
    "mpc s = M_Join \<Longrightarrow> tpc s = T_Exit \<Longrightarrow> cpc s = C_Exit \<Longrightarrow>
     stream_step M L s (s\<lparr>mpc := M_Done\<rparr>)"
| control:         \<comment> \<open>any control operation on the other fields; \<open>x\<close>: it writes what a conversion reads\<close>
    "stream_view d' = stream_view (dev s) \<Longrightarrow> x \<or> conv_view d' = conv_view (dev s) \<Longrightarrow>
     stream_step M L s (s\<lparr>dev := d', disturbed := disturbed s \<or> x\<rparr>)"

section \<open>Start states\<close>

definition xfers_ok :: "airspyhf_device \<Rightarrow> bool" where
  "xfers_ok d \<longleftrightarrow> (\<exists>xs. transfers d = Some (map Some xs) \<and> length xs = transfer_count d)"

definition xfer_buffers :: "airspyhf_device \<Rightarrow> ptr list" where
  "xfer_buffers d = map (\<lambda>i. xfer_buffer (the (nth_xfer d i))) [0..<transfer_count d]"

text \<open>Every buffer of the stream, in the queue's slots and in the transfers.\<close>

definition all_buffers :: "airspyhf_device \<Rightarrow> ptr list" where
  "all_buffers d = received_samples_queue d @ xfer_buffers d"

text \<open>The device as \<open>create_io_threads\<close> leaves it on success, all transfers submitted.\<close>

definition stream_ready :: "airspyhf_device \<Rightarrow> bool" where
  "stream_ready d \<longleftrightarrow>
     xfers_ok d \<and> distinct (all_buffers d) \<and>
     length (received_samples_queue d) = 8 \<and> length (dropped_buffers_queue d) = 8 \<and>
     received_samples_queue_head d = 0 \<and> received_samples_queue_tail d = 0 \<and>
     received_buffer_count d = 0 \<and> dropped_buffers d = 0 \<and>
     transfer_live d = int (transfer_count d)"

definition stream_init :: "airspyhf_device \<Rightarrow> (ptr \<Rightarrow> samples16) \<Rightarrow> stream_sys" where
  "stream_init d mem =
     \<lparr>dev = d, memory = mem, cpc = C_Start, tpc = T_While, mpc = M_Run,
      submitted = {0..<transfer_count d}, disturbed = False, received = [], delivered = [], outputs = [],
      drops = 0, stale = None\<rparr>"

inductive stream_reachable :: "libm \<Rightarrow> iq_lib \<Rightarrow> stream_sys \<Rightarrow> bool" for M L where
  reach_init: "stream_ready d \<Longrightarrow> stream_reachable M L (stream_init d mem)"
| reach_step: "stream_reachable M L s \<Longrightarrow> stream_step M L s t \<Longrightarrow> stream_reachable M L t"

end
