(* ===== verification/Stream_Invariants.thy ===== *)
theory Stream_Invariants
  imports Streaming
begin

text \<open>
  Invariants of the running stream. \<open>stream_wf\<close> is the structural invariant (ring indices,
  ownership of every buffer, transfers in flight), which holds in every interleaving.
  \<open>fifo_ok\<close> relates the blocks received to those delivered; the queue's laws enter it through
  the interpretation \<open>rawq\<close>, and it holds as long as the consumer has not taken a slot of an
  empty queue. \<open>window_ok\<close> says when that can happen, \<open>drops_ok\<close> accounts for dropped buffers,
  \<open>shutdown_ok\<close> is what \<open>airspyhf_stop\<close> relies on.
\<close>

section \<open>Congruence: which fields the abstractions read\<close>

definition queue_view :: "airspyhf_device \<Rightarrow> u32 list \<times> ptr list \<times> int \<times> int \<times> int" where
  "queue_view d = (dropped_buffers_queue d, received_samples_queue d,
     received_samples_queue_head d, received_samples_queue_tail d, received_buffer_count d)"

definition xfer_view :: "airspyhf_device \<Rightarrow> libusb_transfer option list option \<times> nat" where
  "xfer_view d = (transfers d, transfer_count d)"

lemma queue_cong:
  assumes "queue_view d' = queue_view d"
  shows "queue_inv d' h = queue_inv d h" and "queue_items d' h = queue_items d h"
    and "queue_held d' h = queue_held d h" and "queue_full d' = queue_full d"
    and "received_samples_queue d' = received_samples_queue d"
    and "received_buffer_count d' = received_buffer_count d"
    and "queue_shape d' = queue_shape d"
proof -
  have "slot d' = slot d" using assms by (intro ext) (simp add: queue_view_def slot_def)
  then show "queue_inv d' h = queue_inv d h" "queue_items d' h = queue_items d h"
    "queue_held d' h = queue_held d h" "queue_full d' = queue_full d"
    "received_samples_queue d' = received_samples_queue d"
    "received_buffer_count d' = received_buffer_count d" "queue_shape d' = queue_shape d"
    using assms
    by (simp_all add: queue_view_def queue_inv_def queue_items_def queue_held_def queue_full_def queue_shape_def)
qed

lemma xfer_cong:
  assumes "xfer_view d' = xfer_view d"
  shows "xfers_ok d' = xfers_ok d" and "nth_xfer d' i = nth_xfer d i"
    and "xfer_buffers d' = xfer_buffers d" and "transfer_count d' = transfer_count d"
proof -
  have e: "nth_xfer d' = nth_xfer d"
    using assms by (intro ext) (simp add: xfer_view_def nth_xfer_def)
  show "xfers_ok d' = xfers_ok d" "nth_xfer d' i = nth_xfer d i"
    "xfer_buffers d' = xfer_buffers d" "transfer_count d' = transfer_count d"
    using assms e by (simp_all add: xfer_view_def xfers_ok_def xfer_buffers_def)
qed

lemma stream_view_views:
  "stream_view d' = stream_view d \<Longrightarrow> queue_view d' = queue_view d \<and> xfer_view d' = xfer_view d"
  by (simp add: stream_view_eq_iff queue_view_def xfer_view_def)

lemma flag_updates [frame_simps]:
  "queue_view (d\<lparr>streaming := b\<rparr>) = queue_view d" "xfer_view (d\<lparr>streaming := b\<rparr>) = xfer_view d"
  "queue_view (d\<lparr>stop_requested := b\<rparr>) = queue_view d"
  "xfer_view (d\<lparr>stop_requested := b\<rparr>) = xfer_view d"
  "queue_view (d\<lparr>transfer_live := n\<rparr>) = queue_view d"
  "xfer_view (d\<lparr>transfer_live := n\<rparr>) = xfer_view d"
  "queue_view (d\<lparr>dropped_buffers := m\<rparr>) = queue_view d"
  "xfer_view (d\<lparr>dropped_buffers := m\<rparr>) = xfer_view d"
  "xfer_view (queue_release d) = xfer_view d"
  by (simp_all add: queue_view_def xfer_view_def queue_release_def)

lemmas queue_flag_simps [simp] = flag_updates(1,3,5,7) [THEN queue_cong(1)]
  flag_updates(1,3,5,7) [THEN queue_cong(2)] flag_updates(1,3,5,7) [THEN queue_cong(3)]
  flag_updates(1,3,5,7) [THEN queue_cong(4)] flag_updates(1,3,5,7) [THEN queue_cong(7)]

lemmas xfer_flag_simps [simp] = flag_updates(2,4,6,8,9) [THEN xfer_cong(1)]
  flag_updates(2,4,6,8,9) [THEN xfer_cong(2)] flag_updates(2,4,6,8,9) [THEN xfer_cong(3)]
  flag_updates(2,4,6,8,9) [THEN xfer_cong(4)]

section \<open>Transfers\<close>

lemma nth_xfer_ok:
  "xfers_ok d \<Longrightarrow> i < transfer_count d \<Longrightarrow> \<exists>x. nth_xfer d i = Some x"
  by (auto simp: xfers_ok_def nth_xfer_def)

lemma nth_xfer_Some_bound: "xfers_ok d \<Longrightarrow> nth_xfer d i = Some x \<Longrightarrow> i < transfer_count d"
  by (auto simp: xfers_ok_def nth_xfer_def rd_def split: if_splits)

lemma xfer_buffers_nth: "nth_xfer d i = Some x \<Longrightarrow> i < transfer_count d \<Longrightarrow> xfer_buffers d ! i = xfer_buffer x"
  by (simp add: xfer_buffers_def)

lemma length_xfer_buffers [simp]: "length (xfer_buffers d) = transfer_count d"
  by (simp add: xfer_buffers_def)

lemma nth_set_xfer:
  assumes "xfers_ok d" and "i < transfer_count d"
  shows "nth_xfer (set_xfer i x d) j = (if j = i then Some x else nth_xfer d j)"
  using assms by (auto simp: xfers_ok_def nth_xfer_def set_xfer_def rd_def)

lemma xfers_ok_set_xfer: "xfers_ok d \<Longrightarrow> xfers_ok (set_xfer i x d)"
proof -
  assume "xfers_ok d"
  then obtain xs where "transfers d = Some (map Some xs)" and "length xs = transfer_count d"
    by (auto simp: xfers_ok_def)
  then have "transfers (set_xfer i x d) = Some (map Some (xs[i := x]))"
    and "length (xs[i := x]) = transfer_count (set_xfer i x d)"
    by (simp_all add: set_xfer_def map_update)
  then show ?thesis unfolding xfers_ok_def by blast
qed

lemma set_xfer_frame [simp]:
  "queue_view (set_xfer i x d) = queue_view d"
  "transfer_count (set_xfer i x d) = transfer_count d"
  "dropped_buffers (set_xfer i x d) = dropped_buffers d"
  "received_samples_queue (set_xfer i x d) = received_samples_queue d"
  "transfer_live (set_xfer i x d) = transfer_live d"
  "streaming (set_xfer i x d) = streaming d"
  "stop_requested (set_xfer i x d) = stop_requested d"
  by (simp_all add: set_xfer_def queue_view_def)

lemma xfer_buffers_set_xfer:
  assumes "xfers_ok d" and "i < transfer_count d"
  shows "xfer_buffers (set_xfer i x d) = (xfer_buffers d)[i := xfer_buffer x]"
  using assms by (intro nth_equalityI) (auto simp: xfer_buffers_def nth_set_xfer nth_list_update)

lemma queue_push_xfer_view:
  "queue_push b d = Some (t, d') \<Longrightarrow> xfer_view d' = xfer_view d \<and> dropped_buffers d' = 0
     \<and> streaming d' = streaming d \<and> stop_requested d' = stop_requested d \<and> transfer_live d' = transfer_live d
     \<and> buffer_size d' = buffer_size d"
  by (auto simp: queue_push_def xfer_view_def split: bind_splits)


text \<open>
  The locked part of the callback with room in the queue: it never fails, it permutes the
  buffers of the stream, and it appends the transfer's buffer to a queue that is in order.
\<close>

lemma callback_locked_shape:
  assumes shape: "queue_shape d" and room: "\<not> queue_full d" and ok: "xfers_ok d"
    and x: "nth_xfer d i = Some x"
  obtains d' where "callback_locked i d = Some d'" and "queue_shape d'" and "xfers_ok d'"
    and "mset (all_buffers d') = mset (all_buffers d)"
    and "transfer_count d' = transfer_count d" and "transfer_live d' = transfer_live d"
    and "dropped_buffers d' = 0" and "streaming d' = streaming d"
    and "stop_requested d' = stop_requested d"
    and "queue_view d' = queue_view (pushed (xfer_buffer x) d)"
proof -
  have i: "i < transfer_count d" using nth_xfer_Some_bound [OF ok x] .
  define t where "t = received_samples_queue d ! nat (received_samples_queue_head d)"
  define e where "e = pushed (xfer_buffer x) d"
  have e: "queue_push (xfer_buffer x) d = Some (t, e)" "queue_shape e"
    using queue_push_shape [OF shape room, of "xfer_buffer x"] by (simp_all add: t_def e_def)
  have owned: "add_mset t (queue_owned e) = add_mset (xfer_buffer x) (queue_owned d)"
    by (rule queue_push_shape_owned [OF shape room e(1)])
  note ev = queue_push_xfer_view [OF e(1)]
  then have view: "xfer_view e = xfer_view d" by simp
  note ec = xfer_cong [OF view]
  let ?d = "set_xfer i (x\<lparr>xfer_buffer := t\<rparr>) e"
  have "add_mset (xfer_buffer x) (mset ((xfer_buffers d)[i := t])) = add_mset t (mset (xfer_buffers d))"
    using nth_list_update_distinct_mset [of i "xfer_buffers d" t] xfer_buffers_nth [OF x i] i by simp
  moreover have "xfer_buffers ?d = (xfer_buffers d)[i := t]"
    using ok i ec by (simp add: xfer_buffers_set_xfer)
  ultimately have bufs: "add_mset (xfer_buffer x) (mset (xfer_buffers ?d)) = add_mset t (mset (xfer_buffers d))"
    by simp
  have "add_mset (xfer_buffer x) (add_mset t (mset (all_buffers ?d))) =
        add_mset t (queue_owned e) + add_mset (xfer_buffer x) (mset (xfer_buffers ?d))"
    by (simp add: all_buffers_def queue_owned_def)
  also have "\<dots> = add_mset (xfer_buffer x) (add_mset t (mset (all_buffers d)))"
    unfolding owned bufs by (simp add: all_buffers_def queue_owned_def)
  finally have "mset (all_buffers ?d) = mset (all_buffers d)" by simp
  moreover have "callback_locked i d = Some ?d"
    using room x e(1) by (simp add: callback_locked_def)
  moreover have "xfers_ok ?d" using ok ec by (simp add: xfers_ok_set_xfer)
  moreover have "queue_shape ?d"
    using e(2) set_xfer_frame(1) [of i "x\<lparr>xfer_buffer := t\<rparr>" e] by (simp add: queue_shape_def queue_view_def)
  ultimately show thesis
    using ev ec(4) by (intro that [of ?d]) (simp_all add: e_def)
qed

lemma callback_locked_push:
  assumes inv: "queue_inv d h" and room: "\<not> queue_full d"
    and view: "queue_view d' = queue_view (pushed (xfer_buffer x) d)"
  shows "queue_inv d' h"
    and "queue_items d' h = queue_items d h @ [(xfer_buffer x, dropped_buffers d)]"
    and "queue_held d' h = queue_held d h"
proof -
  from rawq.push_law [OF inv room, of "xfer_buffer x"] queue_push_shape(1) [OF queue_inv_shape [OF inv] room]
  have "queue_inv (pushed (xfer_buffer x) d) h"
    "queue_items (pushed (xfer_buffer x) d) h = queue_items d h @ [queue_stamp (xfer_buffer x) d]"
    "queue_held (pushed (xfer_buffer x) d) h = queue_held d h"
    by auto
  then show "queue_inv d' h" "queue_held d' h = queue_held d h"
    "queue_items d' h = queue_items d h @ [(xfer_buffer x, dropped_buffers d)]"
    by (simp_all add: queue_cong [OF view] queue_stamp_def)
qed

lemma callback_locked_full:
  "queue_full d \<Longrightarrow> callback_locked i d = Some (d\<lparr>dropped_buffers := dropped_buffers d + 1\<rparr>)"
  by (simp add: callback_locked_def)

lemma callback_enter_view:
  assumes "callback_enter x ok n d = (go, d')"
  shows "queue_view d' = queue_view d" and "xfer_view d' = xfer_view d"
    and "dropped_buffers d' = dropped_buffers d" and "transfer_live d' = transfer_live d - 1"
    and "streaming d' \<Longrightarrow> streaming d" and "stop_requested d' = stop_requested d"
  using assms by (auto simp: callback_enter_def Let_def queue_view_def xfer_view_def split: if_splits)

lemma callback_resubmit_view [simp]:
  "queue_view (callback_resubmit f d) = queue_view d"
  "xfer_view (callback_resubmit f d) = xfer_view d"
  "dropped_buffers (callback_resubmit f d) = dropped_buffers d"
  "streaming (callback_resubmit f d) = (\<not> f \<and> streaming d)"
  "stop_requested (callback_resubmit f d) = stop_requested d"
  "transfer_live (callback_resubmit f d) = (if f then transfer_live d else transfer_live d + 1)"
  by (simp_all add: callback_resubmit_def queue_view_def xfer_view_def)

section \<open>The structural invariant\<close>

fun holding :: "consumer_pc \<Rightarrow> nat" where
  "holding (C_Have _ _) = 1"
| "holding (C_Convert _ _) = 1"
| "holding C_Failed = 1"
| "holding C_Called = 1"
| "holding _ = 0"

lemma holding_wake [simp]: "holding (wake c) = holding c"
  by (simp add: wake_def)

lemma consumer_test_holding:
  "consumer_test d c = Some c' \<Longrightarrow> holding c = 0 \<and> holding c' = 0"
  by (cases c) (auto split: if_splits)

text \<open>The blocks received and not yet handed to the application, oldest first.\<close>

fun in_hand :: "consumer_pc \<Rightarrow> (ptr \<times> u32) list" where
  "in_hand (C_Have p n) = [(p, n)]"
| "in_hand (C_Convert p n) = [(p, n)]"
| "in_hand _ = []"

lemma in_hand_wake [simp]: "in_hand (wake c) = in_hand c"
  by (simp add: wake_def)

lemma consumer_test_in_hand:
  "consumer_test d c = Some c' \<Longrightarrow> in_hand c = [] \<and> in_hand c' = []"
  by (cases c) (auto split: if_splits)

definition backlog :: "stream_sys \<Rightarrow> (ptr \<times> u32) list" where
  "backlog s = in_hand (cpc s) @ queue_items (dev s) (holding (cpc s))"

fun busy_xfer :: "transfer_pc \<Rightarrow> nat option" where
  "busy_xfer (T_Entered i _) = Some i"
| "busy_xfer (T_Locked i) = Some i"
| "busy_xfer (T_Submit i) = Some i"
| "busy_xfer _ = None"

lemma transfer_test_busy:
  "transfer_test d c = Some c' \<Longrightarrow> busy_xfer c' = None \<or> busy_xfer c' = busy_xfer c"
  by (cases c) (auto split: if_splits)

lemma transfer_clears_busy: "transfer_clears c = Some c' \<Longrightarrow> busy_xfer c = None \<and> busy_xfer c' = None"
  by (cases c) auto

definition stream_wf :: "stream_sys \<Rightarrow> bool" where
  "stream_wf s \<longleftrightarrow>
     queue_shape (dev s) \<and> xfers_ok (dev s) \<and> distinct (all_buffers (dev s)) \<and>
     submitted s \<subseteq> {..<transfer_count (dev s)} \<and>
     (\<forall>i. busy_xfer (tpc s) = Some i \<longrightarrow> i < transfer_count (dev s) \<and> i \<notin> submitted s) \<and>
     transfer_live (dev s) = int (card (submitted s))"

lemma all_buffers_cong:
  assumes "queue_view d' = queue_view d" and "xfer_view d' = xfer_view d"
  shows "all_buffers d' = all_buffers d"
  using queue_cong(5) [OF assms(1)] xfer_cong(3) [OF assms(2)] by (simp add: all_buffers_def)

lemmas all_buffers_flag_simps [simp] = all_buffers_cong [OF flag_updates(1,2)]
  all_buffers_cong [OF flag_updates(3,4)] all_buffers_cong [OF flag_updates(5,6)]
  all_buffers_cong [OF flag_updates(7,8)]

text \<open>Steps that change neither queue nor transfers keep the invariant.\<close>

lemma stream_wf_frame:
  assumes "stream_wf s" and "queue_view (dev t) = queue_view (dev s)"
    and "xfer_view (dev t) = xfer_view (dev s)"
    and "transfer_live (dev t) = int (card (submitted t))"
    and "submitted t \<subseteq> {..<transfer_count (dev s)}"
    and "\<And>i. busy_xfer (tpc t) = Some i \<Longrightarrow> i < transfer_count (dev s) \<and> i \<notin> submitted t"
  shows "stream_wf t"
proof -
  note cong = queue_cong [OF assms(2)] xfer_cong [OF assms(3)] all_buffers_cong [OF assms(2,3)]
  show ?thesis using assms(1,4-) unfolding stream_wf_def by (auto simp: cong)
qed

lemma stream_wf_finite: "stream_wf s \<Longrightarrow> finite (submitted s)"
  unfolding stream_wf_def by (meson finite_lessThan finite_subset)

text \<open>A completion: one transfer less in flight, one less counted.\<close>

lemma stream_wf_complete:
  assumes wf: "stream_wf s" and i: "i \<in> submitted s"
    and "queue_view (dev t) = queue_view (dev s)" "xfer_view (dev t) = xfer_view (dev s)"
    and "transfer_live (dev t) = transfer_live (dev s) - 1" "submitted t = submitted s - {i}"
    and "busy_xfer (tpc t) = None \<or> busy_xfer (tpc t) = Some i \<or> tpc t = tpc s"
  shows "stream_wf t"
proof (rule stream_wf_frame [OF wf assms(3,4)])
  have "card (submitted s) > 0" using i stream_wf_finite [OF wf] by (auto simp: card_gt_0_iff)
  then show "transfer_live (dev t) = int (card (submitted t))"
    using assms stream_wf_finite [OF wf] by (simp add: stream_wf_def)
qed (use assms in \<open>auto simp: stream_wf_def\<close>)

lemma callback_count_view [simp]:
  "queue_view (callback_count d) = queue_view d" "xfer_view (callback_count d) = xfer_view d"
  "dropped_buffers (callback_count d) = dropped_buffers d" "streaming (callback_count d) = streaming d"
  "stop_requested (callback_count d) = stop_requested d" "buffer_size (callback_count d) = buffer_size d"
  "transfer_live (callback_count d) = transfer_live d - 1"
  by (simp_all add: callback_count_def queue_view_def xfer_view_def)

lemma locked_push_wf:
  assumes wf: "stream_wf s" and t: "tpc s = T_Locked i" and room: "\<not> queue_full (dev s)"
    and c: "callback_locked i (dev s) = Some d'" and x: "nth_xfer (dev s) i = Some x"
  shows "queue_shape d'" "xfers_ok d'" "mset (all_buffers d') = mset (all_buffers (dev s))"
    "transfer_count d' = transfer_count (dev s)" "transfer_live d' = transfer_live (dev s)"
    "dropped_buffers d' = 0" "streaming d' = streaming (dev s)" "stop_requested d' = stop_requested (dev s)"
    "queue_view d' = queue_view (pushed (xfer_buffer x) (dev s))"
proof -
  have "queue_shape (dev s)" "xfers_ok (dev s)" using wf by (simp_all add: stream_wf_def)
  from callback_locked_shape [OF this(1) room this(2) x] c
  show "queue_shape d'" "xfers_ok d'" "mset (all_buffers d') = mset (all_buffers (dev s))"
    "transfer_count d' = transfer_count (dev s)" "transfer_live d' = transfer_live (dev s)"
    "dropped_buffers d' = 0" "streaming d' = streaming (dev s)" "stop_requested d' = stop_requested (dev s)"
    "queue_view d' = queue_view (pushed (xfer_buffer x) (dev s))"
    by (metis option.inject)+
qed

text \<open>Taking a slot moves the tail only, giving it back the count only.\<close>

lemma queue_take_frame:
  assumes "queue_shape d" and "queue_take d = Some ((p, n), d')"
  shows "d' = d\<lparr>received_samples_queue_tail := (received_samples_queue_tail d + 1) mod 8\<rparr>"
    and "(p, n) = slot d (received_samples_queue_tail d)"
    and "queue_shape d'" "xfer_view d' = xfer_view d" "all_buffers d' = all_buffers d"
    "transfer_live d' = transfer_live d" "dropped_buffers d' = dropped_buffers d"
proof -
  show d: "d' = d\<lparr>received_samples_queue_tail := (received_samples_queue_tail d + 1) mod 8\<rparr>"
    and "(p, n) = slot d (received_samples_queue_tail d)"
    using queue_take_shape(1) [OF assms(1)] assms(2) by simp_all
  show "queue_shape d'" unfolding d by (rule queue_take_shape(2) [OF assms(1)])
  show "xfer_view d' = xfer_view d" "all_buffers d' = all_buffers d"
    "transfer_live d' = transfer_live d" "dropped_buffers d' = dropped_buffers d"
    by (simp_all add: d xfer_view_def all_buffers_def xfer_buffers_def nth_xfer_def)
qed

lemma queue_release_frame [simp]:
  "all_buffers (queue_release d) = all_buffers d" "transfer_live (queue_release d) = transfer_live d"
  "queue_shape d \<Longrightarrow> queue_shape (queue_release d)"
  by (simp_all add: all_buffers_def queue_release_def xfer_buffers_def nth_xfer_def queue_shape_def)

lemma stream_wf_step:
  assumes "stream_step M L s t" and wf: "stream_wf s"
  shows "stream_wf t"
  using assms(1)
proof cases
  case (transfer_tests c)
  then show ?thesis
    using wf transfer_test_busy [OF transfer_tests(2)]
    by (intro stream_wf_frame [OF wf]) (auto simp: stream_wf_def)
next
  case (transfer_clear c)
  then show ?thesis
    using wf transfer_clears_busy [OF transfer_clear(2)]
    by (intro stream_wf_frame [OF wf]) (auto simp: stream_wf_def frame_simps)
next
  case (callback_begin i x ok n)
  then show ?thesis by (intro stream_wf_complete [OF wf callback_begin(3)]) auto
next
  case (main_events i x ok n d')
  then show ?thesis
    using callback_enter_view [OF main_events(5)] by (intro stream_wf_complete [OF wf main_events(3)]) auto
next
  case (callback_push i d' x)
  note l = locked_push_wf [OF wf callback_push(2,4,5,6)]
  have "distinct (all_buffers d')"
    using wf mset_eq_imp_distinct_iff [OF l(3)] by (simp add: stream_wf_def)
  with l wf callback_push show ?thesis by (simp add: stream_wf_def)
next
  case (callback_drop i d')
  then have "d' = (dev s)\<lparr>dropped_buffers := dropped_buffers (dev s) + 1\<rparr>"
    by (simp add: callback_locked_full)
  with callback_drop wf show ?thesis
    by (intro stream_wf_frame [OF wf]) (auto simp: frame_simps stream_wf_def)
next
  case (callback_submit i failed)
  then have "i \<notin> submitted s" using wf by (simp add: stream_wf_def)
  with callback_submit wf stream_wf_finite [OF wf] show ?thesis
    by (intro stream_wf_frame [OF wf]) (auto simp: stream_wf_def)
next
  case (consumer_take p n d')
  have "queue_shape (dev s)" using wf by (simp add: stream_wf_def)
  note f = queue_take_frame(3-7) [OF this consumer_take(4)]
  show ?thesis
    using wf f(1,3,4) xfer_cong [OF f(2)] unfolding consumer_take(1) by (simp add: stream_wf_def)
next
  case (consumer_process p n out d' r)
  note v = convert_samples_stream_view [OF consumer_process(4)]
  show ?thesis
    using consumer_process wf v stream_view_views [OF v]
    by (intro stream_wf_frame [OF wf]) (auto simp: stream_wf_def frame_simps stream_view_eq_iff)
next
  case (consumer_disturbed p n d' r out)
  then show ?thesis
    using wf stream_view_views [OF consumer_disturbed(4)]
    by (intro stream_wf_frame [OF wf]) (auto simp: stream_wf_def stream_view_eq_iff)
next
  case consumer_release
  have "xfer_view (queue_release (dev s)) = xfer_view (dev s)" by (simp add: frame_simps)
  from xfer_cong [OF this] consumer_release wf show ?thesis by (simp add: stream_wf_def)
next
  case (control d')
  then show ?thesis
    using wf stream_view_views [OF control(2)]
    by (intro stream_wf_frame [OF wf]) (auto simp: stream_wf_def stream_view_eq_iff)
qed (use wf in \<open>auto intro!: stream_wf_frame [OF wf] simp: frame_simps stream_wf_def wake_def split: if_splits\<close>)

section \<open>History\<close>

text \<open>
  What the application will see: the blocks already delivered, then the backlog with the
  contents its buffers have now.
\<close>

definition contents :: "stream_sys \<Rightarrow> (ptr \<times> u32) list \<Rightarrow> (samples16 \<times> u32) list" where
  "contents s = map (\<lambda>(p, n). (memory s p, n))"

lemma contents_simps [simp]:
  "contents s [] = []" "contents s ((p, n) # xs) = (memory s p, n) # contents s xs"
  "contents s (xs @ ys) = contents s xs @ contents s ys"
  by (simp_all add: contents_def)

text \<open>The queue in order: the slot in the consumer's hands, and behind it those to come.\<close>

definition order_ok :: "stream_sys \<Rightarrow> bool" where
  "order_ok s \<longleftrightarrow> queue_inv (dev s) (holding (cpc s)) \<and>
     (in_hand (cpc s) \<noteq> [] \<longrightarrow> queue_held (dev s) 1 = in_hand (cpc s)) \<and>
     received s = delivered s @ contents s (backlog s)"

definition fifo_ok :: "stream_sys \<Rightarrow> bool" where
  "fifo_ok s \<longleftrightarrow> (case stale s of
     None \<Rightarrow> order_ok s
   | Some k \<Rightarrow> k \<le> length (delivered s) \<and> k \<le> length (received s) \<and>
       take k (delivered s) = take k (received s))"

definition drops_ok :: "stream_sys \<Rightarrow> bool" where
  "drops_ok s \<longleftrightarrow>
     (of_nat (drops s) :: u32) = sum_list (map snd (received s)) + dropped_buffers (dev s)"

text \<open>No transfer holds a buffer of the backlog.\<close>

lemma backlog_owned:
  assumes "order_ok s"
  shows "fst ` set (backlog s) \<subseteq> set (received_samples_queue (dev s))"
proof -
  have inv: "queue_inv (dev s) (holding (cpc s))" using assms by (simp add: order_ok_def)
  have "set (map fst (queue_held (dev s) (holding (cpc s)) @ queue_items (dev s) (holding (cpc s))))
        \<subseteq> set_mset (queue_owned (dev s))"
    using set_mset_mono [OF rawq.owned_law [OF inv]] by (simp only: set_mset_mset)
  moreover have "set (in_hand (cpc s)) \<subseteq> set (queue_held (dev s) (holding (cpc s)))"
    using assms by (cases "cpc s") (auto simp: order_ok_def)
  ultimately show ?thesis by (auto simp: backlog_def queue_owned_def)
qed

lemma backlog_not_in_transfer:
  assumes wf: "stream_wf s" and ord: "order_ok s" and x: "nth_xfer (dev s) i = Some x"
  shows "xfer_buffer x \<notin> fst ` set (backlog s)"
proof -
  have i: "i < transfer_count (dev s)" using nth_xfer_Some_bound [OF _ x] wf by (simp add: stream_wf_def)
  have "xfer_buffer x \<in> set (xfer_buffers (dev s))"
    using xfer_buffers_nth [OF x i] i by (metis length_xfer_buffers nth_mem)
  then show ?thesis
    using backlog_owned [OF ord] wf by (auto simp: stream_wf_def all_buffers_def)
qed

lemma contents_other:
  assumes "q \<notin> fst ` set xs"
  shows "contents (s\<lparr>memory := (memory s)(q := data)\<rparr>) xs = contents s xs"
  using assms by (induction xs) auto

lemma contents_cong: "memory t = memory s \<Longrightarrow> contents t = contents s"
  by (simp add: contents_def)

lemma backlog_frame:
  assumes "queue_view (dev t) = queue_view (dev s)" and "in_hand (cpc t) = in_hand (cpc s)"
    and "holding (cpc t) = holding (cpc s)"
  shows "backlog t = backlog s"
  using assms queue_cong(2) [OF assms(1)] by (simp add: backlog_def)

lemma order_frame:
  assumes "order_ok s" and "queue_view (dev t) = queue_view (dev s)"
    and "in_hand (cpc t) = in_hand (cpc s)" and "holding (cpc t) = holding (cpc s)"
    and "received t = received s" and "delivered t = delivered s" and "memory t = memory s"
  shows "order_ok t"
  using assms contents_cong [OF assms(7)] backlog_frame [OF assms(2-4)] queue_cong [OF assms(2)]
  by (simp add: order_ok_def)

lemma order_push:
  assumes wf: "stream_wf s" and ord: "order_ok s" and t: "tpc s = T_Locked i"
    and room: "\<not> queue_full (dev s)" and c: "callback_locked i (dev s) = Some d'"
    and x: "nth_xfer (dev s) i = Some x"
  shows "order_ok (s\<lparr>dev := d', tpc := T_Submit i, cpc := wake (cpc s),
    received := received s @ [(memory s (xfer_buffer x), dropped_buffers (dev s))]\<rparr>)" (is "order_ok ?t")
proof -
  have inv: "queue_inv (dev s) (holding (cpc s))" using ord by (simp add: order_ok_def)
  note p = callback_locked_push [OF inv room locked_push_wf(9) [OF wf t room c x]]
  have "backlog ?t = backlog s @ [(xfer_buffer x, dropped_buffers (dev s))]"
    using p(2) by (simp add: backlog_def)
  moreover have "queue_held d' 1 = queue_held (dev s) 1" if "in_hand (cpc s) \<noteq> []"
  proof -
    have "holding (cpc s) = 1" using that by (cases "cpc s") auto
    with p(3) show ?thesis by simp
  qed
  moreover have "contents ?t = contents s" by (simp add: contents_def)
  ultimately show ?thesis using ord p(1) by (simp add: order_ok_def)
qed

lemma order_take:
  assumes ord: "order_ok s" and c: "cpc s = C_If_stop" and ne: "received_buffer_count (dev s) \<noteq> 0"
    and k: "queue_take (dev s) = Some ((p, n), d')"
  shows "order_ok (s\<lparr>dev := d', cpc := C_Have p n, stale := x\<rparr>)" (is "order_ok ?t")
proof -
  have inv: "queue_inv (dev s) 0" using ord c by (simp add: order_ok_def)
  have items: "queue_items (dev s) 0 \<noteq> []"
    using queue_count [OF inv] ne inv by (auto simp: queue_inv_def)
  from rawq.take_law [OF inv items] k
  have r: "(p, n) = hd (queue_items (dev s) 0)" "queue_inv d' 1"
    "queue_items d' 1 = tl (queue_items (dev s) 0)" "queue_held d' 1 = [(p, n)]"
    by auto
  have "backlog ?t = backlog s"
    using r(1,3) items c by (simp add: backlog_def list.collapse)
  moreover have "contents ?t = contents s" by (simp add: contents_def)
  ultimately show ?thesis using ord r(2,4) by (simp add: order_ok_def)
qed

text \<open>A queue whose count is 0 has nothing to deliver.\<close>

lemma order_empty:
  assumes "order_ok s" and "cpc s = C_If_stop" and "received_buffer_count (dev s) = 0"
  shows "received s = delivered s"
  using assms by (simp add: order_ok_def backlog_def queue_items_def)

lemma order_deliver:
  assumes ord: "order_ok s" and c: "cpc s = C_Convert p n" and v: "stream_view d' = stream_view (dev s)"
    and cpc: "cpc t = C_Failed \<or> cpc t = C_Called" and "dev t = d'" "received t = received s"
    "delivered t = delivered s @ [(memory s p, n)]" "memory t = memory s"
  shows "order_ok t"
proof -
  have qv: "queue_view (dev t) = queue_view (dev s)" using stream_view_views [OF v] assms(5) by simp
  have h: "holding (cpc t) = 1" "holding (cpc s) = 1" "in_hand (cpc t) = []" using cpc c by auto
  have "backlog s = (p, n) # backlog t" using c h queue_cong(2) [OF qv] by (simp add: backlog_def)
  moreover have "contents t = contents s" using assms(8) by (rule contents_cong)
  ultimately show ?thesis
    using ord h queue_cong(1) [OF qv] assms(6,7) by (simp add: order_ok_def)
qed

lemma order_release:
  assumes ord: "order_ok s" and c: "cpc s = C_Called"
  shows "order_ok (s\<lparr>dev := queue_release (dev s), cpc := C_While\<rparr>)" (is "order_ok ?t")
proof -
  have inv: "queue_inv (dev s) 1" using ord c by (simp add: order_ok_def)
  note r = rawq.release_law [OF inv]
  have "backlog ?t = backlog s" using c r by (simp add: backlog_def)
  moreover have "contents ?t = contents s" by (simp add: contents_def)
  ultimately show ?thesis using ord r by (simp add: order_ok_def)
qed

text \<open>Every step keeps the order, except the taking of a slot of an empty queue.\<close>

lemma order_step:
  assumes "stream_step M L s t" and wf: "stream_wf s" and ord: "order_ok s" and "stale t = None"
  shows "order_ok t"
  using assms(1)
proof cases
  case (usb_data i x data)
  have "contents t (backlog t) = contents s (backlog s)"
    using contents_other [OF backlog_not_in_transfer [OF wf ord usb_data(3)]] usb_data(1)
    by (simp add: backlog_def)
  with ord usb_data(1) show ?thesis by (simp add: order_ok_def)
next
  case (callback_push i d' x)
  then show ?thesis using order_push [OF wf ord callback_push(2,4,5,6)] by simp
next
  case (callback_begin i x ok n)
  then show ?thesis by (intro order_frame [OF ord]) auto
next
  case (main_events i x ok n d')
  then show ?thesis
    using callback_enter_view [OF main_events(5)] by (intro order_frame [OF ord]) auto
next
  case (callback_drop i d')
  then show ?thesis
    by (intro order_frame [OF ord]) (auto simp: callback_locked_full frame_simps)
next
  case (consumer_tests c)
  then show ?thesis
    using consumer_test_holding [OF consumer_tests(2)] consumer_test_in_hand [OF consumer_tests(2)]
    by (intro order_frame [OF ord]) auto
next
  case (consumer_take p n d')
  then have "received_buffer_count (dev s) \<noteq> 0" using assms(4) by (auto split: if_splits)
  from order_take [OF ord consumer_take(2) this consumer_take(4)] consumer_take(1) show ?thesis by simp
next
  case (consumer_process p n out d' r)
  then show ?thesis
    by (intro order_deliver [OF ord consumer_process(2) convert_samples_stream_view [OF consumer_process(4)]]) auto
next
  case (consumer_disturbed p n d' r out)
  then show ?thesis by (intro order_deliver [OF ord consumer_disturbed(2,4)]) auto
next
  case consumer_release
  then show ?thesis using order_release [OF ord] by simp
next
  case (control d')
  then show ?thesis
    using stream_view_views [OF control(2)] by (intro order_frame [OF ord]) auto
qed (auto intro!: order_frame [OF ord] simp: frame_simps wake_def)

lemma stale_step:
  assumes "stream_step M L s t" and "stale s = Some k"
  shows "stale t = Some k \<and> (\<exists>xs. delivered t = delivered s @ xs) \<and> (\<exists>xs. received t = received s @ xs)"
  using assms by cases auto

lemma stale_start:
  assumes "stream_step M L s t" and "stale s = None" and "stale t = Some k"
  shows "cpc s = C_If_stop \<and> \<not> stop_requested (dev s) \<and> received_buffer_count (dev s) = 0 \<and>
    k = length (delivered s) \<and> delivered t = delivered s \<and> received t = received s"
  using assms by cases (auto split: if_splits)

lemma fifo_step:
  assumes step: "stream_step M L s t" and wf: "stream_wf s" and h: "fifo_ok s"
  shows "fifo_ok t"
proof (cases "stale s")
  case None
  then have ord: "order_ok s" using h by (simp add: fifo_ok_def)
  show ?thesis
  proof (cases "stale t")
    case None
    with order_step [OF step wf ord] show ?thesis by (simp add: fifo_ok_def)
  next
    case (Some k)
    with stale_start [OF step None] order_empty [OF ord] show ?thesis by (simp add: fifo_ok_def)
  qed
next
  case (Some k)
  from stale_step [OF step Some] Some h show ?thesis by (auto simp: fifo_ok_def)
qed

lemma drops_step:
  assumes "stream_step M L s t" and wf: "stream_wf s" and h: "drops_ok s"
  shows "drops_ok t"
  using assms(1)
proof cases
  case (main_events i x ok n d')
  then show ?thesis using h callback_enter_view [OF main_events(5)] by (simp add: drops_ok_def)
next
  case (callback_push i d' x)
  then show ?thesis using h locked_push_wf(6) [OF wf callback_push(2,4,5,6)] by (simp add: drops_ok_def)
next
  case (callback_drop i d')
  then show ?thesis using h by (auto simp: callback_locked_full drops_ok_def)
next
  case (consumer_take p n d')
  have "queue_shape (dev s)" using wf by (simp add: stream_wf_def)
  from queue_take_frame(7) [OF this consumer_take(4)] consumer_take(1) h show ?thesis by (simp add: drops_ok_def)
next
  case (consumer_process p n out d' r)
  then show ?thesis
    using h convert_samples_stream_view [OF consumer_process(4)] by (simp add: drops_ok_def stream_view_eq_iff)
next
  case (consumer_disturbed p n d' r out)
  then show ?thesis using h by (simp add: drops_ok_def stream_view_eq_iff)
next
  case (control d')
  then show ?thesis using h by (simp add: drops_ok_def stream_view_eq_iff)
qed (use h in \<open>auto simp: drops_ok_def queue_release_def\<close>)

section \<open>The flags\<close>

text \<open>Nothing sets \<open>streaming\<close> again.\<close>

lemma stream_step_streaming:
  assumes "stream_step M L s t" and wf: "stream_wf s" and "\<not> streaming (dev s)"
  shows "\<not> streaming (dev t)"
  using assms(1)
proof cases
  case (main_events i x ok n d')
  then show ?thesis using assms(3) callback_enter_view(5) [OF main_events(5)] by auto
next
  case (callback_push i d' x)
  then show ?thesis using assms(3) locked_push_wf(7) [OF wf callback_push(2,4,5,6)] by simp
next
  case (callback_drop i d')
  then show ?thesis using assms(3) by (auto simp: callback_locked_full)
next
  case (consumer_take p n d')
  have "queue_shape (dev s)" using wf by (simp add: stream_wf_def)
  from queue_take_frame(1) [OF this consumer_take(4)] consumer_take(1) assms(3) show ?thesis by simp
next
  case (consumer_process p n out d' r)
  then show ?thesis
    using assms(3) convert_samples_stream_view [OF consumer_process(4)] by (simp add: stream_view_eq_iff)
next
  case (consumer_disturbed p n d' r out)
  then show ?thesis using assms(3) by (simp add: stream_view_eq_iff)
next
  case (control d')
  then show ?thesis using assms(3) by (simp add: stream_view_eq_iff)
qed (use assms(3) in \<open>auto simp: queue_release_def\<close>)

text \<open>Only \<open>airspyhf_stop\<close> changes \<open>stop_requested\<close>, and only callback and consumer the count.\<close>

lemma stream_step_stop:
  assumes "stream_step M L s t" and wf: "stream_wf s"
  shows "stop_requested (dev t) = stop_requested (dev s) \<or> mpc s = M_Run \<and> mpc t = M_Stop \<and> stop_requested (dev t)
    \<or> mpc s = M_Stop \<and> mpc t = M_Clear"
  using assms(1)
proof cases
  case (main_events i x ok n d')
  then show ?thesis using callback_enter_view(6) [OF main_events(5)] by auto
next
  case (callback_push i d' x)
  then show ?thesis using locked_push_wf(8) [OF wf callback_push(2,4,5,6)] by simp
next
  case (callback_drop i d')
  then show ?thesis by (auto simp: callback_locked_full)
next
  case (consumer_take p n d')
  have "queue_shape (dev s)" using wf by (simp add: stream_wf_def)
  from queue_take_frame(1) [OF this consumer_take(4)] consumer_take(1) show ?thesis by simp
next
  case (consumer_process p n out d' r)
  then show ?thesis
    using convert_samples_stream_view [OF consumer_process(4)] by (simp add: stream_view_eq_iff)
next
  case (consumer_disturbed p n d' r out)
  then show ?thesis by (simp add: stream_view_eq_iff)
next
  case (control d')
  then show ?thesis by (simp add: stream_view_eq_iff)
qed (auto simp: queue_release_def)

lemma stream_step_count:
  assumes "stream_step M L s t" and "consumer_locks (cpc s) \<or> cpc s = C_Waiting \<and> cpc t = C_Waiting" and wf: "stream_wf s"
  shows "received_buffer_count (dev t) = received_buffer_count (dev s)"
  using assms(1)
proof cases
  case (main_events i x ok n d')
  then show ?thesis using queue_cong(6) [OF callback_enter_view(1) [OF main_events(5)]] by simp
next
  case (callback_push i d' x)
  then show ?thesis using assms(2) by (auto simp: wake_def)
next
  case (callback_drop i d')
  then show ?thesis by (auto simp: callback_locked_full)
next
  case (consumer_take p n d')
  have "queue_shape (dev s)" using wf by (simp add: stream_wf_def)
  from queue_take_frame(1) [OF this consumer_take(4)] consumer_take(1) show ?thesis by simp
next
  case (consumer_process p n out d' r)
  then show ?thesis
    using convert_samples_stream_view [OF consumer_process(4)] by (simp add: stream_view_eq_iff)
next
  case (consumer_disturbed p n d' r out)
  then show ?thesis by (simp add: stream_view_eq_iff)
next
  case consumer_release
  then show ?thesis using assms(2) by simp
next
  case (control d')
  then show ?thesis by (simp add: stream_view_eq_iff)
qed (auto simp: callback_count_def callback_resubmit_def)

section \<open>The window of the stop request\<close>

text \<open>
  The consumer can only come to take a slot of an empty queue after it has seen
  \<open>stop_requested\<close> set and \<open>kill_io_threads\<close> has cleared it again.
\<close>

definition past_while :: "consumer_pc \<Rightarrow> bool" where
  "past_while c \<longleftrightarrow> c \<notin> {C_Start, C_While, C_While_stop, C_Break, C_Exit}"

definition window_ok :: "stream_sys \<Rightarrow> bool" where
  "window_ok s \<longleftrightarrow>
     (mpc s = M_Stop \<longrightarrow> stop_requested (dev s)) \<and>
     (mpc s = M_Run \<longrightarrow> past_while (cpc s) \<longrightarrow> \<not> stop_requested (dev s)) \<and>
     (cpc s \<in> {C_Inner, C_Inner_stop, C_Waiting} \<longrightarrow> received_buffer_count (dev s) = 0) \<and>
     (cpc s = C_If \<longrightarrow> received_buffer_count (dev s) = 0 \<longrightarrow> \<not> streaming (dev s) \<or> mpc s \<noteq> M_Run) \<and>
     (cpc s = C_If_stop \<longrightarrow> received_buffer_count (dev s) = 0 \<longrightarrow> mpc s \<noteq> M_Run) \<and>
     (stale s \<noteq> None \<longrightarrow> mpc s \<notin> {M_Run, M_Stop})"

text \<open>Steps of others than the consumer: they may wake it.\<close>

lemma window_frame:
  assumes "window_ok s" and "mpc t = mpc s" and "stale t = stale s"
    and "stop_requested (dev t) = stop_requested (dev s)" and "streaming (dev t) \<Longrightarrow> streaming (dev s)"
    and "cpc t = cpc s \<or> cpc s = C_Waiting \<and> cpc t = C_Woken"
    and "consumer_locks (cpc s) \<or> cpc t = C_Waiting \<Longrightarrow> received_buffer_count (dev t) = received_buffer_count (dev s)"
  shows "window_ok t"
proof (cases "cpc t = cpc s")
  case True
  with assms show ?thesis by (cases "cpc s") (simp_all add: window_ok_def past_while_def, blast?)
next
  case False
  then have "cpc s = C_Waiting" "cpc t = C_Woken" using assms(6) by simp_all
  with assms show ?thesis by (simp add: window_ok_def past_while_def)
qed

lemma window_tests:
  assumes "window_ok s" and "consumer_test (dev s) (cpc s) = Some c"
  shows "window_ok (s\<lparr>cpc := c\<rparr>)"
  using assms by (cases "cpc s") (auto simp: window_ok_def past_while_def split: if_splits)

lemma window_step:
  assumes step: "stream_step M L s t" and wf: "stream_wf s" and h: "window_ok s"
  shows "window_ok t"
proof -
  note flags = stream_step_streaming [OF step wf] stream_step_stop [OF step wf]
  have frame: "window_ok t" if "mpc t = mpc s" "stale t = stale s"
    "cpc t = cpc s \<or> cpc s = C_Waiting \<and> cpc t = C_Woken"
  proof (rule window_frame [OF h that(1,2) _ _ that(3)])
    show "stop_requested (dev t) = stop_requested (dev s)" using flags(2) that(1) by auto
    show "streaming (dev s)" if "streaming (dev t)" using that flags(1) by blast
    show "received_buffer_count (dev t) = received_buffer_count (dev s)"
      if "consumer_locks (cpc s) \<or> cpc t = C_Waiting"
    proof (rule stream_step_count [OF step _ wf])
      show "consumer_locks (cpc s) \<or> cpc s = C_Waiting \<and> cpc t = C_Waiting"
        using that \<open>cpc t = cpc s \<or> cpc s = C_Waiting \<and> cpc t = C_Woken\<close> by auto
    qed
  qed
  have same: "stop_requested (dev t) = stop_requested (dev s)" if "mpc t = mpc s"
    using flags(2) that by auto
  have stop: "window_ok t" if "mpc t = mpc s" "\<not> past_while (cpc t)" "stale t = stale s"
    using h same [OF that(1)] that by (cases "cpc t") (simp_all add: window_ok_def past_while_def)
  have behind: "window_ok t" if "mpc t = mpc s" "past_while (cpc s)" "stale t = stale s"
    "cpc t \<notin> {C_Inner, C_Inner_stop, C_Waiting, C_If, C_If_stop}"
    using h same [OF that(1)] that by (cases "cpc t") (simp_all add: window_ok_def)
  show ?thesis
    using step
  proof cases
    case (consumer_tests c)
    then show ?thesis using window_tests [OF h consumer_tests(2)] by simp
  next
    case (consumer_take p n d')
    have "queue_shape (dev s)" using wf by (simp add: stream_wf_def)
    note f = queue_take_frame(1) [OF this consumer_take(4)]
    show ?thesis using h consumer_take(2,3) unfolding consumer_take(1) f
      by (auto simp: window_ok_def past_while_def)
  next
    case consumer_release
    then show ?thesis by (intro stop) (auto simp: past_while_def)
  next
    case consumer_exit
    then show ?thesis by (intro stop) (auto simp: past_while_def)
  next
    case main_stop
    then show ?thesis using h by (auto simp: window_ok_def)
  next
    case main_clear
    then show ?thesis using h by (auto simp: window_ok_def)
  next
    case main_kill
    then show ?thesis using h by (auto simp: window_ok_def)
  next
    case main_signal
    then show ?thesis using h by (auto simp: window_ok_def wake_def)
  next
    case main_join
    then show ?thesis using h by (auto simp: window_ok_def)
  next
    case (consumer_begin p n)
    then show ?thesis by (intro behind) (auto simp: past_while_def)
  next
    case (consumer_process p n out d' r)
    then show ?thesis by (intro behind) (auto simp: past_while_def)
  next
    case (consumer_disturbed p n d' r out)
    then show ?thesis by (intro behind) (auto simp: past_while_def)
  next
    case consumer_fail
    then show ?thesis by (intro behind) (auto simp: past_while_def)
  qed (rule frame; simp add: wake_def)+
qed

section \<open>Shutdown\<close>

text \<open>
  Once \<open>kill_io_threads\<close> has signalled, the consumer is neither asleep nor on its way to
  sleep or to another block.
\<close>

definition shutdown_ok :: "stream_sys \<Rightarrow> bool" where
  "shutdown_ok s \<longleftrightarrow>
     (mpc s \<in> {M_Cancel, M_Join, M_Done} \<longrightarrow> \<not> streaming (dev s)) \<and>
     (mpc s \<in> {M_Join, M_Done} \<longrightarrow> cpc s \<notin> {C_Waiting, C_While_stop, C_Inner_stop, C_If_stop}) \<and>
     (cpc s = C_Exit \<or> tpc s = T_Exit \<longrightarrow> \<not> streaming (dev s)) \<and>
     (mpc s = M_Done \<longrightarrow> cpc s = C_Exit \<and> tpc s = T_Exit)"

lemma transfer_exit_stays: "transfer_test d T_Exit = None" "transfer_clears T_Exit = None"
  by simp_all

lemma consumer_test_off:
  "consumer_test d c = Some c' \<Longrightarrow> \<not> streaming d \<Longrightarrow> c' \<in> {C_Waiting, C_While_stop, C_Inner_stop, C_If_stop} \<Longrightarrow>
   c = C_Inner_stop"
  by (cases c) (auto split: if_splits)

lemma consumer_test_exit: "consumer_test d c = Some c' \<Longrightarrow> c \<noteq> C_Exit \<and> c' \<noteq> C_Exit"
  by (cases c) (auto split: if_splits)

lemma transfer_test_exit: "transfer_test d c = Some c' \<Longrightarrow> c \<noteq> T_Exit \<and> c' \<noteq> T_Exit"
  by (cases c) (auto split: if_splits)

lemma transfer_clears_exit: "transfer_clears c = Some c' \<Longrightarrow> c \<noteq> T_Exit"
  by (cases c) auto

lemma shutdown_step:
  assumes step: "stream_step M L s t" and wf: "stream_wf s" and h: "shutdown_ok s"
  shows "shutdown_ok t"
  using step
proof cases
  case (consumer_tests c)
  then show ?thesis
    using h consumer_test_off [OF consumer_tests(2)] consumer_test_exit [OF consumer_tests(2)]
    by (auto simp: shutdown_ok_def)
next
  case (transfer_tests c)
  then show ?thesis using h transfer_test_exit [OF transfer_tests(2)] by (auto simp: shutdown_ok_def)
next
  case (transfer_clear c)
  then show ?thesis using h transfer_clears_exit [OF transfer_clear(2)] by (auto simp: shutdown_ok_def)
qed (use stream_step_streaming [OF step wf] h in \<open>auto simp: shutdown_ok_def wake_def split: if_splits\<close>)

section \<open>Reachable states\<close>

lemma stream_init_ok:
  assumes "stream_ready d"
  shows "stream_wf (stream_init d mem)" and "fifo_ok (stream_init d mem)"
    and "drops_ok (stream_init d mem)" and "shutdown_ok (stream_init d mem)"
    and "window_ok (stream_init d mem)"
  using assms
  by (auto simp: stream_ready_def stream_init_def stream_wf_def fifo_ok_def order_ok_def drops_ok_def
      shutdown_ok_def window_ok_def past_while_def backlog_def queue_inv_def queue_items_def queue_shape_def)

lemma reachable_ok:
  assumes "stream_reachable M L s"
  shows "stream_wf s" and "fifo_ok s" and "drops_ok s" and "shutdown_ok s" and "window_ok s"
  using assms
  by (induction rule: stream_reachable.induct)
     (auto intro: stream_init_ok stream_wf_step fifo_step drops_step shutdown_step window_step)

end
