(* ===== verification/Start_Stop.thy ===== *)
theory Start_Stop
  imports Stream_Invariants
begin

text \<open>
  Properties of the sequential life cycle of a stream: allocation, start, stop and release.
  They connect the code's own operations to the start states of the theory \<open>Streaming\<close>.
\<close>

section \<open>Allocation\<close>

text \<open>Addresses of a block of allocations: increasing and new.\<close>

definition fresh_run :: "trace \<Rightarrow> trace \<Rightarrow> ptr list \<Rightarrow> bool" where
  "fresh_run w w' ps \<longleftrightarrow> length w \<le> length w' \<and> sorted_wrt (<) ps \<and> set ps \<subseteq> {length w<..length w'}"

lemma fresh_run_Cons:
  "fresh_run (w @ [c]) w' ps \<Longrightarrow> fresh_run w w' (Suc (length w) # ps)"
  by (auto simp: fresh_run_def)

lemma fresh_run_weaken: "fresh_run w1 w' ps \<Longrightarrow> length w \<le> length w1 \<Longrightarrow> fresh_run w w' ps"
  by (auto simp: fresh_run_def)

lemma fresh_run_distinct: "fresh_run w w' ps \<Longrightarrow> distinct ps"
  by (simp add: fresh_run_def strict_sorted_iff)

lemma live_malloc:
  "p \<noteq> NULL \<Longrightarrow> live (w @ [Malloc n p]) = add_mset p (live w)"
  "live (w @ [Malloc n NULL]) = live w"
  "p \<noteq> NULL \<Longrightarrow> live (w @ [AllocTransfer p]) = add_mset p (live w)"
  by (simp_all add: live_snoc live_step_def)

lemma alloc_queue_ok:
  assumes "alloc_queue E [i..<n] d w = (True, d', w')"
    and "length (received_samples_queue d) = n" and "i \<le> n"
  shows "\<exists>ps. d' = d\<lparr>received_samples_queue := take i (received_samples_queue d) @ ps\<rparr> \<and>
           length ps = n - i \<and> fresh_run w w' ps \<and> live w' = live w + mset ps"
  using assms
proof (induction "n - i" arbitrary: i d w)
  case 0
  then have i: "i = n" by simp
  then have "d' = d" "w' = w" using "0.prems"(1) by simp_all
  moreover have "take i (received_samples_queue d) = received_samples_queue d"
    using "0.prems"(2) i by simp
  ultimately show ?case using i by (intro exI [of _ "[]"]) (simp add: fresh_run_def)
next
  case (Suc k)
  then have i: "i < n" by simp
  let ?d = "d\<lparr>received_samples_queue := (received_samples_queue d)[i := Suc (length w)]\<rparr>"
  let ?w = "w @ [Malloc (buffer_size d) (Suc (length w))]"
  have "alloc_queue E [Suc i..<n] ?d ?w = (True, d', w')"
    using Suc.prems(1) i by (auto simp: upt_conv_Cons malloc_def Let_def split: if_splits)
  moreover have "k = n - Suc i" "length (received_samples_queue ?d) = n" "Suc i \<le> n"
    using Suc.hyps(2) Suc.prems(2) i by simp_all
  ultimately obtain ps where
    ps: "d' = ?d\<lparr>received_samples_queue := take (Suc i) (received_samples_queue ?d) @ ps\<rparr>"
      "length ps = n - Suc i" "fresh_run ?w w' ps" "live w' = live ?w + mset ps"
    using Suc.hyps(1) [of "Suc i" ?d ?w] by blast
  have "take (Suc i) ((received_samples_queue d)[i := Suc (length w)]) =
        take i (received_samples_queue d) @ [Suc (length w)]"
    using i Suc.prems(2) by (simp add: take_Suc_conv_app_nth)
  with ps(1) have "d' = d\<lparr>received_samples_queue :=
      take i (received_samples_queue d) @ Suc (length w) # ps\<rparr>" by simp
  moreover have "live w' = live w + mset (Suc (length w) # ps)"
    unfolding ps(4) by (simp add: live_malloc(1))
  ultimately show ?case
    using ps(2) i fresh_run_Cons [OF ps(3)]
    by (intro exI [of _ "Suc (length w) # ps"]) auto
qed

definition xfer_blocks :: "libusb_transfer list \<Rightarrow> ptr multiset" where
  "xfer_blocks ys = mset (map xfer_addr ys) + mset (map xfer_buffer ys)"

lemma alloc_xfers_ok:
  assumes "alloc_xfers E len [i..<n] xs w = (True, xs', w')" and "length xs = n" and "i \<le> n"
  shows "\<exists>ys. xs' = take i xs @ map Some ys \<and> length ys = n - i \<and>
           fresh_run w w' (map xfer_buffer ys) \<and> live w' = live w + xfer_blocks ys \<and>
           (\<forall>y \<in> set ys. xfer_length y = len \<and> xfer_addr y \<noteq> NULL)"
  using assms
proof (induction "n - i" arbitrary: i xs w)
  case 0
  then show ?case by (simp add: fresh_run_def xfer_blocks_def)
next
  case (Suc k)
  then have i: "i < n" by simp
  let ?w1 = "w @ [AllocTransfer (Suc (length w))]"
  let ?w = "?w1 @ [Malloc len (Suc (length ?w1))]"
  let ?y = "\<lparr>xfer_addr = Suc (length w), endpoint = 0, xfer_length = len,
             xfer_buffer = Suc (length ?w1), xfer_callback = False\<rparr>"
  have "alloc_xfers E len [Suc i..<n] (xs[i := Some ?y]) ?w = (True, xs', w')"
    using Suc.prems(1) i
    by (auto simp: upt_conv_Cons malloc_def libusb_alloc_transfer_def Let_def split: if_splits)
  moreover have "k = n - Suc i" "length (xs[i := Some ?y]) = n" "Suc i \<le> n"
    using Suc.hyps(2) Suc.prems(2) i by simp_all
  ultimately obtain ys where
    ys: "xs' = take (Suc i) (xs[i := Some ?y]) @ map Some ys" "length ys = n - Suc i"
      "fresh_run ?w w' (map xfer_buffer ys)" "live w' = live ?w + xfer_blocks ys"
      "\<forall>y \<in> set ys. xfer_length y = len \<and> xfer_addr y \<noteq> NULL"
    using Suc.hyps(1) [of "Suc i" "xs[i := Some ?y]" ?w] by blast
  have "take (Suc i) (xs[i := Some ?y]) = take i xs @ [Some ?y]"
    using i Suc.prems(2) by (simp add: take_Suc_conv_app_nth)
  moreover have "fresh_run w w' (map xfer_buffer (?y # ys))"
    using fresh_run_weaken [OF fresh_run_Cons [OF ys(3)], of w] by simp
  moreover have "live ?w = live w + {#Suc (length w), Suc (length ?w1)#}"
    using live_malloc(1) [of "Suc (length ?w1)" ?w1 len] live_malloc(3) [of "Suc (length w)" w]
    by (simp only: nat.distinct) simp
  ultimately show ?case
    using ys i by (intro exI [of _ "?y # ys"]) (simp add: xfer_blocks_def ac_simps)
qed

text \<open>Every block a device with allocated transfers owns; a null pointer is not a block.\<close>

definition stream_blocks :: "airspyhf_device \<Rightarrow> ptr multiset" where
  "stream_blocks d =
     filter_mset (\<lambda>p. p \<noteq> NULL)
       ({#output_buffer d, transfers_ptr d#} +
        mset (map xfer_addr (map the (the (transfers d)))) + mset (all_buffers d))"

text \<open>The state in which a stream can be started.\<close>

definition stream_idle :: "airspyhf_device \<Rightarrow> bool" where
  "stream_idle d \<longleftrightarrow>
     xfers_ok d \<and> distinct (all_buffers d) \<and> NULL \<notin> set (all_buffers d) \<and>
     length (received_samples_queue d) = 8 \<and> length (dropped_buffers_queue d) = 8 \<and>
     transfer_live d = 0 \<and> \<not> streaming d \<and> \<not> stop_requested d"

lemma xfer_buffers_map:
  "transfers d = Some (map Some ys) \<Longrightarrow> length ys = transfer_count d \<Longrightarrow>
   xfer_buffers d = map xfer_buffer ys"
  by (intro nth_equalityI) (auto simp: xfer_buffers_def nth_xfer_def)

lemma allocate_transfers_ok:
  assumes a: "allocate_transfers E d w = (AIRSPYHF_SUCCESS, d', w')"
    and len: "length (received_samples_queue d) = 8"
  shows "\<exists>ps ys out p. d' = d\<lparr>output_buffer := out, received_samples_queue := ps,
            transfers := Some (map Some ys), transfers_ptr := p\<rparr> \<and>
          length ps = 8 \<and> length ys = transfer_count d \<and> distinct (ps @ map xfer_buffer ys) \<and>
          NULL \<notin> set (ps @ map xfer_buffer ys) \<and> p \<noteq> NULL \<and>
          live w' = live w + filter_mset (\<lambda>p. p \<noteq> NULL) {#out#} + {#p#} + mset ps + xfer_blocks ys \<and>
          (\<forall>y \<in> set ys. xfer_length y = buffer_size d \<and> xfer_addr y \<noteq> NULL)"
proof -
  obtain out w1 where m1: "malloc E ((buffer_size d div sizeof_complex_int16) * sizeof_complex_float) w = (out, w1)"
    by fastforce
  obtain ok1 d2 w2 where m2: "alloc_queue E [0..<8] (d\<lparr>output_buffer := out\<rparr>) w1 = (ok1, d2, w2)"
    by (metis surj_pair)
  obtain p w3 where m3: "malloc E (transfer_count d2 * xfer_struct_size E) w2 = (p, w3)" by fastforce
  obtain ok2 xs w4 where m4: "alloc_xfers E (buffer_size d2) [0..<transfer_count d2]
      (replicate (transfer_count d2) None) w3 = (ok2, xs, w4)" by (metis surj_pair)
  have r: "ok1" "p \<noteq> NULL" "ok2" "d' = d2\<lparr>transfers := Some xs, transfers_ptr := p\<rparr>" "w' = w4"
    using a m1 m2 m3 m4
    by (auto simp: allocate_transfers_def RAW_BUFFER_COUNT_def status_codes Let_def
        split: option.splits if_splits)
  obtain ps where ps: "d2 = d\<lparr>output_buffer := out, received_samples_queue := ps\<rparr>" "length ps = 8"
      "fresh_run w1 w2 ps" "live w2 = live w1 + mset ps"
    using alloc_queue_ok [of E 0 8 "d\<lparr>output_buffer := out\<rparr>" w1 d2 w2] m2 r(1) len by auto
  obtain ys where ys: "xs = map Some ys" "length ys = transfer_count d"
      "fresh_run w3 w4 (map xfer_buffer ys)" "live w4 = live w3 + xfer_blocks ys"
      "\<forall>y \<in> set ys. xfer_length y = buffer_size d \<and> xfer_addr y \<noteq> NULL"
    using alloc_xfers_ok [of E "buffer_size d2" 0 "transfer_count d2" "replicate (transfer_count d2) None" w3 xs w4] m4 r(3) ps(1) by auto
  have l1: "live w1 = live w + filter_mset (\<lambda>p. p \<noteq> NULL) {#out#}"
    using m1 by (auto simp: malloc_def Let_def live_malloc split: if_splits)
  have l3: "live w3 = live w2 + {#p#}" and ln: "length w2 \<le> length w3"
    using m3 r(2) by (auto simp: malloc_def Let_def live_malloc split: if_splits)
  have "distinct (ps @ map xfer_buffer ys)" "NULL \<notin> set (ps @ map xfer_buffer ys)"
    using ps(3) ys(3) ln fresh_run_distinct [OF ps(3)] fresh_run_distinct [OF ys(3)]
    by (fastforce simp: fresh_run_def)+
  then show ?thesis
    using r ps ys l1 l3
    by (intro exI [of _ ps] exI [of _ ys] exI [of _ out] exI [of _ p])
       (simp add: ac_simps)
qed

lemma allocate_stream_idle:
  assumes "allocate_transfers E d w = (AIRSPYHF_SUCCESS, d', w')"
    and "length (received_samples_queue d) = 8" and "length (dropped_buffers_queue d) = 8"
    and "transfer_live d = 0" and "\<not> streaming d" and "\<not> stop_requested d"
  shows "stream_idle d'"
proof -
  obtain ps ys out p where d: "d' = d\<lparr>output_buffer := out, received_samples_queue := ps,
            transfers := Some (map Some ys), transfers_ptr := p\<rparr>" "length ps = 8"
    "length ys = transfer_count d" "distinct (ps @ map xfer_buffer ys)" "NULL \<notin> set (ps @ map xfer_buffer ys)"
    using allocate_transfers_ok [OF assms(1,2)] by blast
  then have "xfer_buffers d' = map xfer_buffer ys" by (intro xfer_buffers_map) simp_all
  with d assms(3-) show ?thesis by (auto simp: stream_idle_def all_buffers_def xfers_ok_def)
qed

section \<open>Release\<close>

lemma live_free_xfers:
  "live (free_xfers (map Some ys) w) = live w - xfer_blocks ys"
proof (induction ys arbitrary: w)
  case Nil
  then show ?case by (simp add: xfer_blocks_def)
next
  case (Cons y ys)
  then show ?case
    by (simp add: live_snoc live_step_def live_free xfer_blocks_def diff_diff_add_mset ac_simps)
qed

lemma live_free_queue:
  "live (free_queue ps w) = live w - filter_mset (\<lambda>p. p \<noteq> NULL) (mset ps)"
  by (induction ps arbitrary: w) (auto simp: live_free diff_diff_add_mset)

text \<open>No trace ever holds a live null pointer.\<close>

lemma NULL_not_live: "NULL \<notin># live w"
proof (induction w rule: rev_induct)
  case Nil
  then show ?case by simp
next
  case (snoc c w)
  then show ?case
    by (cases c) (auto simp: live_snoc live_step_def dest: in_diffD)
qed

lemma diff_NULL: "NULL \<notin># A \<Longrightarrow> A - B = A - filter_mset (\<lambda>p. p \<noteq> NULL) B"
  by (rule multiset_eqI) (auto simp: not_in_iff)

lemma filter_NULL: "NULL \<notin># A \<Longrightarrow> filter_mset (\<lambda>p. p \<noteq> NULL) A = A"
  by (rule multiset_eqI) (auto simp: not_in_iff)

lemma stream_blocks_eq:
  assumes "transfers d = Some (map Some ys)" and "length ys = transfer_count d"
  shows "stream_blocks d = filter_mset (\<lambda>p. p \<noteq> NULL)
    ({#output_buffer d, transfers_ptr d#} + xfer_blocks ys + mset (received_samples_queue d))"
proof -
  have e: "xfer_buffers d = map xfer_buffer ys" using assms by (rule xfer_buffers_map)
  have "map the (map Some ys) = ys" by (simp add: comp_def)
  then show ?thesis
    by (simp add: stream_blocks_def assms(1) all_buffers_def e xfer_blocks_def ac_simps del: filter_union_mset)
qed

lemma live_free_transfers:
  assumes "xfers_ok d"
  shows "live (snd (free_transfers d w)) = live w - stream_blocks d"
proof -
  obtain ys where ys: "transfers d = Some (map Some ys)" "length ys = transfer_count d"
    using assms by (auto simp: xfers_ok_def)
  let ?B = "{#output_buffer d, transfers_ptr d#} + xfer_blocks ys"
  have "live (snd (free_transfers d w)) =
        live w - ?B - filter_mset (\<lambda>p. p \<noteq> NULL) (mset (received_samples_queue d))"
    using ys by (simp add: free_transfers_def Let_def live_free live_free_xfers live_free_queue
        diff_diff_add_mset take_map ac_simps)
  also have "\<dots> = live w - filter_mset (\<lambda>p. p \<noteq> NULL) ?B -
        filter_mset (\<lambda>p. p \<noteq> NULL) (mset (received_samples_queue d))"
    by (simp only: diff_NULL [OF NULL_not_live, of w ?B])
  also have "\<dots> = live w - stream_blocks d"
    by (simp add: stream_blocks_eq [OF ys] diff_diff_add_mset del: add_mset_add_single)
  finally show ?thesis .
qed

lemma allocate_blocks:
  assumes "allocate_transfers E d w = (AIRSPYHF_SUCCESS, d', w')"
    and "length (received_samples_queue d) = 8"
  shows "live w' = live w + stream_blocks d'"
proof -
  obtain ps ys out p where d: "d' = d\<lparr>output_buffer := out, received_samples_queue := ps,
            transfers := Some (map Some ys), transfers_ptr := p\<rparr>" "length ys = transfer_count d"
      "NULL \<notin> set (ps @ map xfer_buffer ys)" "p \<noteq> NULL"
      "live w' = live w + filter_mset (\<lambda>p. p \<noteq> NULL) {#out#} + {#p#} + mset ps + xfer_blocks ys"
      "\<forall>y \<in> set ys. xfer_length y = buffer_size d \<and> xfer_addr y \<noteq> NULL"
    using allocate_transfers_ok [OF assms] by blast
  have ps: "filter_mset (\<lambda>p. p \<noteq> NULL) (mset ps) = mset ps"
    using d(3) by (intro filter_NULL) simp
  have ys: "filter_mset (\<lambda>p. p \<noteq> NULL) (xfer_blocks ys) = xfer_blocks ys"
    using d(3,6) by (intro filter_NULL) (auto simp: xfer_blocks_def)
  have "stream_blocks d' = filter_mset (\<lambda>p. p \<noteq> NULL)
      ({#out, p#} + xfer_blocks ys + mset ps)"
    using d(1,2) by (subst stream_blocks_eq [of _ ys]) simp_all
  then show ?thesis using ps ys d(4,5) by (simp add: ac_simps)
qed

section \<open>Starting\<close>

text \<open>What submission leaves of a transfer.\<close>

definition same_xfers :: "libusb_transfer list \<Rightarrow> libusb_transfer list \<Rightarrow> bool" where
  "same_xfers ys ys' \<longleftrightarrow> map xfer_addr ys' = map xfer_addr ys \<and>
     map xfer_buffer ys' = map xfer_buffer ys \<and> map xfer_length ys' = map xfer_length ys"

lemma same_xfers_refl [simp]: "same_xfers ys ys"
  by (simp add: same_xfers_def)

lemma same_xfers_update:
  "i < length ys \<Longrightarrow> same_xfers ys (ys[i := (ys ! i)\<lparr>endpoint := ep, xfer_callback := cb\<rparr>])"
  by (auto simp: same_xfers_def map_update intro!: nth_equalityI simp: nth_list_update)

lemma same_xfers_trans: "same_xfers xs ys \<Longrightarrow> same_xfers ys zs \<Longrightarrow> same_xfers xs zs"
  by (simp add: same_xfers_def)

lemma live_call [simp]:
  "live (w @ [SubmitTransfer x b]) = live w" "live (w @ [CtrlOut r v i bs]) = live w"
  "live (w @ [ClearHalt n]) = live w" "live (w @ [ThreadCreate n]) = live w"
  by (simp_all add: live_snoc live_step_def)

lemma prepare_loop_ok:
  assumes "transfers d = Some (map Some ys)" and "\<And>i. i \<in> set is \<Longrightarrow> i < length ys"
  shows "\<exists>r ys' n w'. prepare_loop E ep is d w =
             Some (r, d\<lparr>transfers := Some (map Some ys'), transfer_live := transfer_live d + int n\<rparr>, w') \<and>
           same_xfers ys ys' \<and> (r = AIRSPYHF_SUCCESS \<and> n = length is \<or> r = AIRSPYHF_ERROR \<and> n < length is) \<and>
           live w' = live w \<and> controls w' = controls w"
  using assms
proof (induction "is" arbitrary: d ys w)
  case Nil
  then show ?case by (intro exI [of _ AIRSPYHF_SUCCESS] exI [of _ ys] exI [of _ 0] exI [of _ w]) simp
next
  case (Cons i js)
  let ?x = "(ys ! i)\<lparr>endpoint := ep, xfer_callback := True\<rparr>"
  let ?d = "d\<lparr>transfers := Some (map Some (ys[i := ?x]))\<rparr>"
  let ?c = "SubmitTransfer (xfer_addr ?x) (xfer_buffer ?x)"
  have i: "i < length ys" using Cons.prems(2) by simp
  have x: "nth_xfer d i = Some (ys ! i)" using Cons.prems(1) i by (simp add: nth_xfer_def)
  have d: "set_xfer i ?x d = ?d" using Cons.prems(1) by (simp add: set_xfer_def map_update)
  have step: "prepare_loop E ep (i # js) d w =
      (if ret E w ?c \<noteq> 0 then Some (AIRSPYHF_ERROR, ?d, w @ [?c])
       else prepare_loop E ep js (?d\<lparr>transfer_live := transfer_live d + 1\<rparr>) (w @ [?c]))"
    by (simp add: x d Let_def libusb_submit_transfer_def call_def)
  note same = same_xfers_update [OF i, where ep = ep and cb = True]
  show ?case
  proof (cases "ret E w ?c = 0")
    case False
    then show ?thesis
      unfolding step using same
      by (intro exI [of _ AIRSPYHF_ERROR] exI [of _ "ys[i := ?x]"] exI [of _ 0] exI [of _ "w @ [?c]"])
         (simp add: controls_def)
  next
    case True
    from Cons.IH [of "?d\<lparr>transfer_live := transfer_live d + 1\<rparr>" "ys[i := ?x]" "w @ [?c]"] Cons.prems(2)
    obtain r ys' n w' where
      "prepare_loop E ep js (?d\<lparr>transfer_live := transfer_live d + 1\<rparr>) (w @ [?c]) =
         Some (r, ?d\<lparr>transfers := Some (map Some ys'), transfer_live := transfer_live d + 1 + int n\<rparr>, w')"
      "same_xfers (ys[i := ?x]) ys'"
      "r = AIRSPYHF_SUCCESS \<and> n = length js \<or> r = AIRSPYHF_ERROR \<and> n < length js"
      "live w' = live w" "controls w' = controls w"
      by (auto simp: controls_def)
    then show ?thesis
      unfolding step using True same_xfers_trans [OF same]
      by (intro exI [of _ r] exI [of _ ys'] exI [of _ "Suc n"] exI [of _ w']) (auto simp: add.assoc)
  qed
qed

lemma same_xfers_blocks: "same_xfers ys ys' \<Longrightarrow> xfer_blocks ys' = xfer_blocks ys"
  by (simp add: same_xfers_def xfer_blocks_def)

text \<open>The two mode requests every start sends, in this order.\<close>

definition mode_request :: "receiver_mode_t \<Rightarrow> api_call" where
  "mode_request m = CtrlOut AIRSPYHF_RECEIVER_MODE (receiver_mode_code m) 0 []"

lemma set_receiver_mode_eq:
  "airspyhf_set_receiver_mode E m w =
     (if ret E w (mode_request m) = 0 then AIRSPYHF_SUCCESS else AIRSPYHF_ERROR, w @ [mode_request m])"
  by (simp add: airspyhf_set_receiver_mode_def libusb_control_out_def mode_request_def Let_def)

lemma mode_request_trace [simp]:
  "controls (w @ [mode_request m]) = controls w @ [mode_request m]"
  "live (w @ [mode_request m]) = live w"
  "controls (w @ [ClearHalt n]) = controls w" "controls (w @ [ThreadCreate n]) = controls w"
  by (simp_all add: mode_request_def controls_def)

definition started_from :: "airspyhf_device \<Rightarrow> airspyhf_device \<Rightarrow> bool" where
  "started_from d d' \<longleftrightarrow>
     stream_ready d' \<and> airspyhf_is_streaming d' \<and> consumer_thread_running d' \<and>
     transfer_thread_running d' \<and> stream_blocks d' = stream_blocks d"

lemma create_io_threads_outcome:
  assumes idle: "stream_idle d" and clear: "dropped_buffers d = 0"
  shows "\<exists>r d' w'. create_io_threads E cb d w = Some (r, d', w') \<and>
           (r = AIRSPYHF_SUCCESS \<longrightarrow> started_from d d') \<and>
           (r = AIRSPYHF_SUCCESS \<or> r = AIRSPYHF_ERROR) \<and> streaming d' \<and> \<not> stop_requested d' \<and>
           live w' = live w \<and> controls w' = controls w"
proof -
  obtain ys where ys: "transfers d = Some (map Some ys)" "length ys = transfer_count d"
    using idle by (auto simp: stream_idle_def xfers_ok_def)
  let ?d = "d\<lparr>callback := cb, streaming := True\<rparr>"
  obtain r zs n w1 where p: "prepare_loop E bulk_endpoint [0..<transfer_count d] ?d w =
        Some (r, ?d\<lparr>transfers := Some (map Some zs), transfer_live := transfer_live d + int n\<rparr>, w1)"
      "same_xfers ys zs"
      "r = AIRSPYHF_SUCCESS \<and> n = transfer_count d \<or> r = AIRSPYHF_ERROR \<and> n < transfer_count d"
      "live w1 = live w" "controls w1 = controls w"
    using prepare_loop_ok [of ?d ys "[0..<transfer_count d]" E bulk_endpoint w] ys by auto
  define d2 where "d2 = ?d\<lparr>transfers := Some (map Some zs), transfer_live := transfer_live d + int n,
    received_samples_queue_head := 0, received_samples_queue_tail := 0, received_buffer_count := 0,
    consumer_thread_running := True, transfer_thread_running := True\<rparr>"
  have zl: "length zs = transfer_count d" "map xfer_buffer zs = map xfer_buffer ys"
    using p(2) ys(2) by (auto simp: same_xfers_def dest: map_eq_imp_length_eq)
  have xb: "xfer_buffers d2 = map xfer_buffer zs" "xfer_buffers d = map xfer_buffer ys"
    using xfer_buffers_map [of d2 zs] xfer_buffers_map [OF ys] zl(1) by (simp_all add: d2_def)
  have blocks: "stream_blocks d2 = stream_blocks d"
    using stream_blocks_eq [of d2 zs] stream_blocks_eq [OF ys] same_xfers_blocks [OF p(2)] zl
    by (simp add: d2_def)
  have ready: "started_from d d2" if "n = transfer_count d"
  proof -
    have "all_buffers d2 = all_buffers d" using xb zl by (simp add: all_buffers_def d2_def)
    moreover have "xfers_ok d2" using zl by (auto simp: xfers_ok_def d2_def)
    ultimately show ?thesis
      using idle clear that blocks
      by (simp add: started_from_def stream_ready_def stream_idle_def airspyhf_is_streaming_def)
         (simp add: d2_def)
  qed
  show ?thesis
  proof (cases "r = AIRSPYHF_SUCCESS")
    case True
    then have n: "n = transfer_count d" using p(3) by auto
    show ?thesis
      using True p ys idle ready [OF n]
      by (simp add: create_io_threads_def prepare_transfers_def stream_idle_def call_def d2_def
          controls_def live_def live_step_def Let_def split: if_splits)
  next
    case False
    then show ?thesis
      using p ys idle
      by (simp add: create_io_threads_def prepare_transfers_def stream_idle_def Let_def)
  qed
qed

lemma start_defined:
  assumes "stream_idle d"
  shows "\<exists>r d' w'. airspyhf_start E cb context d w = Some (r, d', w') \<and>
           (r = AIRSPYHF_SUCCESS \<or> r = AIRSPYHF_ERROR) \<and>
           (r = AIRSPYHF_SUCCESS \<longrightarrow> started_from d d' \<and>
              controls w' = controls w @ [mode_request RECEIVER_MODE_OFF, mode_request RECEIVER_MODE_ON])"
proof -
  let ?d = "d\<lparr>dropped_buffers_queue := replicate RAW_BUFFER_COUNT 0, dropped_buffers := 0,
               vec := \<lparr>re = f32 1, im = Zero False\<rparr>, ctx := context\<rparr>"
  have e: "all_buffers ?d = all_buffers d" "xfers_ok ?d = xfers_ok d" "stream_blocks ?d = stream_blocks d"
    by (simp_all add: all_buffers_def xfers_ok_def xfer_buffers_def nth_xfer_def stream_blocks_def)
  have "stream_idle ?d" using assms e by (simp add: stream_idle_def RAW_BUFFER_COUNT_def)
  from create_io_threads_outcome [OF this, of E cb] obtain r d' w' where
    "create_io_threads E cb ?d (w @ [mode_request RECEIVER_MODE_OFF] @ [ClearHalt bulk_endpoint]
       @ [mode_request RECEIVER_MODE_ON]) = Some (r, d', w')"
    "r = AIRSPYHF_SUCCESS \<longrightarrow> started_from ?d d'" "r = AIRSPYHF_SUCCESS \<or> r = AIRSPYHF_ERROR"
    "controls w' = controls (w @ [mode_request RECEIVER_MODE_OFF] @ [ClearHalt bulk_endpoint]
       @ [mode_request RECEIVER_MODE_ON])"
    by fastforce
  then show ?thesis
    using e(3)
    by (auto simp: airspyhf_start_def set_receiver_mode_eq call_def started_from_def Let_def controls_def
        mode_request_def)
qed

text \<open>
  C5 (refinement). \<open>airspyhf_start\<close> on a device at rest never misbehaves, and when it
  reports success the device is in a start state of the concurrent stream model, both
  threads are created and the device was told to switch off, then on.
\<close>

theorem start_establishes_stream:
  assumes "stream_idle d"
  shows "\<exists>r d' w'. airspyhf_start E cb context d w = Some (r, d', w') \<and>
           (r = AIRSPYHF_SUCCESS \<or> r = AIRSPYHF_ERROR) \<and>
           (r = AIRSPYHF_SUCCESS \<longrightarrow> started_from d d' \<and>
              controls w' = controls w @ [mode_request RECEIVER_MODE_OFF, mode_request RECEIVER_MODE_ON])"
  using assms by (rule start_defined)

end
