(* ===== verification/Stream_Properties.thy ===== *)
theory Stream_Properties
  imports Stream_Invariants
begin

text \<open>
  The properties of a running stream, for every interleaving of the USB host, the two I/O
  threads, the application's control operations and \<open>airspyhf_stop\<close>.
\<close>

section \<open>A concrete run\<close>

text \<open>
  A device with one transfer (buffer 9) and the queue's buffers 1 to 8, in blocks of one
  sample; a block arrives, is queued, and the consumer takes it.
\<close>

definition demo_libm :: libm where
  "demo_libm = \<lparr>m_cos = id, m_sin = id, m_exp = id, m_pow = (\<lambda>x _. x), m_powf = (\<lambda>x _. x)\<rparr>"

definition demo_xfer :: libusb_transfer where
  "demo_xfer = \<lparr>xfer_addr = 20, endpoint = 129, xfer_length = 4, xfer_buffer = 9,
                xfer_callback = True\<rparr>"

definition demo_device :: airspyhf_device where
  "demo_device = zero_device\<lparr>transfers := Some [Some demo_xfer], transfer_count := 1,
     transfer_live := 1, buffer_size := 4, received_samples_queue := [1, 2, 3, 4, 5, 6, 7, 8],
     streaming := True, output_buffer := 30\<rparr>"

definition demo_block :: samples16 where
  "demo_block = [\<lparr>im16 = 1, re16 = 2\<rparr>]"

definition demo0 :: stream_sys where
  "demo0 = stream_init demo_device (\<lambda>_. demo_block)"

text \<open>The transfer thread handles events and is in the callback of the transfer.\<close>

definition demo2 :: stream_sys where
  "demo2 = demo0\<lparr>dev := demo_device\<lparr>transfer_live := 0\<rparr>, submitted := {}, tpc := T_Locked 0\<rparr>"

text \<open>It has queued the block.\<close>

definition demo3 :: stream_sys where
  "demo3 = demo2\<lparr>dev := the (callback_locked 0 (dev demo2)), tpc := T_Submit 0,
                 received := [(demo_block, 0)]\<rparr>"

text \<open>The consumer has taken it.\<close>

definition demo4 :: stream_sys where
  "demo4 = demo3\<lparr>dev := snd (the (queue_take (dev demo3))), cpc := C_Have 9 0\<rparr>"

lemmas demo_defs = demo0_def demo2_def demo3_def demo4_def demo_device_def
  demo_xfer_def zero_device_def stream_init_def

lemma demo_ready: "stream_ready demo_device"
proof -
  have "xfers_ok demo_device"
    by (simp add: xfers_ok_def demo_device_def) (rule exI [of _ "[demo_xfer]"], simp)
  then show ?thesis
    by (simp add: stream_ready_def all_buffers_def xfer_buffers_def nth_xfer_def demo_device_def
        demo_xfer_def zero_device_def RAW_BUFFER_COUNT_def)
qed

lemma reach_consumer:
  "stream_reachable M L s \<Longrightarrow> consumer_test (dev s) (cpc s) = Some c \<Longrightarrow> stream_reachable M L (s\<lparr>cpc := c\<rparr>)"
  by (rule reach_step) (auto intro: consumer_tests)

lemma reach_transfer:
  "stream_reachable M L s \<Longrightarrow> transfer_test (dev s) (tpc s) = Some c \<Longrightarrow> stream_reachable M L (s\<lparr>tpc := c\<rparr>)"
  by (rule reach_step) (auto intro: transfer_tests)

lemma demo_reach0: "stream_reachable M L demo0"
  unfolding demo0_def by (rule reach_init [OF demo_ready])

lemma demo_flags:
  "streaming demo_device" "\<not> stop_requested demo_device" "received_buffer_count demo_device = 0"
  by (simp_all add: demo_device_def zero_device_def)

lemma demo0_fields [simp]:
  "dev demo0 = demo_device" "cpc demo0 = C_Start" "tpc demo0 = T_While" "mpc demo0 = M_Run"
  "submitted demo0 = {0}" "memory demo0 = (\<lambda>_. demo_block)" "stale demo0 = None" "received demo0 = []"
  "delivered demo0 = []"
  by (simp_all add: demo_defs)

lemma demo_reach2: "stream_reachable M L demo2"
proof -
  have "stream_reachable M L (demo0\<lparr>tpc := T_While_stop\<rparr>)"
    by (rule reach_transfer [OF demo_reach0]) (simp add: demo_flags)
  from reach_transfer [OF this, of T_Events] have 1: "stream_reachable M L (demo0\<lparr>tpc := T_Events\<rparr>)"
    by (simp add: demo_flags)
  have "nth_xfer demo_device 0 = Some demo_xfer" by (simp add: demo_device_def nth_xfer_def)
  then have "stream_step M L (demo0\<lparr>tpc := T_Events\<rparr>) ((demo0\<lparr>tpc := T_Events\<rparr>)\<lparr>dev := callback_count demo_device,
      submitted := {0} - {0}, tpc := (if streaming demo_device then T_Entered 0 (callback_good demo_xfer True 4) else T_Events)\<rparr>)"
    using callback_begin [of "demo0\<lparr>tpc := T_Events\<rparr>" 0 demo_xfer M L True 4] by simp
  from reach_step [OF 1 this] have 2: "stream_reachable M L
      (demo0\<lparr>dev := demo_device\<lparr>transfer_live := 0\<rparr>, submitted := {}, tpc := T_Entered 0 True\<rparr>)" (is "stream_reachable M L ?s")
    by (simp add: demo_flags callback_good_def demo_xfer_def callback_count_def) (simp add: demo_device_def)
  have "transfer_test (dev ?s) (tpc ?s) = Some (T_Locked 0)" by (simp add: demo_flags)
  from reach_transfer [OF 2 this] show ?thesis by (simp add: demo2_def)
qed

lemma demo_push:
  "callback_locked 0 (dev demo2) = Some (demo_device\<lparr>transfer_live := 0,
     transfers := Some [Some (demo_xfer\<lparr>xfer_buffer := 1\<rparr>)],
     received_samples_queue := [9, 2, 3, 4, 5, 6, 7, 8], received_samples_queue_head := 1,
     received_buffer_count := 1\<rparr>)"
  by (simp add: demo_defs callback_locked_def queue_full_def queue_push_def nth_xfer_def
      set_xfer_def RAW_BUFFER_COUNT_def numeral_eq_Suc and_7_eq_mod_8 [simplified])

lemma demo_reach3: "stream_reachable M L demo3"
proof (rule reach_step [OF demo_reach2])
  have "stream_step M L demo2 (demo2\<lparr>dev := the (callback_locked 0 (dev demo2)), tpc := T_Submit 0,
      cpc := wake (cpc demo2),
      received := received demo2 @ [(memory demo2 (xfer_buffer demo_xfer), dropped_buffers (dev demo2))]\<rparr>)"
    by (rule callback_push)
       (simp_all add: demo_push, simp_all add: demo_defs nth_xfer_def queue_full_def RAW_BUFFER_COUNT_def)
  then show "stream_step M L demo2 demo3"
    by (simp add: demo3_def) (simp add: demo_defs wake_def)
qed

lemma demo_take:
  "queue_take (dev demo3) = Some ((9, 0), (the (callback_locked 0 (dev demo2)))\<lparr>received_samples_queue_tail := 1\<rparr>)"
  by (simp add: demo3_def demo_push)
     (simp add: demo_device_def zero_device_def queue_take_def RAW_BUFFER_COUNT_def)

lemma demo3_flags:
  "streaming (dev demo3)" "\<not> stop_requested (dev demo3)" "received_buffer_count (dev demo3) = 1"
  "cpc demo3 = C_Start" "stale demo3 = None"
  by (simp_all add: demo3_def demo_push demo_flags) (simp_all add: demo2_def)

lemma demo_reach4: "stream_reachable M L demo4"
proof -
  let ?at = "\<lambda>c. demo3\<lparr>cpc := c\<rparr>"
  have move: "stream_reachable M L (?at c')"
    if "stream_reachable M L (?at c)" "consumer_test (dev demo3) c = Some c'" for c c'
    using reach_consumer [OF that(1), of c'] that(2) by simp
  have "?at C_Start = demo3" by (simp flip: demo3_flags(4))
  then have "stream_reachable M L (?at C_Start)" using demo_reach3 by simp
  then have "stream_reachable M L (?at C_While)" by (rule move) simp
  then have "stream_reachable M L (?at C_While_stop)" by (rule move) (simp add: demo3_flags)
  then have "stream_reachable M L (?at C_Empty)" by (rule move) (simp add: demo3_flags)
  then have "stream_reachable M L (?at C_If)" by (rule move) (simp add: demo3_flags)
  then have 1: "stream_reachable M L (?at C_If_stop)" by (rule move) (simp add: demo3_flags)
  have "stream_step M L (?at C_If_stop) ((?at C_If_stop)\<lparr>dev := snd (the (queue_take (dev demo3))), cpc := C_Have 9 0,
      stale := (if stale (?at C_If_stop) = None \<and> received_buffer_count (dev (?at C_If_stop)) = 0
                then Some (length (delivered (?at C_If_stop))) else stale (?at C_If_stop))\<rparr>)"
    by (rule consumer_take) (simp_all add: demo_take demo3_flags)
  then have "stream_step M L (?at C_If_stop) demo4"
    by (simp add: demo4_def demo3_flags(3))
  with 1 show ?thesis by (rule reach_step)
qed

section \<open>Delivery\<close>

lemma length_backlog:
  assumes "order_ok s"
  shows "length (backlog s) \<le> 8"
proof -
  have inv: "queue_inv (dev s) (holding (cpc s))" using assms by (simp add: order_ok_def)
  have "length (in_hand (cpc s)) \<le> holding (cpc s)" by (cases "cpc s") auto
  then show ?thesis using rawq.bound_law [OF inv] by (simp add: backlog_def)
qed

text \<open>Until \<open>kill_io_threads\<close> clears \<open>stop_requested\<close> no slot of an empty queue is taken.\<close>

lemma fresh_until_clear:
  assumes "stream_reachable M L s" and "stale s = None \<or> mpc s \<in> {M_Run, M_Stop}"
  shows "stale s = None" and "order_ok s"
proof -
  show "stale s = None" using reachable_ok(5) [OF assms(1)] assms(2) by (auto simp: window_ok_def)
  then show "order_ok s" using reachable_ok(2) [OF assms(1)] by (simp add: fifo_ok_def)
qed

text \<open>
  C1 (invariant). The application gets every received block exactly once, in order and
  unmodified, until \<open>kill_io_threads\<close> clears \<open>stop_requested\<close>, and after that as long as the
  consumer has not taken a slot of an empty queue: the received blocks are the delivered
  ones followed by a backlog of at most \<open>RAW_BUFFER_COUNT\<close> blocks. When it has, the blocks
  delivered before are still exactly those received by then.
\<close>

theorem stream_delivery_fifo:
  assumes "stream_reachable M L s"
  shows "(mpc s \<in> {M_Run, M_Stop} \<longrightarrow> stale s = None) \<and>
    (case stale s of
       None \<Rightarrow> \<exists>rest. received s = delivered s @ rest \<and> length rest \<le> RAW_BUFFER_COUNT
     | Some k \<Rightarrow> k \<le> length (delivered s) \<and> k \<le> length (received s) \<and> take k (delivered s) = take k (received s))"
proof (cases "stale s")
  case None
  then have o: "order_ok s" using fresh_until_clear(2) [OF assms] by simp
  then have "received s = delivered s @ contents s (backlog s)" by (simp add: order_ok_def)
  moreover have "length (contents s (backlog s)) \<le> RAW_BUFFER_COUNT"
    using length_backlog [OF o] by (simp add: contents_def RAW_BUFFER_COUNT_def)
  ultimately show ?thesis using None by auto
next
  case (Some k)
  then show ?thesis
    using reachable_ok(2,5) [OF assms] by (auto simp: fifo_ok_def window_ok_def)
qed

theorem stream_delivery_fifo_witness:
  "stale demo4 = None \<and> (\<exists>rest. received demo4 = delivered demo4 @ rest \<and> length rest \<le> RAW_BUFFER_COUNT)"
  using stream_delivery_fifo [OF demo_reach4] by (simp add: demo4_def demo3_flags)

text \<open>
  C2 (safety). While the consumer works on a buffer without the mutex, no transfer holds
  that buffer, so neither the USB host nor any other step changes its contents; this, too,
  until \<open>kill_io_threads\<close> clears \<open>stop_requested\<close>, and after that unless a slot of an empty
  queue has been taken.
\<close>

theorem consumer_buffer_exclusive:
  assumes "stream_reachable M L s" and "cpc s = C_Have p n \<or> cpc s = C_Convert p n"
    and "stale s = None \<or> mpc s \<in> {M_Run, M_Stop}"
  shows "(\<forall>i x. nth_xfer (dev s) i = Some x \<longrightarrow> xfer_buffer x \<noteq> p) \<and>
         (\<forall>t. stream_step M L s t \<longrightarrow> memory t p = memory s p)"
proof -
  have wf: "stream_wf s" using reachable_ok [OF assms(1)] by simp
  have "p \<in> fst ` set (backlog s)" using assms(2) by (auto simp: backlog_def)
  then have ex: "xfer_buffer x \<noteq> p" if "nth_xfer (dev s) i = Some x" for i x
    using backlog_not_in_transfer [OF wf fresh_until_clear(2) [OF assms(1,3)] that] by auto
  moreover have "memory t p = memory s p" if "stream_step M L s t" for t
    using that by cases (use ex in auto)
  ultimately show ?thesis by blast
qed

theorem consumer_buffer_exclusive_witness:
  "cpc demo4 = C_Have 9 0 \<and> (\<exists>x. nth_xfer (dev demo4) 0 = Some x \<and> xfer_buffer x \<noteq> 9)"
proof -
  have c: "cpc demo4 = C_Have 9 0" "stale demo4 = None" by (simp_all add: demo4_def demo3_flags)
  have "nth_xfer (dev demo4) 0 = Some (demo_xfer\<lparr>xfer_buffer := 1\<rparr>)"
    by (simp add: demo4_def demo_take demo_push nth_xfer_def)
  with c consumer_buffer_exclusive [OF demo_reach4] show ?thesis by blast
qed

section \<open>Ownership of the buffers\<close>

lemma all_buffers_step:
  assumes "stream_step M L s t" and wf: "stream_wf s"
  shows "mset (all_buffers (dev t)) = mset (all_buffers (dev s))"
  using assms(1)
proof cases
  case (callback_begin i x ok n)
  then show ?thesis by (simp add: all_buffers_cong [OF callback_count_view(1,2)])
next
  case (main_events i x ok n d')
  then show ?thesis using all_buffers_cong [OF callback_enter_view(1,2) [OF main_events(5)]] by simp
next
  case (callback_push i d' x)
  then show ?thesis using locked_push_wf(3) [OF wf callback_push(2,4,5,6)] by simp
next
  case (callback_submit i failed)
  then show ?thesis by (simp add: all_buffers_cong [OF callback_resubmit_view(1,2)])
next
  case (consumer_take p n d')
  have "queue_shape (dev s)" using wf by (simp add: stream_wf_def)
  from queue_take_frame(5) [OF this consumer_take(4)] consumer_take(1) show ?thesis by simp
next
  case (consumer_process p n out d' r)
  have "queue_view d' = queue_view (dev s) \<and> xfer_view d' = xfer_view (dev s)"
    by (rule stream_view_views [OF convert_samples_stream_view [OF consumer_process(4)]])
  with consumer_process(1) all_buffers_cong [of d' "dev s"] show ?thesis by simp
next
  case (consumer_disturbed p n d' r out)
  with stream_view_views [OF consumer_disturbed(4)] all_buffers_cong [of d' "dev s"] show ?thesis by simp
next
  case (control d')
  with stream_view_views [OF control(2)] all_buffers_cong [of d' "dev s"] show ?thesis by simp
qed (auto simp: callback_locked_full)

lemma steps_ok:
  assumes "(stream_step M L)\<^sup>*\<^sup>* s t" and "stream_reachable M L s"
  shows "stream_reachable M L t"
  using assms by (induction rule: rtranclp_induct) (auto intro: reach_step)

text \<open>
  C3 (invariant). The callback's swapping of buffers neither loses, duplicates nor invents
  one: throughout a stream the queue's slots and the transfers together hold exactly the
  buffers they held at its start, each once.
\<close>

theorem stream_buffers_conserved:
  assumes "stream_ready d" and "(stream_step M L)\<^sup>*\<^sup>* (stream_init d mem) s"
  shows "mset (all_buffers (dev s)) = mset (all_buffers d) \<and> distinct (all_buffers (dev s))"
proof -
  have "mset (all_buffers (dev s)) = mset (all_buffers d)"
    using assms(2)
  proof (induction rule: rtranclp_induct)
    case base
    then show ?case by (simp add: stream_init_def)
  next
    case (step t u)
    have "stream_wf t"
      using steps_ok [OF step(1) reach_init [OF assms(1)]] reachable_ok(1) by blast
    with step show ?case using all_buffers_step [OF step(2)] by simp
  qed
  moreover have "distinct (all_buffers (dev s))"
    using reachable_ok(1) [OF steps_ok [OF assms(2) reach_init [OF assms(1)]]]
    by (simp add: stream_wf_def)
  ultimately show ?thesis by simp
qed

theorem stream_buffers_conserved_witness:
  "stream_ready demo_device \<and> distinct (all_buffers (dev demo0))"
  using stream_buffers_conserved [OF demo_ready, of M L "\<lambda>_. demo_block" demo0 for M L] demo_ready
  by (simp add: demo0_def)

section \<open>Defined behaviour of the queue accesses\<close>

lemma queue_accesses_safe:
  assumes "stream_reachable M L s"
  shows "(\<forall>i. tpc s = T_Locked i \<longrightarrow> callback_locked i (dev s) \<noteq> None) \<and> queue_take (dev s) \<noteq> None \<and>
         received_buffer_count (dev s) \<le> int RAW_BUFFER_COUNT"
proof -
  have wf: "stream_wf s" using reachable_ok [OF assms] by simp
  then have shape: "queue_shape (dev s)" and ok: "xfers_ok (dev s)"
    by (simp_all add: stream_wf_def)
  have "callback_locked i (dev s) \<noteq> None" if t: "tpc s = T_Locked i" for i
  proof (cases "queue_full (dev s)")
    case True
    then show ?thesis by (simp add: callback_locked_full)
  next
    case False
    have "i < transfer_count (dev s)" using wf t by (simp add: stream_wf_def)
    then obtain x where "nth_xfer (dev s) i = Some x" using nth_xfer_ok [OF ok] by blast
    then show ?thesis by (rule callback_locked_shape [OF shape False ok]) simp
  qed
  then show ?thesis using shape queue_take_shape(1) [OF shape] by (auto simp: queue_shape_def RAW_BUFFER_COUNT_def)
qed

text \<open>
  C21 (safety). The ring indices stay inside the arrays in every interleaving: in every
  reachable state the locked part of the callback and the consumer's access to the slot at
  the tail are defined, and the count of queued buffers is at most \<open>RAW_BUFFER_COUNT\<close>. It is
  not negative, and at least 1 while the consumer has a slot, until \<open>kill_io_threads\<close> clears
  \<open>stop_requested\<close>, and after that unless a slot of an empty queue has been taken.
\<close>

theorem queue_accesses_defined:
  assumes "stream_reachable M L s"
  shows "(\<forall>i. tpc s = T_Locked i \<longrightarrow> callback_locked i (dev s) \<noteq> None) \<and> queue_take (dev s) \<noteq> None \<and>
         received_buffer_count (dev s) \<le> int RAW_BUFFER_COUNT \<and>
         (stale s = None \<or> mpc s \<in> {M_Run, M_Stop} \<longrightarrow> int (holding (cpc s)) \<le> received_buffer_count (dev s))"
  using queue_accesses_safe [OF assms] fresh_until_clear(2) [OF assms]
  by (auto simp: order_ok_def queue_inv_def)

theorem queue_accesses_defined_witness:
  "tpc demo2 = T_Locked 0 \<and> callback_locked 0 (dev demo2) \<noteq> None"
proof -
  have "tpc demo2 = T_Locked 0" by (simp add: demo2_def)
  with queue_accesses_defined [OF demo_reach2] show ?thesis by blast
qed

section \<open>The race of \<open>airspyhf_stop\<close> with the consumer\<close>

text \<open>
  The consumer leaves the inner loop because \<open>stop_requested\<close> is set, and finds it cleared when
  it tests it again: with an empty queue and \<open>streaming\<close> still set it takes a slot.
\<close>

definition race0 :: stream_sys where
  "race0 = demo0\<lparr>dev := demo_device\<lparr>stop_requested := False\<rparr>, mpc := M_Clear, cpc := C_If_stop\<rparr>"

lemma demo_at_inner: "stream_reachable M L (demo0\<lparr>cpc := C_Inner_stop\<rparr>)"
proof -
  let ?at = "\<lambda>c. demo0\<lparr>cpc := c\<rparr>"
  have move: "stream_reachable M L (?at c')"
    if "stream_reachable M L (?at c)" "consumer_test demo_device c = Some c'" for c c'
    using reach_consumer [OF that(1), of c'] that(2) by simp
  have "?at C_Start = demo0" by (intro stream_sys.equality) simp_all
  then have "stream_reachable M L (?at C_Start)" using demo_reach0 by metis
  then have "stream_reachable M L (?at C_While)" by (rule move) simp
  then have "stream_reachable M L (?at C_While_stop)" by (rule move) (simp add: demo_flags)
  then have "stream_reachable M L (?at C_Empty)" by (rule move) (simp add: demo_flags)
  then have "stream_reachable M L (?at C_Inner)" by (rule move) (simp add: demo_flags)
  then show ?thesis by (rule move) (simp add: demo_flags)
qed

lemma race_reach0: "stream_reachable M L race0"
proof -
  from reach_step [OF demo_at_inner main_stop] have
    "stream_reachable M L (demo0\<lparr>cpc := C_Inner_stop, dev := demo_device\<lparr>stop_requested := True\<rparr>, mpc := M_Stop\<rparr>)"
    by simp
  from reach_consumer [OF this, of C_If] have
    "stream_reachable M L (demo0\<lparr>dev := demo_device\<lparr>stop_requested := True\<rparr>, mpc := M_Stop, cpc := C_If\<rparr>)" by simp
  from reach_step [OF this main_clear] have
    "stream_reachable M L (demo0\<lparr>cpc := C_If, dev := demo_device\<lparr>stop_requested := False\<rparr>, mpc := M_Clear\<rparr>)"
    by simp
  from reach_consumer [OF this, of C_If_stop] show ?thesis by (simp add: race0_def demo_flags)
qed

text \<open>The block delivered then is whatever the slot holds.\<close>

definition race_taken :: airspyhf_device where
  "race_taken = (dev race0)\<lparr>received_samples_queue_tail := 1\<rparr>"

lemma race_take: "queue_take (dev race0) = Some ((1, 0), race_taken)"
  by (simp add: race_taken_def race0_def queue_take_def demo_device_def zero_device_def RAW_BUFFER_COUNT_def)

lemma race_convert:
  "convert_samples M L race_taken demo_block (block_samples race_taken) =
     Some (map (convert_sample (conversion_gain (Zero False))) demo_block, race_taken)"
  by (simp add: race_taken_def race0_def convert_samples_def demo_device_def zero_device_def demo_block_def
      block_samples_def sizeof_complex_int16_def)

text \<open>
  \<open>airspyhf_stop\<close> can make the consumer deliver a block that was never received:
  when the consumer, waiting with an empty queue, tests the flags while \<open>kill_io_threads\<close> is
  between setting and clearing \<open>stop_requested\<close> and again before \<open>streaming\<close> is cleared, it
  takes a slot of the empty queue, and the count of buffers becomes -1.
\<close>

lemma stop_race_delivers_stale:
  "\<exists>s. stream_reachable M L s \<and> received s = [] \<and> length (delivered s) = 1 \<and>
       received_buffer_count (dev s) = - 1 \<and> stale s = Some 0"
proof -
  have r0: "cpc race0 = C_If_stop" "\<not> stop_requested (dev race0)" "stale race0 = None" "delivered race0 = []"
    "received race0 = []" "received_buffer_count (dev race0) = 0" "memory race0 = (\<lambda>_. demo_block)"
    by (simp_all add: race0_def demo_flags)
  let ?s1 = "race0\<lparr>dev := race_taken, cpc := C_Have 1 0, stale := Some 0\<rparr>"
  let ?s2 = "race0\<lparr>dev := race_taken, stale := Some 0, cpc := C_Convert 1 0, disturbed := False\<rparr>"
  have "stream_step M L race0 ?s1" using consumer_take [OF r0(1,2) race_take, of M L] r0 by simp
  from reach_step [OF race_reach0 this] have "stream_reachable M L ?s1" .
  from reach_step [OF this consumer_begin] have 2: "stream_reachable M L ?s2" by simp
  let ?out = "map (convert_sample (conversion_gain (Zero False))) demo_block"
  have c: "convert_samples M L (dev ?s2) (memory ?s2 1) (block_samples (dev ?s2)) = Some (?out, race_taken)"
    using race_convert r0(7) by simp
  have "stream_step M L ?s2 (?s2\<lparr>dev := race_taken, cpc := (if (0 :: int) \<noteq> 0 then C_Failed else C_Called),
      delivered := delivered ?s2 @ [(memory ?s2 1, 0)],
      outputs := outputs ?s2 @ [make_transfer ?out (block_samples (dev ?s2)) 0]\<rparr>)" (is "stream_step M L _ ?s3")
    using c by (intro consumer_process [of _ 1 0]) simp_all
  from reach_step [OF 2 this] have 3: "stream_reachable M L ?s3" .
  have "stream_step M L ?s3 (?s3\<lparr>dev := queue_release (dev ?s3), cpc := C_While\<rparr>)" (is "stream_step M L _ ?s4")
    by (rule consumer_release) simp
  from reach_step [OF 3 this] have "stream_reachable M L ?s4" .
  moreover have "received_buffer_count (dev ?s4) = - 1"
    using r0(6) by (simp add: queue_release_def race_taken_def)
  ultimately show ?thesis using r0 by (intro exI [of _ ?s4]) simp
qed

section \<open>Accounting\<close>

text \<open>
  \<open>transfer_live\<close>, on which \<open>cancel_transfers\<close> bases its waiting, is exactly
  the number of transfers submitted and not yet completed.
\<close>

lemma transfer_live_exact:
  assumes "stream_reachable M L s"
  shows "transfer_live (dev s) = int (card (submitted s)) \<and>
         transfer_live (dev s) \<le> int (transfer_count (dev s))"
proof -
  have wf: "stream_wf s" using reachable_ok [OF assms] by simp
  then have "card (submitted s) \<le> card {..<transfer_count (dev s)}"
    unfolding stream_wf_def by (meson card_mono finite_lessThan)
  then show ?thesis using wf by (simp add: stream_wf_def)
qed

text \<open>The application's blocks report the stamps of the delivered buffers.\<close>

definition outputs_ok :: "nat \<Rightarrow> stream_sys \<Rightarrow> bool" where
  "outputs_ok n s \<longleftrightarrow> block_samples (dev s) = n \<and>
     map dropped_samples (outputs s) = map (\<lambda>(_, k). ucast k * of_nat n) (delivered s) \<and>
     list_all (\<lambda>o'. sample_count o' = int n) (outputs s)"

lemma block_samples_cong: "buffer_size d' = buffer_size d \<Longrightarrow> block_samples d' = block_samples d"
  by (simp add: block_samples_def)

lemma callback_locked_size:
  "callback_locked i d = Some d' \<Longrightarrow> buffer_size d' = buffer_size d"
  by (auto simp: callback_locked_def queue_push_def set_xfer_def split: if_splits bind_splits)

lemma buffer_size_step:
  assumes "stream_step M L s t"
  shows "buffer_size (dev t) = buffer_size (dev s)"
  using assms
proof cases
  case (main_events i x ok n d')
  then show ?thesis by (auto simp: callback_enter_def Let_def split: if_splits)
next
  case (consumer_process p n out d' r)
  then show ?thesis
    using convert_samples_stream_view [OF consumer_process(4)] by (simp add: stream_view_eq_iff)
next
  case (consumer_disturbed p n d' r out)
  then show ?thesis by (simp add: stream_view_eq_iff)
next
  case (control d')
  then show ?thesis by (simp add: stream_view_eq_iff)
qed (auto simp: callback_locked_size callback_resubmit_def queue_release_def queue_take_def
       split: bind_splits)

lemma outputs_step:
  assumes "stream_step M L s t" and "outputs_ok n s"
  shows "outputs_ok n t"
proof -
  have "block_samples (dev t) = n"
    using block_samples_cong [OF buffer_size_step [OF assms(1)]] assms(2) by (simp add: outputs_ok_def)
  with assms(1) show ?thesis
    by cases (use assms(2) in \<open>auto simp: outputs_ok_def make_transfer_def\<close>)
qed

lemma outputs_reachable: "stream_reachable M L s \<Longrightarrow> outputs_ok (block_samples (dev s)) s"
proof (induction rule: stream_reachable.induct)
  case (reach_init d mem)
  then show ?case by (simp add: outputs_ok_def stream_init_def)
next
  case (reach_step s t)
  then show ?case
    using outputs_step [OF reach_step(2), of "block_samples (dev s)"]
      block_samples_cong [OF buffer_size_step [OF reach_step(2)]] by simp
qed

lemma unat_dropped_samples:
  assumes "n < 2 ^ 32"
  shows "unat (ucast (k :: u32) * of_nat n :: u64) = unat k * n"
proof -
  have k: "unat k < 2 ^ 32" by (rule order_less_le_trans [OF unsigned_less]) simp
  then have "unat k * n < 2 ^ 32 * 2 ^ 32" using assms k by (intro mult_strict_mono) auto
  then have b: "unat k * n < 2 ^ 64" by simp
  have "unat (ucast k :: u64) = unat k"
    using k by (simp add: unsigned_ucast_eq take_bit_nat_eq_self)
  moreover have "unat (of_nat n :: u64) = n"
    using assms by (simp add: unsigned_of_nat take_bit_nat_eq_self)
  ultimately show ?thesis using b by (simp add: unat_word_ariths)
qed

text \<open>
  C22 (invariant). No dropped buffer goes unreported: modulo the 32 bits of the counter, the
  buffers dropped so far are those stamped on the blocks received and those still in
  \<open>dropped_buffers\<close>; a delivered block reports exactly its stamp times the block size in
  samples, which never wraps in 64 bits; and until a slot of an empty queue is taken, which
  does not happen before \<open>kill_io_threads\<close> clears \<open>stop_requested\<close>, the stamps of the blocks
  received are those of the blocks delivered and of the backlog, each once.
\<close>

theorem dropped_accounting:
  assumes "stream_reachable M L s" and "block_samples (dev s) < 2 ^ 32"
  shows "(of_nat (drops s) :: u32) = sum_list (map snd (received s)) + dropped_buffers (dev s) \<and>
         map (\<lambda>b. unat (dropped_samples b)) (outputs s) =
           map (\<lambda>(_, k). unat k * block_samples (dev s)) (delivered s) \<and>
         (stale s = None \<or> mpc s \<in> {M_Run, M_Stop} \<longrightarrow>
            map snd (received s) = map snd (delivered s) @ map snd (backlog s))"
proof -
  have "map snd (contents s (backlog s)) = map snd (backlog s)"
    by (simp add: contents_def case_prod_unfold)
  then have stamps: "map snd (received s) = map snd (delivered s) @ map snd (backlog s)"
    if "stale s = None \<or> mpc s \<in> {M_Run, M_Stop}"
    using fresh_until_clear(2) [OF assms(1) that] by (simp add: order_ok_def)
  have "map (\<lambda>b. unat (dropped_samples b)) (outputs s) = map unat (map dropped_samples (outputs s))"
    by simp
  also have "\<dots> = map unat (map (\<lambda>(_, k). ucast k * of_nat (block_samples (dev s)) :: u64) (delivered s))"
    using outputs_reachable [OF assms(1)] unfolding outputs_ok_def by (simp only:)
  also have "\<dots> = map (\<lambda>(_, k). unat k * block_samples (dev s)) (delivered s)"
    using unat_dropped_samples [OF assms(2)] by (simp add: case_prod_unfold)
  finally have "map (\<lambda>b. unat (dropped_samples b)) (outputs s) =
      map (\<lambda>(_, k). unat k * block_samples (dev s)) (delivered s)" .
  with stamps reachable_ok(3) [OF assms(1)] show ?thesis by (auto simp: drops_ok_def)
qed

theorem dropped_accounting_witness:
  "block_samples (dev demo2) < 2 ^ 32 \<and> stale demo2 = None \<and>
   (of_nat (drops demo2) :: u32) = sum_list (map snd (received demo2)) + dropped_buffers (dev demo2)"
proof -
  have b: "block_samples (dev demo2) < 2 ^ 32" "stale demo2 = None"
    by (simp_all add: block_samples_def demo_defs sizeof_complex_int16_def)
  show ?thesis using b dropped_accounting [OF demo_reach2 b(1)] by blast
qed

section \<open>Waiting\<close>

text \<open>
  C20 (safety). No wake-up is lost: the consumer never sleeps while a buffer is queued, and
  once \<open>kill_io_threads\<close> has signalled it does not sleep at all.
\<close>

theorem no_lost_wakeup:
  assumes "stream_reachable M L s" and "cpc s = C_Waiting"
  shows "received_buffer_count (dev s) = 0 \<and> mpc s \<notin> {M_Join, M_Done}"
  using reachable_ok(4,5) [OF assms(1)] assms(2) by (auto simp: shutdown_ok_def window_ok_def)

theorem no_lost_wakeup_witness:
  "cpc (demo0\<lparr>cpc := C_Waiting\<rparr>) = C_Waiting \<and>
   received_buffer_count (dev (demo0\<lparr>cpc := C_Waiting\<rparr>)) = 0"
proof -
  have "stream_reachable M L (demo0\<lparr>cpc := C_Waiting\<rparr>)" for M L
    using reach_consumer [OF demo_at_inner, of C_Waiting] by (simp add: demo_flags)
  from no_lost_wakeup [OF this] show ?thesis by simp
qed

section \<open>Shutting down\<close>

text \<open>How far each thread is from its end, and \<open>airspyhf_stop\<close> from its, once \<open>streaming\<close> is false.\<close>

fun consumer_rank :: "consumer_pc \<Rightarrow> nat" where
  "consumer_rank C_Exit = 0"
| "consumer_rank C_Break = 1"
| "consumer_rank C_If = 2"
| "consumer_rank C_While = 2"
| "consumer_rank C_Start = 3"
| "consumer_rank C_Inner = 3"
| "consumer_rank C_Called = 3"
| "consumer_rank C_Empty = 4"
| "consumer_rank C_Failed = 4"
| "consumer_rank C_Woken = 5"
| "consumer_rank C_While_stop = 5"
| "consumer_rank (C_Convert _ _) = 5"
| "consumer_rank C_Waiting = 6"
| "consumer_rank (C_Have _ _) = 6"
| "consumer_rank C_Inner_stop = 7"
| "consumer_rank C_If_stop = 7"

fun transfer_rank :: "transfer_pc \<Rightarrow> nat" where
  "transfer_rank T_Exit = 0"
| "transfer_rank T_End = 1"
| "transfer_rank T_While = 2"
| "transfer_rank T_Error = 3"
| "transfer_rank T_Events = 4"
| "transfer_rank T_Failed = 5"
| "transfer_rank T_While_stop = 5"
| "transfer_rank (T_Submit _) = 6"
| "transfer_rank (T_Locked _) = 7"
| "transfer_rank (T_Entered _ _) = 8"

fun main_rank :: "main_pc \<Rightarrow> nat" where
  "main_rank M_Cancel = 2"
| "main_rank M_Join = 1"
| "main_rank M_Done = 0"
| "main_rank M_Clear = 3"
| "main_rank M_Stop = 4"
| "main_rank M_Run = 5"

definition shutdown_left :: "stream_sys \<Rightarrow> nat" where
  "shutdown_left s = consumer_rank (cpc s) + transfer_rank (tpc s) + main_rank (mpc s) + card (submitted s)"

text \<open>A step of the environment: the host writes data, or a control operation.\<close>

definition no_thread_moved :: "stream_sys \<Rightarrow> stream_sys \<Rightarrow> bool" where
  "no_thread_moved s t \<longleftrightarrow> cpc t = cpc s \<and> tpc t = tpc s \<and> mpc t = mpc s \<and> submitted t = submitted s \<and>
     stream_view (dev t) = stream_view (dev s) \<and> delivered t = delivered s \<and> received t = received s"

text \<open>Blocks handed over or about to be.\<close>

definition committed :: "stream_sys \<Rightarrow> nat" where
  "committed s = length (delivered s) + (if in_hand (cpc s) \<noteq> [] \<or> cpc s = C_If_stop then 1 else 0)"

lemma consumer_rank_wake: "consumer_rank (wake c) \<le> consumer_rank c"
  by (simp add: wake_def)

lemma consumer_test_rank:
  "consumer_test d c = Some c' \<Longrightarrow> \<not> streaming d \<Longrightarrow> consumer_rank c' < consumer_rank c \<and> c' \<noteq> C_If_stop"
  by (cases c) (auto split: if_splits)

lemma transfer_test_rank:
  "transfer_test d c = Some c' \<Longrightarrow> \<not> streaming d \<Longrightarrow> transfer_rank c' < transfer_rank c"
  by (cases c) (auto split: if_splits)

lemma transfer_clears_rank: "transfer_clears c = Some c' \<Longrightarrow> transfer_rank c' < transfer_rank c"
  by (cases c) auto

lemma card_completed: "finite A \<Longrightarrow> i \<in> A \<Longrightarrow> card (A - {i}) < card A"
  by (rule card_Diff1_less)

lemma shutdown_decreases:
  assumes step: "stream_step M L s t" and fin: "finite (submitted s)" and off: "\<not> streaming (dev s)"
  shows "shutdown_left t < shutdown_left s \<or> no_thread_moved s t"
  using step
proof cases
  case (transfer_tests c)
  then show ?thesis using transfer_test_rank [OF transfer_tests(2) off] by (simp add: shutdown_left_def)
next
  case (transfer_clear c)
  then show ?thesis using transfer_clears_rank [OF transfer_clear(2)] by (simp add: shutdown_left_def)
next
  case (callback_begin i x ok n)
  then show ?thesis using card_completed [OF fin callback_begin(3)] off by (simp add: shutdown_left_def)
next
  case (main_events i x ok n d')
  then show ?thesis using card_completed [OF fin main_events(3)] by (simp add: shutdown_left_def)
next
  case (callback_push i d' x)
  then show ?thesis using consumer_rank_wake [of "cpc s"] by (simp add: shutdown_left_def)
next
  case (callback_submit i failed)
  then show ?thesis using card_insert_le_m1 [of "Suc (card (submitted s))" "submitted s" i]
    by (simp add: shutdown_left_def)
next
  case (main_signal)
  then show ?thesis using consumer_rank_wake [of "cpc s"] by (simp add: shutdown_left_def)
next
  case (consumer_tests c)
  then show ?thesis using consumer_test_rank [OF consumer_tests(2) off] by (simp add: shutdown_left_def)
qed (auto simp: shutdown_left_def no_thread_moved_def)

text \<open>
  C18 (termination). From the moment \<open>kill_io_threads\<close> has cleared \<open>streaming\<close>, every step of
  the consumer, of the transfer thread and of \<open>airspyhf_stop\<close> brings the shutdown strictly
  nearer to its end, so that only finitely many are left whatever the schedule; the steps of
  the host and of control operations take it nowhere; and the application's callback is
  entered at most for one more block.
\<close>

theorem shutdown_monotone:
  assumes "stream_reachable M L s" and "mpc s \<in> {M_Cancel, M_Join, M_Done}"
    and "stream_step M L s t"
  shows "(shutdown_left t < shutdown_left s \<or> no_thread_moved s t \<and> shutdown_left t = shutdown_left s) \<and>
         committed t \<le> committed s \<and> committed s \<le> Suc (length (delivered s)) \<and>
         mpc t \<in> {M_Cancel, M_Join, M_Done}"
proof -
  have off: "\<not> streaming (dev s)" using reachable_ok(4) [OF assms(1)] assms(2) by (auto simp: shutdown_ok_def)
  have left: "shutdown_left t < shutdown_left s \<or> no_thread_moved s t"
    using shutdown_decreases [OF assms(3) stream_wf_finite [OF reachable_ok(1) [OF assms(1)]] off] .
  have "committed t \<le> committed s"
    using assms(3)
  proof cases
    case (consumer_tests c)
    then show ?thesis
      using consumer_test_rank [OF consumer_tests(2) off] consumer_test_in_hand [OF consumer_tests(2)]
      by (auto simp: committed_def)
  qed (auto simp: committed_def wake_def)
  moreover have "mpc t \<in> {M_Cancel, M_Join, M_Done}"
    using assms(3) by cases (use assms(2) in auto)
  ultimately show ?thesis
    using left by (auto simp: committed_def no_thread_moved_def shutdown_left_def)
qed

text \<open>One thread step always exists until both have ended.\<close>

lemma transfer_advance:
  assumes r: "stream_reachable M L s" and m: "mpc s = M_Join" and busy: "tpc s \<noteq> T_Exit"
    and free: "cpc s = C_Exit"
  shows "\<exists>t. stream_step M L s t \<and> \<not> no_thread_moved s t \<and> mpc t = M_Join \<and> cpc t = C_Exit"
proof (cases "tpc s")
  case (T_Locked i)
  have "i < transfer_count (dev s)" "xfers_ok (dev s)"
    using reachable_ok [OF r] T_Locked by (simp_all add: stream_wf_def)
  then obtain x where x: "nth_xfer (dev s) i = Some x" using nth_xfer_ok by blast
  obtain d' where d: "callback_locked i (dev s) = Some d'"
    using queue_accesses_safe [OF r] T_Locked by blast
  have nl: "\<not> consumer_locks (cpc s)" using free by simp
  show ?thesis
  proof (cases "queue_full (dev s)")
    case True
    from callback_drop [OF T_Locked nl True d] show ?thesis
      by (intro exI conjI) (assumption, use T_Locked m free in \<open>simp_all add: no_thread_moved_def\<close>)
  next
    case False
    from callback_push [OF T_Locked nl False d x] show ?thesis
      by (intro exI conjI) (assumption, use T_Locked m free in \<open>simp_all add: no_thread_moved_def wake_def\<close>)
  qed
next
  case (T_Submit i)
  from callback_submit [OF T_Submit, of M L True] show ?thesis
    by (intro exI conjI) (assumption, use T_Submit m free in \<open>simp_all add: no_thread_moved_def\<close>)
next
  case T_Events
  from transfer_return [OF T_Events, of M L False] show ?thesis
    by (intro exI conjI) (assumption, use T_Events m free in \<open>simp_all add: no_thread_moved_def\<close>)
next
  case T_Exit
  with busy show ?thesis by simp
qed ((intro exI conjI, rule transfer_tests transfer_clear, simp, use m free in \<open>simp_all add: no_thread_moved_def\<close>)+)

text \<open>The block in the consumer's hands, if any, can be converted.\<close>

definition convertible :: "libm \<Rightarrow> iq_lib \<Rightarrow> stream_sys \<Rightarrow> bool" where
  "convertible M L s \<longleftrightarrow>
     (\<forall>p n. cpc s = C_Have p n \<or> cpc s = C_Convert p n \<and> \<not> disturbed s \<longrightarrow>
        convert_samples M L (dev s) (memory s p) (block_samples (dev s)) \<noteq> None)"

lemma consumer_test_off_step:
  "shutdown_ok s \<Longrightarrow> mpc s = M_Join \<Longrightarrow> cpc s \<notin> {C_Exit, C_Break, C_Called, C_Failed} \<Longrightarrow> in_hand (cpc s) = [] \<Longrightarrow>
   \<exists>c. consumer_test (dev s) (cpc s) = Some c \<and> in_hand c = []"
  by (cases "cpc s") (auto simp: shutdown_ok_def)

lemma consumer_advance:
  assumes r: "stream_reachable M L s" and m: "mpc s = M_Join" and busy: "cpc s \<noteq> C_Exit"
    and conv: "convertible M L s"
  shows "\<exists>t. stream_step M L s t \<and> \<not> no_thread_moved s t \<and> mpc t = M_Join \<and> convertible M L t"
proof -
  have sh: "shutdown_ok s" using reachable_ok [OF r] by simp
  consider (holds) p n where "cpc s = C_Have p n" | (convert) p n where "cpc s = C_Convert p n"
    | (clear) "cpc s \<in> {C_Break, C_Called, C_Failed}"
    | (test) "cpc s \<notin> {C_Exit, C_Break, C_Called, C_Failed}" "in_hand (cpc s) = []"
    using busy by (cases "cpc s") auto
  then show ?thesis
  proof cases
    case (holds p n)
    have "convertible M L (s\<lparr>cpc := C_Convert p n, disturbed := False\<rparr>)"
      using conv holds by (simp add: convertible_def)
    with consumer_begin [OF holds, of M L] show ?thesis
      by (intro exI conjI) (assumption, use holds m in \<open>simp_all add: no_thread_moved_def\<close>)
  next
    case (convert p n)
    show ?thesis
    proof (cases "disturbed s")
      case True
      from consumer_disturbed [OF convert True refl, of M L "[]" 0] show ?thesis
        by (intro exI conjI) (assumption, use convert m in \<open>simp_all add: no_thread_moved_def convertible_def\<close>)
    next
      case False
      then obtain out d' where c: "convert_samples M L (dev s) (memory s p) (block_samples (dev s)) = Some (out, d')"
        using conv convert by (auto simp: convertible_def)
      from consumer_process [OF convert False c, of 0] show ?thesis
        by (intro exI conjI) (assumption, use convert m in \<open>simp_all add: no_thread_moved_def convertible_def\<close>)
    qed
  next
    case clear
    then consider "cpc s = C_Break" | "cpc s = C_Called" | "cpc s = C_Failed" by blast
    then show ?thesis
    proof cases
      case 1
      from consumer_exit [OF this, of M L] show ?thesis
        by (intro exI conjI) (assumption, use 1 m in \<open>simp_all add: no_thread_moved_def convertible_def\<close>)
    next
      case 2
      from consumer_release [OF this, of M L] show ?thesis
        by (intro exI conjI) (assumption, use 2 m in \<open>simp_all add: no_thread_moved_def convertible_def\<close>)
    next
      case 3
      from consumer_fail [OF this, of M L] show ?thesis
        by (intro exI conjI) (assumption, use 3 m in \<open>simp_all add: no_thread_moved_def convertible_def\<close>)
    qed
  next
    case test
    then obtain c where c: "consumer_test (dev s) (cpc s) = Some c" "in_hand c = []"
      using consumer_test_off_step [OF sh m] by blast
    have off: "\<not> streaming (dev s)" using sh m by (simp add: shutdown_ok_def)
    have "c \<noteq> cpc s" using consumer_test_rank [OF c(1) off] by auto
    moreover have "convertible M L (s\<lparr>cpc := c\<rparr>)" using c(2) by (auto simp: convertible_def)
    ultimately show ?thesis
      using consumer_tests [OF c(1), of M L] m
      by (intro exI [of _ "s\<lparr>cpc := c\<rparr>"]) (simp add: no_thread_moved_def)
  qed
qed

lemma shutdown_run:
  assumes "stream_reachable M L s" and "mpc s = M_Join" and "convertible M L s"
  shows "\<exists>t. (stream_step M L)\<^sup>*\<^sup>* s t \<and> mpc t = M_Join \<and> cpc t = C_Exit \<and> tpc t = T_Exit"
  using assms
proof (induction "shutdown_left s" arbitrary: s rule: less_induct)
  case less
  have on: "\<exists>t. (stream_step M L)\<^sup>*\<^sup>* s t \<and> mpc t = M_Join \<and> cpc t = C_Exit \<and> tpc t = T_Exit"
    if t: "stream_step M L s t" "\<not> no_thread_moved s t" "mpc t = M_Join" "convertible M L t" for t
  proof -
    have "\<not> streaming (dev s)" using reachable_ok(4) [OF less.prems(1)] less.prems(2) by (simp add: shutdown_ok_def)
    from shutdown_decreases [OF t(1) stream_wf_finite [OF reachable_ok(1) [OF less.prems(1)]] this] t(2)
    have "shutdown_left t < shutdown_left s" by simp
    from less.hyps [OF this reach_step [OF less.prems(1) t(1)] t(3,4)] t(1)
    show ?thesis by (meson converse_rtranclp_into_rtranclp)
  qed
  show ?case
  proof (cases "cpc s = C_Exit")
    case False
    from consumer_advance [OF less.prems(1,2) this less.prems(3)] on show ?thesis by blast
  next
    case True
    show ?thesis
    proof (cases "tpc s = T_Exit")
      case True
      with less.prems(2) \<open>cpc s = C_Exit\<close> show ?thesis by blast
    next
      case False
      from transfer_advance [OF less.prems(1,2) this True] obtain t where
        "stream_step M L s t" "\<not> no_thread_moved s t" "mpc t = M_Join" "cpc t = C_Exit" by blast
      then show ?thesis by (intro on) (auto simp: convertible_def)
    qed
  qed
qed

text \<open>
  C17 (liveness). \<open>airspyhf_stop\<close> does not hang: once it has signalled the consumer, both
  threads can run to their ends and be joined, whatever they were doing, provided that the
  conversion of the block the consumer has in hand, if any, is defined (a control operation
  can reach settings under which it is not).
\<close>

theorem stop_joins_threads:
  assumes "stream_reachable M L s" and "mpc s = M_Join"
    and "\<And>p n. cpc s = C_Have p n \<or> cpc s = C_Convert p n \<and> \<not> disturbed s \<Longrightarrow>
      convert_samples M L (dev s) (memory s p) (block_samples (dev s)) \<noteq> None"
  shows "\<exists>t. (stream_step M L)\<^sup>*\<^sup>* s t \<and> mpc t = M_Done"
proof -
  have "convertible M L s" using assms(3) unfolding convertible_def by blast
  from shutdown_run [OF assms(1,2) this] obtain t where
    t: "(stream_step M L)\<^sup>*\<^sup>* s t" "mpc t = M_Join" "cpc t = C_Exit" "tpc t = T_Exit" by blast
  have "stream_step M L t (t\<lparr>mpc := M_Done\<rparr>)" by (rule main_join [OF t(2,4,3)])
  with t(1) have "(stream_step M L)\<^sup>*\<^sup>* s (t\<lparr>mpc := M_Done\<rparr>)"
    by (rule rtranclp.rtrancl_into_rtrancl)
  moreover have "mpc (t\<lparr>mpc := M_Done\<rparr>) = M_Done" by simp
  ultimately show ?thesis by blast
qed

text \<open>A run that stops while a block is in the consumer's hands.\<close>

definition demo_stop :: stream_sys where
  "demo_stop = demo4\<lparr>dev := (dev demo4)\<lparr>stop_requested := False, streaming := False\<rparr>, mpc := M_Join\<rparr>"

lemma demo_reach_stop: "stream_reachable M L demo_stop"
proof -
  let ?s1 = "demo4\<lparr>dev := (dev demo4)\<lparr>stop_requested := True\<rparr>, mpc := M_Stop\<rparr>"
  let ?s2 = "demo4\<lparr>dev := (dev demo4)\<lparr>stop_requested := False\<rparr>, mpc := M_Clear\<rparr>"
  let ?s3 = "demo4\<lparr>dev := (dev demo4)\<lparr>stop_requested := False, streaming := False\<rparr>, mpc := M_Cancel\<rparr>"
  have m: "mpc demo4 = M_Run" "wake (cpc demo4) = cpc demo4" "\<not> consumer_locks (cpc demo4)"
    by (simp_all add: demo4_def demo3_def demo2_def wake_def)
  have "stream_reachable M L ?s1"
    by (rule reach_step [OF demo_reach4 main_stop]) (rule m)
  from reach_step [OF this main_clear] have "stream_reachable M L ?s2" by simp
  from reach_step [OF this main_kill] have 3: "stream_reachable M L ?s3" by simp
  have "stream_step M L ?s3 (?s3\<lparr>cpc := wake (cpc ?s3), mpc := M_Join\<rparr>)"
    by (rule main_signal) (use m in simp_all)
  from reach_step [OF 3 this] have "stream_reachable M L (?s3\<lparr>cpc := wake (cpc ?s3), mpc := M_Join\<rparr>)" .
  moreover have "?s3\<lparr>cpc := wake (cpc ?s3), mpc := M_Join\<rparr> = demo_stop"
    by (intro stream_sys.equality) (simp_all add: demo_stop_def m)
  ultimately show ?thesis by simp
qed

theorem stop_joins_threads_witness:
  "\<exists>t. (stream_step demo_libm iq_lib0)\<^sup>*\<^sup>* demo_stop t \<and>
       mpc t = M_Done"
proof (rule stop_joins_threads [OF demo_reach_stop])
  show "mpc demo_stop = M_Join" by (simp add: demo_stop_def)
  fix p n
  assume "cpc demo_stop = C_Have p n \<or> cpc demo_stop = C_Convert p n \<and> \<not> disturbed demo_stop"
  then have "p = 9" by (simp add: demo_stop_def demo4_def)
  moreover have "memory demo_stop 9 = demo_block"
    by (simp add: demo_stop_def demo4_def demo3_def demo2_def)
  moreover have "output_buffer (dev demo_stop) = 30" "enable_dsp (dev demo_stop) = 0"
    "block_samples (dev demo_stop) = 1"
    by (simp_all add: demo_stop_def demo4_def demo_take demo_push block_samples_def
        sizeof_complex_int16_def) (simp_all add: demo_device_def zero_device_def)
  ultimately show "convert_samples demo_libm iq_lib0
      (dev demo_stop) (memory demo_stop p) (block_samples (dev demo_stop)) \<noteq> None"
    by (simp add: convert_samples_def demo_block_def)
qed

theorem shutdown_monotone_witness:
  "mpc demo_stop = M_Join \<and> shutdown_left demo_stop = 13 \<and>
   (\<exists>t. stream_step demo_libm iq_lib0 demo_stop t \<and> shutdown_left t < 13)"
proof -
  have c: "mpc demo_stop = M_Join" "cpc demo_stop = C_Have 9 0" "tpc demo_stop = T_Submit 0" "submitted demo_stop = {}"
    by (simp_all add: demo_stop_def demo4_def demo3_def demo2_def)
  have st: "stream_step demo_libm iq_lib0 demo_stop (demo_stop\<lparr>dev := callback_resubmit True (dev demo_stop),
      tpc := T_Events, submitted := (if True then submitted demo_stop else insert 0 (submitted demo_stop))\<rparr>)"
    (is "stream_step _ _ _ ?t")
    by (rule callback_submit [OF c(3)])
  have "\<not> no_thread_moved demo_stop ?t" using c by (simp add: no_thread_moved_def)
  moreover have "shutdown_left demo_stop = 13" using c by (simp add: shutdown_left_def)
  ultimately show ?thesis using shutdown_monotone [OF demo_reach_stop _ st] c(1) st by auto
qed

end
