(* ===== verification/Control_Properties.thy ===== *)
theory Control_Properties
  imports Control Stream_Properties
begin

text \<open>
  Properties of the control operations: what each sends to the device, what it leaves of the
  stream the threads may be running, and what it reports when the device does not answer.
\<close>

section \<open>Vendor commands\<close>

text \<open>
  The interface the simple vendor commands share: one request without data, whose failure is
  what the operation reports.
\<close>

definition one_request :: "env \<Rightarrow> trace \<Rightarrow> api_call \<Rightarrow> int \<times> trace \<Rightarrow> bool" where
  "one_request E w c rw \<longleftrightarrow>
     fst rw = (if 0 \<le> ret E w c then AIRSPYHF_SUCCESS else AIRSPYHF_ERROR) \<and>
     controls (snd rw) = controls w @ [c] \<and> live (snd rw) = live w"

locale vendor_command =
  fixes op :: "env \<Rightarrow> trace \<Rightarrow> int \<times> trace"
    and request :: api_call
  assumes op_law: "op E w = (if ret E w request < 0 then AIRSPYHF_ERROR else AIRSPYHF_SUCCESS, w @ [request])"
    and request_law: "is_control request"
begin

lemma reports: "fst (op E w) = AIRSPYHF_SUCCESS \<longleftrightarrow> 0 \<le> ret E w request"
  by (simp add: op_law)

lemma sends: "controls (snd (op E w)) = controls w @ [request]"
  using request_law by (simp add: op_law controls_def)

lemma allocates_nothing: "live (snd (op E w)) = live w"
  using request_law by (cases request) (simp_all add: op_law live_snoc live_step_def)

lemma contract: "one_request E w request (op E w)"
  using sends allocates_nothing by (auto simp: one_request_def op_law)

end

lemmas vendor_defs = libusb_control_out_def Let_def

interpretation hf_att: vendor_command "\<lambda>E. airspyhf_set_hf_att E a" "CtrlOut AIRSPYHF_SET_ATT (ucast a) 0 []" for a
  by unfold_locales (simp_all add: airspyhf_set_hf_att_def vendor_defs)

interpretation hf_lna: vendor_command "\<lambda>E. airspyhf_set_hf_lna E a" "CtrlOut AIRSPYHF_SET_LNA (ucast a) 0 []" for a
  by unfold_locales (simp_all add: airspyhf_set_hf_lna_def vendor_defs)

interpretation hf_agc: vendor_command "\<lambda>E. airspyhf_set_hf_agc E a" "CtrlOut AIRSPYHF_SET_AGC (ucast a) 0 []" for a
  by unfold_locales (simp_all add: airspyhf_set_hf_agc_def vendor_defs)

interpretation hf_agc_threshold: vendor_command "\<lambda>E. airspyhf_set_hf_agc_threshold E a"
    "CtrlOut AIRSPYHF_SET_AGC_THRESHOLD (ucast a) 0 []" for a
  by unfold_locales (simp_all add: airspyhf_set_hf_agc_threshold_def vendor_defs)

interpretation user_output: vendor_command "\<lambda>E. airspyhf_set_user_output E p v"
    "CtrlOut AIRSPYHF_SET_USER_OUTPUT (user_output_code p) (user_output_state_code v) []" for p v
  by unfold_locales (simp_all add: airspyhf_set_user_output_def vendor_defs)

interpretation bias_tee: vendor_command "\<lambda>E. airspyhf_set_bias_tee E v" "CtrlOut AIRSPYHF_SET_BIAS_TEE (scast v) 0 []" for v
  by unfold_locales (simp_all add: airspyhf_set_bias_tee_def vendor_defs)

interpretation vctcxo: vendor_command
    "\<lambda>E w. let (r, d', w) = airspyhf_set_vctcxo_calibration E vc d w in (r, w)"
    "CtrlOut AIRSPYHF_SET_VCTCXO_CALIBRATION vc 0 []" for vc d
  by unfold_locales (simp_all add: airspyhf_set_vctcxo_calibration_def vendor_defs)

interpretation frontend: vendor_command
    "\<lambda>E w. let (r, d', w) = airspyhf_set_frontend_options E flags d w in (r, w)"
    "CtrlOut AIRSPYHF_SET_FRONTEND_OPTIONS (to_u16 (flags AND 0xFFFF)) (to_u16 (drop_bit 16 flags)) []" for flags d
  by unfold_locales (simp_all add: airspyhf_set_frontend_options_def vendor_defs)

text \<open>The two halves in which the frontend options travel give the options back.\<close>

lemma frontend_halves:
  "push_bit 16 (ucast (to_u16 (drop_bit 16 x)) :: u32) OR ucast (to_u16 (x AND 0xFFFF)) = x"
proof (rule bit_word_eqI)
  fix n :: nat
  assume n: "n < LENGTH(32)"
  have m: "x AND 0xFFFF = take_bit 16 x" using take_bit_eq_mask [of 16 x] by (simp add: mask_eq_exp_minus_1)
  show "bit (push_bit 16 (ucast (to_u16 (drop_bit 16 x)) :: u32) OR ucast (to_u16 (x AND 0xFFFF))) n = bit x n"
    unfolding m using n by (cases "n < 16") (auto simp: bit_simps)
qed

section \<open>The control operations and the running stream\<close>

text \<open>Every operation the application may call while a stream runs, other than the stop.\<close>

datatype control_op =
    Set_Freq cflt
  | Set_Samplerate u32
  | Set_Calibration u32
  | Set_Vctcxo u16
  | Set_Frontend u32
  | Flash_Configuration
  | Set_Optimal_Point cflt
  | Iq_Configure int int int int
  | Set_Lib_Dsp u8
  | Set_Att cflt
  | Set_Bias_Tee u8
  | Set_Hf_Att u8
  | Set_Hf_Lna u8
  | Set_User_Output airspyhf_user_output_t airspyhf_user_output_state_t
  | Set_Hf_Agc u8
  | Set_Hf_Agc_Threshold u8

text \<open>Wrapping the results into the common shape: result, device, trace.\<close>

abbreviation (input) stateless :: "int \<times> trace \<Rightarrow> airspyhf_device \<Rightarrow> (int \<times> airspyhf_device \<times> trace) option" where
  "stateless rw d \<equiv> Some (fst rw, d, snd rw)"

fun run_control_op ::
  "libm \<Rightarrow> env \<Rightarrow> control_op \<Rightarrow> airspyhf_device \<Rightarrow> trace \<Rightarrow> (int \<times> airspyhf_device \<times> trace) option" where
  "run_control_op M E (Set_Freq f) d w = airspyhf_set_freq_double E f d w"
| "run_control_op M E (Set_Samplerate r) d w = airspyhf_set_samplerate M E r d w"
| "run_control_op M E (Set_Calibration p) d w = airspyhf_set_calibration E p d w"
| "run_control_op M E (Set_Vctcxo v) d w = Some (airspyhf_set_vctcxo_calibration E v d w)"
| "run_control_op M E (Set_Frontend f) d w = Some (airspyhf_set_frontend_options E f d w)"
| "run_control_op M E Flash_Configuration d w = stateless (airspyhf_flash_configuration E d w) d"
| "run_control_op M E (Set_Optimal_Point x) d w =
     map_option (\<lambda>(r, d). (r, d, w)) (airspyhf_set_optimal_iq_correction_point x d)"
| "run_control_op M E (Iq_Configure a b c e) d w =
     airspyhf_iq_balancer_configure E a b c e d w"
| "run_control_op M E (Set_Lib_Dsp v) d w =
     Some (fst (airspyhf_set_lib_dsp v d), snd (airspyhf_set_lib_dsp v d), w)"
| "run_control_op M E (Set_Att a) d w = airspyhf_set_att E a d w \<bind> (\<lambda>rw. stateless rw d)"
| "run_control_op M E (Set_Bias_Tee v) d w = stateless (airspyhf_set_bias_tee E v w) d"
| "run_control_op M E (Set_Hf_Att v) d w = stateless (airspyhf_set_hf_att E v w) d"
| "run_control_op M E (Set_Hf_Lna v) d w = stateless (airspyhf_set_hf_lna E v w) d"
| "run_control_op M E (Set_User_Output p v) d w = stateless (airspyhf_set_user_output E p v w) d"
| "run_control_op M E (Set_Hf_Agc v) d w = stateless (airspyhf_set_hf_agc E v w) d"
| "run_control_op M E (Set_Hf_Agc_Threshold v) d w = stateless (airspyhf_set_hf_agc_threshold E v w) d"

lemma live_control [simp]:
  "live (w @ [CtrlIn r v i n]) = live w" "live (w @ [CtrlOut r v i bs]) = live w"
  "live (w @ [ClearHalt n]) = live w"
  by (simp_all add: live_snoc live_step_def)

lemmas control_out_eq = libusb_control_out_def libusb_control_in_def Let_def

lemma finish_tuning_frame [simp]: "stream_view (finish_tuning f k a d) = stream_view d"
  by (simp add: finish_tuning_def stream_view_def)

lemma set_freq_double_frame:
  assumes "airspyhf_set_freq_double E f d w = Some (r, d', w')"
  shows "stream_view d' = stream_view d \<and> live w' = live w"
  using assms
  by (auto simp: airspyhf_set_freq_double_def control_out_eq stream_view_def finish_tuning_def
      live_append live_step_def split: if_splits bind_splits)

lemma raise_lo_frame:
  "stream_view (fst (snd (raise_lo E d w))) = stream_view d" "live (snd (snd (raise_lo E d w))) = live w"
  by (simp_all add: raise_lo_def control_out_eq stream_view_def)

lemma raise_lo_frame_pair:
  "snd (raise_lo E d w) = (d', w') \<Longrightarrow> stream_view d' = stream_view d \<and> live w' = live w"
  using raise_lo_frame [of E d w] by simp

lemma read_filter_gain_frame: "live (snd (read_filter_gain M E w)) = live w"
  by (simp add: read_filter_gain_def control_out_eq)

lemma samplerate_fields_frame [simp]:
  "stream_view (d\<lparr>current_samplerate := a, is_low_if := b\<rparr>) = stream_view d"
  "stream_view (d\<lparr>filter_gain := g\<rparr>) = stream_view d"
  by (simp_all add: stream_view_def)

lemma set_samplerate_frame:
  assumes "airspyhf_set_samplerate M E x d w = Some (r, d', w')"
  shows "stream_view d' = stream_view d \<and> live w' = live w"
  using assms
  by (auto simp: airspyhf_set_samplerate_def call_def libusb_control_out_def Let_def case_prod_unfold
      raise_lo_frame read_filter_gain_frame simp del: append_assoc split: if_splits bind_splits
      dest!: set_freq_double_frame raise_lo_frame_pair)

lemma flash_configuration_frame: "live (snd (airspyhf_flash_configuration E d w)) = live w"
  by (simp add: airspyhf_flash_configuration_def airspyhf_config_write_def control_out_eq)

text \<open>
  What an operation does to the blocks in use: configuring the balancer exchanges one block,
  its power flags, for another.
\<close>

fun blocks_after :: "control_op \<Rightarrow> airspyhf_device \<Rightarrow> airspyhf_device \<Rightarrow> ptr multiset \<Rightarrow> ptr multiset" where
  "blocks_after (Iq_Configure a b c e) d d' L =
     L - {#power_flag_ptr (iq_balancer_ptrs d)#} + {#power_flag_ptr (iq_balancer_ptrs d')#}"
| "blocks_after _ d d' L = L"

lemma iq_configure_live:
  assumes "iq_balancer_configure E skip integration overlap correlation (q, b) w = Some ((q', b'), w')"
  shows "live w' = live w - {#power_flag_ptr q#} + {#power_flag_ptr q'#} \<and> power_flag_ptr q' \<noteq> NULL"
  using assms
  by (auto simp: iq_balancer_configure_def malloc_def Let_def live_append live_step_def live_free split: if_splits)

lemma control_op_frame:
  assumes "run_control_op M E op d w = Some (r, d', w')"
  shows "stream_view d' = stream_view d \<and> live w' = blocks_after op d d' (live w)"
proof (cases op)
  case (Set_Freq f)
  with assms show ?thesis by (simp add: set_freq_double_frame)
next
  case (Set_Samplerate s)
  with assms show ?thesis by (simp add: set_samplerate_frame)
next
  case (Set_Calibration p)
  have "stream_view (d\<lparr>calibration_ppb := p\<rparr>) = stream_view d" by (simp add: stream_view_def)
  with Set_Calibration assms show ?thesis
    by (auto simp: airspyhf_set_calibration_def dest: set_freq_double_frame)
next
  case (Set_Vctcxo v)
  with assms show ?thesis
    by (auto simp: airspyhf_set_vctcxo_calibration_def control_out_eq stream_view_def split: if_splits)
next
  case (Set_Frontend v)
  with assms show ?thesis
    by (auto simp: airspyhf_set_frontend_options_def control_out_eq stream_view_def split: if_splits)
next
  case (Set_Optimal_Point x)
  with assms show ?thesis
    by (auto simp: airspyhf_set_optimal_iq_correction_point_def stream_view_def split: bind_splits)
next
  case (Iq_Configure a b c e)
  with assms show ?thesis
    by (auto simp: airspyhf_iq_balancer_configure_def stream_view_def split: bind_splits dest!: iq_configure_live)
next
  case (Set_Lib_Dsp v)
  with assms show ?thesis by (auto simp: airspyhf_set_lib_dsp_def stream_view_def)
next
  case (Set_Att a)
  with assms show ?thesis
    by (auto simp: airspyhf_set_att_def control_out_eq split: bind_splits)
qed (use assms flash_configuration_frame hf_att.allocates_nothing hf_lna.allocates_nothing
      hf_agc.allocates_nothing hf_agc_threshold.allocates_nothing user_output.allocates_nothing
      bias_tee.allocates_nothing in auto)

text \<open>The operations that write what the conversion of a block reads or writes.\<close>

fun disturbs :: "control_op \<Rightarrow> bool" where
  "disturbs (Set_Freq f) = True"
| "disturbs (Set_Samplerate r) = True"
| "disturbs (Set_Calibration p) = True"
| "disturbs (Set_Optimal_Point x) = True"
| "disturbs (Iq_Configure a b c e) = True"
| "disturbs (Set_Lib_Dsp v) = True"
| "disturbs _ = False"

lemma disturbs_not:
  assumes "run_control_op M E op d w = Some (r, d', w')" and "\<not> disturbs op"
  shows "conv_view d' = conv_view d"
  using assms
  by (cases op) (auto simp: airspyhf_set_vctcxo_calibration_def airspyhf_set_frontend_options_def
      control_out_eq conv_view_def split: if_splits bind_splits)

text \<open>
  C23 (refinement). Every control operation, on every answer of the device, is a \<open>control\<close>
  step of the stream model: it leaves the queue, the transfers, the flags and the allocated
  memory alone, except that configuring the balancer exchanges its power flags for a new
  block. The operations other than those of \<open>disturbs\<close> also leave alone what a conversion
  reads. Those of \<open>disturbs\<close> write it without a lock: the step disturbs a conversion
  that is under way, of which the model then promises nothing.
\<close>

theorem control_op_is_stream_step:
  assumes "run_control_op M E op (dev s) w = Some (r, d', w')"
  shows "stream_step M L s (s\<lparr>dev := d', disturbed := disturbed s \<or> disturbs op\<rparr>) \<and>
         live w' = blocks_after op (dev s) d' (live w) \<and>
         (\<not> disturbs op \<longrightarrow> conv_view d' = conv_view (dev s))"
proof -
  have "disturbs op \<or> conv_view d' = conv_view (dev s)" using disturbs_not [OF assms] by blast
  with control_op_frame [OF assms] show ?thesis
    using stream_step.control [of d' s "disturbs op" M L] by blast
qed

text \<open>A device that accepts every request, for the examples.\<close>

definition demo_env :: env where
  "demo_env = \<lparr>ret = (\<lambda>_ c. case c of CtrlOut _ _ _ bs \<Rightarrow> int (length bs) | CtrlIn _ _ _ n \<Rightarrow> int n | _ \<Rightarrow> 0),
     reply = (\<lambda>_ c. case c of CtrlIn _ _ _ n \<Rightarrow> replicate n 0 | _ \<Rightarrow> []), alloc_ok = (\<lambda>_ _. True),
     junk = (\<lambda>_ _. 0), xfer_struct_size = 64, device_struct_size = 512, balancer_struct_size = 256, bus = (\<lambda>_. []), completions = (\<lambda>_. [])\<rparr>"

theorem control_op_is_stream_step_witness:
  "stream_step demo_libm iq_lib0 demo4
     (demo4\<lparr>dev := (dev demo4)\<lparr>enable_dsp := 1\<rparr>, disturbed := disturbed demo4 \<or> True\<rparr>)"
  using control_op_is_stream_step [of demo_libm demo_env "Set_Lib_Dsp 1" demo4 "[]"]
  by (simp add: airspyhf_set_lib_dsp_def)

section \<open>Tuning\<close>

text \<open>The exchange with the device that a retune takes.\<close>

definition retune_requests :: "u32 \<Rightarrow> api_call list" where
  "retune_requests khz =
     [CtrlOut AIRSPYHF_SET_FREQ 0 0 (be_bytes_of_u32 khz), CtrlIn AIRSPYHF_GET_FREQ_DELTA 0 0 4]"

lemma set_freq_double_outcome:
  assumes "airspyhf_set_freq_double E f d w = Some (r, d', w')" and "tuned_khz d f = Some khz"
  shows "r = AIRSPYHF_ERROR \<and> d' = d \<and> freq_khz d \<noteq> khz \<and> w' = w @ [hd (retune_requests khz)] \<and>
           int_lt_size (ret E w (hd (retune_requests khz))) 4 \<or>
         r = AIRSPYHF_SUCCESS \<and> freq_khz d' = khz \<and> freq_hz d' = f \<and>
           freq_shift d' = add64 (sub64 (adjusted_freq_hz d f) (mul64 (int64f (uint khz)) (f64 1000))) (freq_delta_hz d') \<and>
           is_low_if d' = is_low_if d \<and> enable_dsp d' = enable_dsp d \<and>
           calibration_ppb d' = calibration_ppb d \<and> current_samplerate d' = current_samplerate d \<and>
           filter_gain d' = filter_gain d \<and>
           w' = w @ (if freq_khz d = khz then [] else retune_requests khz) \<and>
           (freq_khz d \<noteq> khz \<longrightarrow> \<not> int_lt_size (ret E w (hd (retune_requests khz))) 4)"
  using assms
  by (auto simp: airspyhf_set_freq_double_def control_out_eq finish_tuning_def retune_requests_def
      split: if_splits bind_splits)

lemma airspyhf_set_freq_double_undefined:
  "tuned_khz d f = None \<Longrightarrow> airspyhf_set_freq_double E f d w = None"
  by (simp add: airspyhf_set_freq_double_def)

lemma tuned_khz_floor: "tuned_khz d f = Some khz \<Longrightarrow> lo_low_khz d \<le> khz"
  by (auto simp: tuned_khz_def)

text \<open>
  C14 (functional). When \<open>airspyhf_set_freq_double\<close> reports success, the local oscillator is
  the rounded, calibrated frequency but not below the floor of the architecture, the
  oscillator setting went to the device in big-endian order exactly when it changed, and the
  remaining shift is what the fine tuning corrects. An error leaves the device untouched.
\<close>

theorem set_freq_double_correct:
  assumes "airspyhf_set_freq_double E f d w = Some (r, d', w')"
  shows "\<exists>khz. tuned_khz d f = Some khz \<and> lo_low_khz d \<le> khz \<and>
           (r = AIRSPYHF_ERROR \<longrightarrow> d' = d) \<and>
           (r = AIRSPYHF_SUCCESS \<longrightarrow> freq_khz d' = khz \<and> freq_hz d' = f \<and>
              freq_shift d' = add64 (sub64 (adjusted_freq_hz d f) (mul64 (int64f (uint khz)) (f64 1000)))
                                    (freq_delta_hz d') \<and>
              controls w' = controls w @ (if freq_khz d = khz then [] else retune_requests khz) \<and>
              u32_of_bytes (rev (be_bytes_of_u32 khz)) = freq_khz d')"
proof -
  obtain khz where k: "tuned_khz d f = Some khz"
    using assms airspyhf_set_freq_double_undefined by fastforce
  with tuned_khz_floor [OF k] set_freq_double_outcome [OF assms k] show ?thesis
    by (auto simp: be_bytes_roundtrip retune_requests_def controls_def)
qed

text \<open>
  The comparison \<open>result < sizeof(buf)\<close> is done in an unsigned type, so a
  tuning request that libusb rejects (a negative result) is taken for a success: the device
  record then holds a frequency the receiver never got.
\<close>

lemma set_freq_masks_libusb_errors:
  assumes "tuned_khz d f = Some khz" and "freq_khz d \<noteq> khz"
    and "airspyhf_set_freq_double E f d w = Some (r, d', w')"
    and "- (2 ^ 31) \<le> ret E w (hd (retune_requests khz))" and "ret E w (hd (retune_requests khz)) < 0"
  shows "r = AIRSPYHF_SUCCESS \<and> freq_khz d' = khz"
  using set_freq_double_outcome [OF assms(3,1)] int_lt_size_negative [OF assms(4,5), of 4] by auto

section \<open>Sample rates\<close>

lemma find_rate_outcome:
  assumes "find_rate rates r [a..<n] = Some i"
  shows "(\<exists>k. a \<le> k \<and> k < n \<and> k < length rates \<and> i = of_nat k \<and> rates ! k = r \<and>
            (\<forall>j. a \<le> j \<and> j < k \<longrightarrow> rates ! j \<noteq> r)) \<or>
         i = r \<and> r \<notin> set (drop a (take n rates))"
  using assms
proof (induction "n - a" arbitrary: a)
  case 0
  then show ?case by simp
next
  case (Suc m)
  then have a: "a < n" by simp
  with Suc.prems have f: "rd rates a \<bind> (\<lambda>x. if r = x then Some (of_nat a) else find_rate rates r [Suc a..<n]) = Some i"
    by (simp add: upt_conv_Cons)
  then have l: "a < length rates" by (auto simp: rd_def split: if_splits)
  show ?case
  proof (cases "rates ! a = r")
    case True
    with f l have "i = of_nat a" by (simp add: rd_def)
    with True a l show ?thesis by (intro disjI1 exI [of _ a]) auto
  next
    case False
    with f l have "find_rate rates r [Suc a..<n] = Some i" by (auto simp: rd_def)
    then have "(\<exists>k. Suc a \<le> k \<and> k < n \<and> k < length rates \<and> i = of_nat k \<and> rates ! k = r \<and>
            (\<forall>j. Suc a \<le> j \<and> j < k \<longrightarrow> rates ! j \<noteq> r)) \<or>
         i = r \<and> r \<notin> set (drop (Suc a) (take n rates))"
      using Suc.hyps by simp
    then show ?thesis
    proof (elim disjE exE conjE)
      fix k
      assume k: "Suc a \<le> k" "k < n" "k < length rates" "i = of_nat k" "rates ! k = r"
        and first: "\<forall>j. Suc a \<le> j \<and> j < k \<longrightarrow> rates ! j \<noteq> r"
      have "\<forall>j. a \<le> j \<and> j < k \<longrightarrow> rates ! j \<noteq> r"
        using first False by (metis Suc_leI le_neq_implies_less)
      with k show ?thesis by (intro disjI1 exI [of _ k]) simp
    next
      assume "i = r" "r \<notin> set (drop (Suc a) (take n rates))"
      moreover have "drop a (take n rates) = rates ! a # drop (Suc a) (take n rates)"
        using a l Cons_nth_drop_Suc [of a "take n rates"] by simp
      ultimately show ?thesis using False by simp
    qed
  qed
qed

text \<open>Which entry of the tables a request stands for.\<close>

definition selects :: "airspyhf_device \<Rightarrow> u32 \<Rightarrow> nat \<Rightarrow> bool" where
  "selects d x i \<longleftrightarrow>
     (let listed = take (unat (supported_samplerate_count d)) (supported_samplerates d) in
      i < length listed \<and>
      (if MAX_SAMPLERATE_INDEX < x \<and> x \<in> set listed then listed ! i = x \<and> (\<forall>j<i. listed ! j \<noteq> x)
       else i = unat x))"

lemma rate_index_selects:
  assumes "rate_index d x = Some i" and "i < supported_samplerate_count d"
    and "unat i < length (supported_samplerates d)"
  shows "selects d x (unat i)"
proof -
  let ?n = "unat (supported_samplerate_count d)"
  have i: "unat i < ?n" using assms(2) by (simp add: word_less_nat_alt)
  show ?thesis
  proof (cases "MAX_SAMPLERATE_INDEX < x")
    case False
    with assms i show ?thesis by (simp add: rate_index_def selects_def)
  next
    case True
    with assms(1) have "find_rate (supported_samplerates d) x [0..<?n] = Some i" by (simp add: rate_index_def)
    from find_rate_outcome [OF this] show ?thesis
    proof (elim disjE exE conjE)
      fix k
      assume k: "k < ?n" "k < length (supported_samplerates d)" "i = of_nat k" "supported_samplerates d ! k = x"
        and first: "\<forall>j. 0 \<le> j \<and> j < k \<longrightarrow> supported_samplerates d ! j \<noteq> x"
      have "unat i = k"
        using k unsigned_less [of "supported_samplerate_count d", where 'a = nat] by (simp add: unat_of_nat)
      moreover have "x \<in> set (take ?n (supported_samplerates d))"
        using k by (auto simp: in_set_conv_nth intro!: exI [of _ k])
      ultimately show ?thesis using k first True by (simp add: selects_def Let_def)
    next
      assume "i = x" "x \<notin> set (drop 0 (take ?n (supported_samplerates d)))"
      then show ?thesis using i assms(3) by (simp add: selects_def Let_def)
    qed
  qed
qed

lemma raise_lo_floor:
  "raise_lo E d w = (True, d', w') \<Longrightarrow> is_low_if d' = 0 \<Longrightarrow> MIN_ZERO_IF_LO \<le> freq_khz d'"
  by (auto simp: raise_lo_def control_out_eq not_less split: if_splits)

lemma raise_lo_fields:
  "raise_lo E d w = (ok, d', w') \<Longrightarrow> is_low_if d' = is_low_if d \<and>
     current_samplerate d' = current_samplerate d \<and> freq_hz d' = freq_hz d"
  by (auto simp: raise_lo_def control_out_eq split: if_splits)

lemma set_freq_double_fields:
  assumes "airspyhf_set_freq_double E f d w = Some (r, d', w')"
  shows "is_low_if d' = is_low_if d \<and> current_samplerate d' = current_samplerate d \<and>
         (d' = d \<or> lo_low_khz d \<le> freq_khz d')"
proof -
  obtain khz where k: "tuned_khz d f = Some khz"
    using assms airspyhf_set_freq_double_undefined by fastforce
  from set_freq_double_outcome [OF assms k] tuned_khz_floor [OF k] show ?thesis by auto
qed

lemma set_samplerate_success:
  assumes "airspyhf_set_samplerate M E x d w = Some (AIRSPYHF_SUCCESS, d', w')"
  obtains i where "rate_index d x = Some i" and "i < supported_samplerate_count d"
    and "unat i < length (supported_samplerates d)" and "unat i < length (samplerate_architectures d)"
    and "current_samplerate d' = supported_samplerates d ! unat i"
    and "is_low_if d' = samplerate_architectures d ! unat i"
    and "is_low_if d' = 0 \<longrightarrow> MIN_ZERO_IF_LO \<le> freq_khz d'"
    and "CtrlOut AIRSPYHF_SET_SAMPLERATE 0 (to_u16 i) [] \<in> set w'"
proof -
  obtain i rate arch where i: "rate_index d x = Some i" "\<not> supported_samplerate_count d \<le> i"
      "rd (supported_samplerates d) (unat i) = Some rate" "rd (samplerate_architectures d) (unat i) = Some arch"
    using assms by (auto simp: airspyhf_set_samplerate_def split: if_splits bind_splits)
  let ?d = "d\<lparr>current_samplerate := rate, is_low_if := arch\<rparr>"
  let ?c = "CtrlOut AIRSPYHF_SET_SAMPLERATE 0 (to_u16 i) []"
  obtain ok d1 w1 where raise: "raise_lo E ?d (w @ [ClearHalt bulk_endpoint]) = (ok, d1, w1)"
    by (metis prod_cases3)
  obtain g w2 where g: "read_filter_gain M E (w1 @ [?c]) = (g, w2)" by (metis surj_pair)
  have ok: "ok = True"
    using assms i raise by (cases ok) (simp_all add: airspyhf_set_samplerate_def call_def)
  have zero: "ret E w1 ?c = 0"
    using assms i raise ok
    by (auto simp: airspyhf_set_samplerate_def call_def libusb_control_out_def Let_def split: if_splits)
  obtain r where retune: "airspyhf_set_freq_double E (freq_hz d1) (d1\<lparr>filter_gain := g\<rparr>) w2 = Some (r, d', w')"
    using assms i raise ok zero g
    by (auto simp: airspyhf_set_samplerate_def call_def libusb_control_out_def Let_def split: bind_splits)
  note fields = raise_lo_fields [OF raise] set_freq_double_fields [OF retune]
  have w2: "w2 = w1 @ [?c, CtrlIn AIRSPYHF_GET_FILTER_GAIN 0 0 1]"
    using g by (simp add: read_filter_gain_def libusb_control_in_def Let_def)
  have "?c \<in> set w'"
    using retune w2
    by (auto simp: airspyhf_set_freq_double_def control_out_eq split: if_splits bind_splits)
  moreover have "is_low_if d' = 0 \<longrightarrow> MIN_ZERO_IF_LO \<le> freq_khz d'"
    using fields raise_lo_floor [OF raise [unfolded ok]] by (auto simp: lo_low_khz_def)
  ultimately show ?thesis
    using that [of i] i fields by (auto simp: rd_eq_Some_iff)
qed

text \<open>
  C24 (functional). Whatever \<open>airspyhf_set_samplerate\<close> is called with, success means that it
  selected one entry of the device's tables: the first one with the rate asked for, if that is
  listed and above \<open>MAX_SAMPLERATE_INDEX\<close>, and otherwise the one whose index was given (a listed rate
  up to \<open>MAX_SAMPLERATE_INDEX\<close> is taken for an index). The rate of that entry is the current rate, its index went to the device, the
  architecture is the one the firmware gives for it, and for a zero-IF rate the local
  oscillator is not below its floor.
\<close>

theorem set_samplerate_selects:
  assumes "airspyhf_set_samplerate M E x d w = Some (AIRSPYHF_SUCCESS, d', w')"
  shows "\<exists>i. selects d x i \<and>
           current_samplerate d' = supported_samplerates d ! i \<and>
           i < length (samplerate_architectures d) \<and> is_low_if d' = samplerate_architectures d ! i \<and>
           CtrlOut AIRSPYHF_SET_SAMPLERATE 0 (of_nat i) [] \<in> set w' \<and>
           (is_low_if d' = 0 \<longrightarrow> MIN_ZERO_IF_LO \<le> freq_khz d')"
proof -
  have to16: "to_u16 i = of_nat (unat i)" for i :: u32 by transfer simp
  show ?thesis
    using assms by (rule set_samplerate_success) (metis rate_index_selects to16)
qed

section \<open>Examples of tuning\<close>

text \<open>A device with two rates (low IF and zero IF), tuned to nothing yet.\<close>

definition demo_ptrs :: iq_ptrs where
  "demo_ptrs = \<lparr>iq_ptr = 1, corr_ptr = 2, corr_plus_ptr = 3, working_buffer_ptr = 4, boost_ptr = 5,
     power_flag_ptr = 6\<rparr>"

definition demo_balancer :: iq_balancer_t where
  "demo_balancer = iq_balancer_fields \<lparr>junk_flag = (\<lambda>_. 0), junk_float = (\<lambda>_. Zero False)\<rparr>
     demo_ptrs INITIAL_PHASE INITIAL_AMPLITUDE"

definition demo_tuner :: airspyhf_device where
  "demo_tuner = zero_device\<lparr>supported_samplerate_count := 2, supported_samplerates := [768000, 384000],
     samplerate_architectures := [0, 1], freq_hz := f64 7100000, iq_balancer := Some demo_balancer,
     iq_balancer_ptrs := demo_ptrs\<rparr>"

lemma demo_tuned: "tuned_khz demo_tuner (f64 7100000) = Some 7100"
  by (simp add: tuned_khz_def adjusted_freq_hz_def if_shift_def lo_low_khz_def demo_tuner_def
      zero_device_def MIN_ZERO_IF_LO_def flt_eval)

lemma demo_optimal_point: "\<exists>b. iq_balancer_set_optimal_point (Zero False) b0 = Some b"
  by (simp add: iq_balancer_set_optimal_point_def clamp_half_def FFTBins_def flt_eval)

lemma demo_delta: "freq_delta_value (blit [0, 0, 0, 0] bs) \<noteq> None"
  by (simp add: freq_delta_value_def blit_def)

lemma demo_set_freq:
  "\<exists>d' w'. airspyhf_set_freq_double demo_env (f64 7100000) demo_tuner w = Some (AIRSPYHF_SUCCESS, d', w')"
proof -
  have "\<not> int_lt_size 4 4" by (simp add: int_lt_size_iff)
  moreover obtain x where "freq_delta_value (blit [0, 0, 0, 0] (be_bytes_of_u32 7100)) = Some x"
    using demo_delta by blast
  moreover have "optimal_point demo_tuner = Zero False" "iq_balancer demo_tuner = Some demo_balancer"
    "freq_khz demo_tuner = 0"
    by (simp_all add: demo_tuner_def zero_device_def)
  ultimately show ?thesis
    using demo_optimal_point [of demo_balancer]
    by (auto simp: airspyhf_set_freq_double_def demo_tuned control_out_eq demo_env_def numeral_eq_Suc)
qed

theorem set_freq_double_correct_witness:
  "\<exists>d' w'. airspyhf_set_freq_double demo_env (f64 7100000) demo_tuner [] = Some (AIRSPYHF_SUCCESS, d', w') \<and>
     freq_khz d' = 7100 \<and> controls w' = retune_requests 7100"
proof -
  obtain d' w' where s: "airspyhf_set_freq_double demo_env (f64 7100000) demo_tuner [] = Some (AIRSPYHF_SUCCESS, d', w')"
    using demo_set_freq by blast
  have "freq_khz demo_tuner = 0" by (simp add: demo_tuner_def zero_device_def)
  with set_freq_double_correct [OF s] s show ?thesis
    by (auto simp: demo_tuned controls_def)
qed

text \<open>The same device behind a libusb that rejects every request.\<close>

definition failing_env :: env where
  "failing_env = demo_env\<lparr>ret := (\<lambda>_ _. - 4)\<rparr>"

lemma set_freq_masks_libusb_errors_example:
  "\<exists>d' w'. airspyhf_set_freq_double failing_env (f64 7100000) demo_tuner [] = Some (AIRSPYHF_SUCCESS, d', w') \<and>
     freq_khz d' = 7100"
proof -
  have f: "freq_khz demo_tuner \<noteq> 7100" by (simp add: demo_tuner_def zero_device_def)
  have "\<not> int_lt_size (- 4) 4" by (simp add: int_lt_size_iff)
  moreover have "optimal_point demo_tuner = Zero False" "iq_balancer demo_tuner = Some demo_balancer"
    by (simp_all add: demo_tuner_def zero_device_def)
  ultimately obtain r d' w' where s: "airspyhf_set_freq_double failing_env (f64 7100000) demo_tuner [] = Some (r, d', w')"
    using demo_optimal_point [of demo_balancer] f
    by (auto simp: airspyhf_set_freq_double_def demo_tuned control_out_eq failing_env_def demo_env_def)
  have "- (2 ^ 31) \<le> ret failing_env [] c" "ret failing_env [] c < 0" for c
    by (simp_all add: failing_env_def)
  from set_freq_masks_libusb_errors [OF demo_tuned f s this] s show ?thesis by blast
qed

lemma demo_set_samplerate:
  "\<exists>d' w'. airspyhf_set_samplerate M demo_env 384000 demo_tuner [] = Some (AIRSPYHF_SUCCESS, d', w')"
proof -
  have u: "[0..<2] = [0, 1 :: nat]" by (simp add: upt_rec)
  have "rate_index demo_tuner 384000 = Some 1"
    by (simp add: rate_index_def demo_tuner_def zero_device_def MAX_SAMPLERATE_INDEX_def rd_def u)
  moreover have retuned: "\<exists>r d' w'. airspyhf_set_freq_double demo_env (f64 7100000)
      (demo_tuner\<lparr>current_samplerate := 384000, is_low_if := 1, filter_gain := g\<rparr>) w = Some (r, d', w')" for g w
  proof -
    let ?d = "demo_tuner\<lparr>current_samplerate := 384000, is_low_if := 1, filter_gain := g\<rparr>"
    have t: "tuned_khz ?d (f64 7100000) = Some 7100"
      by (simp add: tuned_khz_def adjusted_freq_hz_def if_shift_def lo_low_khz_def demo_tuner_def
          zero_device_def MIN_LOW_IF_LO_def flt_eval)
    have "\<not> int_lt_size 4 4" by (simp add: int_lt_size_iff)
    moreover obtain x where "freq_delta_value (blit [0, 0, 0, 0] (be_bytes_of_u32 7100)) = Some x"
      using demo_delta by blast
    moreover have "optimal_point ?d = Zero False" "iq_balancer ?d = Some demo_balancer" "freq_khz ?d = 0"
      by (simp_all add: demo_tuner_def zero_device_def)
    ultimately show ?thesis
      using demo_optimal_point [of demo_balancer]
      by (auto simp: airspyhf_set_freq_double_def t control_out_eq demo_env_def numeral_eq_Suc)
  qed
  moreover have "freq_hz demo_tuner = f64 7100000" "supported_samplerate_count demo_tuner = 2"
    "rd (supported_samplerates demo_tuner) 1 = Some 384000" "rd (samplerate_architectures demo_tuner) 1 = Some 1"
    by (simp_all add: demo_tuner_def)
  moreover have "\<not> (2 :: u32) \<le> 1" by (simp add: word_le_nat_alt)
  moreover have "ret demo_env w (CtrlOut AIRSPYHF_SET_SAMPLERATE 0 i []) = 0" for w i by (simp add: demo_env_def)
  moreover obtain g w1 where "read_filter_gain M demo_env
      [ClearHalt bulk_endpoint, CtrlOut AIRSPYHF_SET_SAMPLERATE 0 1 []] = (g, w1)"
    by (metis surj_pair)
  moreover from retuned [of g w1] obtain r d' w' where "airspyhf_set_freq_double demo_env (f64 7100000)
      (demo_tuner\<lparr>current_samplerate := 384000, is_low_if := 1, filter_gain := g\<rparr>) w1 = Some (r, d', w')"
    by blast
  ultimately show ?thesis
    by (simp add: airspyhf_set_samplerate_def call_def raise_lo_def libusb_control_out_def Let_def)
qed

theorem set_samplerate_selects_witness:
  "\<exists>d' w'. airspyhf_set_samplerate demo_libm demo_env 384000 demo_tuner [] = Some (AIRSPYHF_SUCCESS, d', w') \<and>
     current_samplerate d' = 384000 \<and> is_low_if d' = 1"
proof -
  obtain d' w' where s: "airspyhf_set_samplerate demo_libm demo_env 384000 demo_tuner [] =
      Some (AIRSPYHF_SUCCESS, d', w')"
    using demo_set_samplerate by blast
  from set_samplerate_selects [OF this] obtain i where i: "selects demo_tuner 384000 i"
      "current_samplerate d' = supported_samplerates demo_tuner ! i"
      "is_low_if d' = samplerate_architectures demo_tuner ! i"
    by blast
  have tables: "supported_samplerates demo_tuner = [768000, 384000]"
    "unat (supported_samplerate_count demo_tuner) = 2"
    by (simp_all add: demo_tuner_def)
  have "take 2 [768000, 384000 :: u32] = [768000, 384000]" by simp
  moreover have "MAX_SAMPLERATE_INDEX < (384000 :: u32)" by (simp add: MAX_SAMPLERATE_INDEX_def)
  ultimately have "i < 2" "[768000, 384000 :: u32] ! i = 384000"
    using i(1) unfolding selects_def tables by (simp_all add: Let_def)
  then have "i = 1" by (cases i) auto
  with s i show ?thesis by (auto simp: demo_tuner_def)
qed

section \<open>The configuration in flash\<close>

lemma flash_config_roundtrip: "flash_config_of_bytes (flash_config_bytes c @ bs) = c"
proof -
  have "drop 4 (bytes_of_u32 a @ xs) = xs" for a xs by simp
  moreover have "drop 8 (bytes_of_u32 a @ bytes_of_u32 b @ xs) = xs" for a b xs by simp
  moreover have "drop 12 (bytes_of_u32 a @ bytes_of_u32 b @ bytes_of_u32 c @ xs) = xs" for a b c xs by simp
  ultimately show ?thesis
    by (simp add: flash_config_of_bytes_def flash_config_bytes_def u32_of_bytes_of_u32)
qed

lemma length_flash_config_bytes [simp]: "length (flash_config_bytes c) = 16"
  by (simp add: flash_config_bytes_def)

text \<open>
  C31 (roundtrip). What \<open>airspyhf_flash_configuration\<close> writes, read back from a device that
  stored the page, is the magic number and the calibration and options of the device record;
  a streaming device refuses without writing.
\<close>

theorem flash_configuration_roundtrip:
  assumes "airspyhf_flash_configuration E d w = (r, w')"
    and "\<And>page. CtrlOut AIRSPYHF_CONFIG_WRITE 0 0 page \<in> set w' \<Longrightarrow>
           reply E w' (CtrlIn AIRSPYHF_CONFIG_READ 0 0 256) = page"
  shows "(airspyhf_is_streaming d \<longrightarrow> r = AIRSPYHF_ERROR \<and> w' = w) \<and>
         (\<not> airspyhf_is_streaming d \<longrightarrow>
            flash_config_of_bytes (fst (snd (airspyhf_config_read E 16 w'))) = device_flash_config d)"
proof -
  let ?page = "flash_config_bytes (device_flash_config d) @ replicate 240 0"
  have page: "blit (take 256 (flash_config_bytes (device_flash_config d))) (replicate 256 0) = ?page"
    by (simp add: blit_def)
  have "flash_config_of_bytes (take 16 (blit (take 256 ?page) (junk_bytes E 256 w'))) = device_flash_config d"
    using flash_config_roundtrip [of "device_flash_config d" "[]"] by (simp add: blit_def)
  moreover have "reply E w' (CtrlIn AIRSPYHF_CONFIG_READ 0 0 256) = ?page" if "\<not> airspyhf_is_streaming d"
    using assms that page
    by (auto simp: airspyhf_flash_configuration_def airspyhf_config_write_def libusb_control_out_def Let_def)
  ultimately show ?thesis
    using assms(1)
    by (auto simp: airspyhf_flash_configuration_def airspyhf_config_read_def libusb_control_in_def Let_def)
qed

definition flash_env :: env where
  "flash_env = demo_env\<lparr>reply := (\<lambda>w c. case w of [CtrlOut _ _ _ page] \<Rightarrow> page | _ \<Rightarrow> [])\<rparr>"

theorem flash_configuration_roundtrip_witness:
  "flash_config_of_bytes (fst (snd (airspyhf_config_read flash_env 16
     (snd (airspyhf_flash_configuration flash_env zero_device []))))) = device_flash_config zero_device"
proof -
  obtain r w' where f: "airspyhf_flash_configuration flash_env zero_device [] = (r, w')" by force
  have "reply flash_env w' (CtrlIn AIRSPYHF_CONFIG_READ 0 0 256) = page"
    if "CtrlOut AIRSPYHF_CONFIG_WRITE 0 0 page \<in> set w'" for page
    using that f
    by (auto simp: airspyhf_flash_configuration_def airspyhf_config_write_def libusb_control_out_def Let_def
        airspyhf_is_streaming_def zero_device_def flash_env_def)
  from flash_configuration_roundtrip [OF f this] show ?thesis
    by (simp add: f airspyhf_is_streaming_def) (simp add: zero_device_def)
qed

section \<open>The simple commands\<close>

text \<open>
  The vendor commands for the attenuator, the amplifier, the gain control, the
  user outputs, the bias tee and the frontend options each send exactly one request, report
  success exactly when libusb reports no error, and the two halves of the frontend options
  determine the options.
\<close>

lemma simple_commands_report_errors:
  "one_request E w (CtrlOut AIRSPYHF_SET_ATT (ucast a) 0 []) (airspyhf_set_hf_att E a w) \<and>
   one_request E w (CtrlOut AIRSPYHF_SET_LNA (ucast a) 0 []) (airspyhf_set_hf_lna E a w) \<and>
   one_request E w (CtrlOut AIRSPYHF_SET_AGC (ucast a) 0 []) (airspyhf_set_hf_agc E a w) \<and>
   one_request E w (CtrlOut AIRSPYHF_SET_AGC_THRESHOLD (ucast a) 0 []) (airspyhf_set_hf_agc_threshold E a w) \<and>
   one_request E w (CtrlOut AIRSPYHF_SET_BIAS_TEE (scast v) 0 []) (airspyhf_set_bias_tee E v w) \<and>
   one_request E w (CtrlOut AIRSPYHF_SET_USER_OUTPUT (user_output_code pin) (user_output_state_code st) [])
     (airspyhf_set_user_output E pin st w) \<and>
   (\<exists>lo hi rw. rw = airspyhf_set_frontend_options E flags d w \<and>
      one_request E w (CtrlOut AIRSPYHF_SET_FRONTEND_OPTIONS lo hi []) (fst rw, snd (snd rw)) \<and>
      push_bit 16 (ucast hi) OR ucast lo = flags)"
proof -
  have "one_request E w (CtrlOut AIRSPYHF_SET_FRONTEND_OPTIONS (to_u16 (flags AND 0xFFFF)) (to_u16 (drop_bit 16 flags)) [])
     (fst (airspyhf_set_frontend_options E flags d w), snd (snd (airspyhf_set_frontend_options E flags d w)))"
    using frontend.contract [of E w flags d] by (simp add: case_prod_unfold Let_def)
  then have "\<exists>lo hi rw. rw = airspyhf_set_frontend_options E flags d w \<and>
      one_request E w (CtrlOut AIRSPYHF_SET_FRONTEND_OPTIONS lo hi []) (fst rw, snd (snd rw)) \<and>
      push_bit 16 (ucast hi) OR ucast lo = flags"
    using frontend_halves [of flags] by blast
  then show ?thesis
    by (intro conjI hf_att.contract hf_lna.contract hf_agc.contract hf_agc_threshold.contract
        bias_tee.contract user_output.contract)
qed

section \<open>Strings\<close>

lemma copy_string_None:
  "copy_string s result len = None \<longleftrightarrow> 0 \<le> result \<and> length s + 1 < unat len"
  by (auto simp: copy_string_def word_less_nat_alt)

lemma copy_string_Some:
  "copy_string s result len = Some (AIRSPYHF_SUCCESS, t) \<Longrightarrow> length t = unat len \<and> last t = 0"
  by (auto simp: copy_string_def word_less_nat_alt split: if_splits)

text \<open>
  Reading the firmware's version string is defined for every destination of up
  to 65 bytes and writes exactly the destination, zero-terminated; a longer destination makes
  the copy read past the 64 bytes of the local array.
\<close>

lemma version_string_read_bounds:
  "(airspyhf_version_string_read E len w = None \<longleftrightarrow>
      65 < len \<and> 0 \<le> ret E w (CtrlIn AIRSPYHF_GET_VERSION_STRING 0 0 63)) \<and>
   (\<forall>s w'. airspyhf_version_string_read E len w = Some (AIRSPYHF_SUCCESS, s, w') \<longrightarrow>
      length s = unat len \<and> last s = 0)"
proof -
  let ?c = "CtrlIn AIRSPYHF_GET_VERSION_STRING 0 0 63"
  let ?s = "blit (take 63 (reply E w ?c)) (junk_bytes E 64 w)"
  have l: "length ?s = 64" by (subst length_blit) simp_all
  have e: "airspyhf_version_string_read E len w =
      map_option (\<lambda>(r, s). (r, s, w @ [?c])) (copy_string ?s (ret E w ?c) len)"
    by (simp add: airspyhf_version_string_read_def libusb_control_in_def Let_def string_sizes
        map_conv_bind_option case_prod_unfold comp_def)
  have "copy_string ?s (ret E w ?c) len = None \<longleftrightarrow> 65 < len \<and> 0 \<le> ret E w ?c"
    using copy_string_None [of ?s "ret E w ?c" len] l by (simp add: word_less_nat_alt conj_commute)
  then show ?thesis
    using copy_string_Some [of ?s "ret E w ?c" len] by (auto simp: e)
qed

lemma version_string_read_bounds_example:
  "airspyhf_version_string_read demo_env 66 [] = None \<and> airspyhf_version_string_read demo_env 64 [] \<noteq> None"
proof -
  have "ret demo_env [] (CtrlIn AIRSPYHF_GET_VERSION_STRING 0 0 63) = 63" by (simp add: demo_env_def)
  then show ?thesis
    using version_string_read_bounds [of demo_env 66 "[]"] version_string_read_bounds [of demo_env 64 "[]"]
    by (simp add: word_less_nat_alt)
qed

section \<open>Attenuation\<close>

lemma find_att_first:
  assumes "a \<le> n" and "n \<le> length steps" and "k < n" and "a \<le> k"
    and "flt_le att (steps ! k)" and "\<And>j. a \<le> j \<Longrightarrow> j < k \<Longrightarrow> \<not> flt_le att (steps ! j)"
  shows "find_att steps att [a..<n] = Some (of_nat k)"
  using assms
proof (induction "k - a" arbitrary: a)
  case 0
  then show ?case by (simp add: upt_conv_Cons)
next
  case (Suc m)
  then have "a < k" by simp
  moreover from this Suc.prems have "\<not> flt_le att (steps ! a)" by simp
  moreover have "find_att steps att [Suc a..<n] = Some (of_nat k)"
    using Suc.hyps(2) Suc.prems \<open>a < k\<close> by (intro Suc.hyps(1)) auto
  ultimately show ?case using Suc.prems by (simp add: upt_conv_Cons)
qed

lemma find_att_none:
  assumes "\<And>j. j \<in> set is \<Longrightarrow> j < length steps \<and> \<not> flt_le att (steps ! j)"
  shows "find_att steps att is = Some 0"
  using assms by (induction "is") auto

text \<open>
  \<open>airspyhf_set_att\<close> selects the first step of the device's table that
  attenuates at least as much as asked for; when no step does, it selects step 0, the one
  that attenuates least.
\<close>

lemma set_att_selects:
  assumes "unat (supported_att_step_count d) = length (supported_att_steps d)"
  shows "\<exists>i r. airspyhf_set_att E att d w = Some (r, w @ [CtrlOut AIRSPYHF_SET_ATT (of_nat i) 0 []]) \<and>
           (i < length (supported_att_steps d) \<and> flt_le att (supported_att_steps d ! i) \<and>
              (\<forall>j<i. \<not> flt_le att (supported_att_steps d ! j)) \<or>
            i = 0 \<and> (\<forall>s \<in> set (supported_att_steps d). \<not> flt_le att s))"
proof -
  let ?steps = "supported_att_steps d"
  let ?P = "\<lambda>i. i < length ?steps \<and> flt_le att (?steps ! i)"
  have e: "airspyhf_set_att E att d w = map_option (\<lambda>i. let c = CtrlOut AIRSPYHF_SET_ATT i 0 [] in
      (if ret E w c < 0 then AIRSPYHF_ERROR else AIRSPYHF_SUCCESS, w @ [c])) (find_att ?steps att [0..<length ?steps])"
    by (simp add: airspyhf_set_att_def assms libusb_control_out_def Let_def map_conv_bind_option comp_def)
  show ?thesis
  proof (cases "\<exists>i. ?P i")
    case True
    then obtain i where i: "?P i" "\<forall>j<i. \<not> ?P j" using exists_least_iff [of ?P] by blast
    then have first: "\<forall>j<i. \<not> flt_le att (?steps ! j)" by simp
    then have "find_att ?steps att [0..<length ?steps] = Some (of_nat i)"
      using i(1) by (intro find_att_first) simp_all
    with i(1) first show ?thesis by (intro exI [of _ i]) (simp add: e Let_def)
  next
    case False
    then have "find_att ?steps att [0..<length ?steps] = Some 0" by (intro find_att_none) auto
    moreover have "\<forall>s \<in> set ?steps. \<not> flt_le att s" using False by (auto simp: in_set_conv_nth)
    ultimately show ?thesis by (intro exI [of _ "0 :: nat"]) (simp add: e Let_def)
  qed
qed

definition demo_atts :: airspyhf_device where
  "demo_atts = zero_device\<lparr>supported_att_step_count := 2, supported_att_steps := [f32 0, f32 12]\<rparr>"

lemma set_att_selects_example:
  "\<exists>i r. airspyhf_set_att demo_env (f32 7) demo_atts [] = Some (r, [CtrlOut AIRSPYHF_SET_ATT (of_nat i) 0 []]) \<and> i < 2"
proof -
  have c: "unat (supported_att_step_count demo_atts) = length (supported_att_steps demo_atts)"
    "length (supported_att_steps demo_atts) = 2"
    by (simp_all add: demo_atts_def)
  obtain i r where i: "airspyhf_set_att demo_env (f32 7) demo_atts [] =
      Some (r, [] @ [CtrlOut AIRSPYHF_SET_ATT (of_nat i) 0 []])" "i < 2 \<or> i = 0"
    using set_att_selects [OF c(1), of demo_env "f32 7" "[]"] unfolding c(2) by blast
  then have "i < 2" by auto
  with i(1) show ?thesis by (intro exI [of _ i] exI [of _ r]) simp
qed

end
