(* ===== verification/Lifecycle.thy ===== *)
theory Lifecycle
  imports Start_Stop Control_Properties
begin

text \<open>
  The whole life of a stream: what a failed start leaves behind, what \<open>airspyhf_stop\<close>
  guarantees, and the balance of the memory from the allocation of the transfers to their
  release.
\<close>

section \<open>A start that fails\<close>

text \<open>The idle version of the example device.\<close>

definition idle_device :: airspyhf_device where
  "idle_device = demo_device\<lparr>transfer_live := 0, streaming := False\<rparr>"

lemma idle_device: "stream_idle idle_device"
proof -
  have "xfers_ok idle_device"
    by (simp add: xfers_ok_def idle_device_def demo_device_def) (rule exI [of _ "[demo_xfer]"], simp)
  then show ?thesis
    by (simp add: stream_idle_def all_buffers_def xfer_buffers_def nth_xfer_def idle_device_def
        demo_device_def demo_xfer_def zero_device_def RAW_BUFFER_COUNT_def)
qed

text \<open>The requests a start sends before it submits transfers, and the traces at those points.\<close>

definition modes_accepted :: "env \<Rightarrow> trace \<Rightarrow> bool" where
  "modes_accepted E w \<longleftrightarrow> ret E w (mode_request RECEIVER_MODE_OFF) = 0 \<and>
     ret E (w @ [mode_request RECEIVER_MODE_OFF, ClearHalt bulk_endpoint]) (mode_request RECEIVER_MODE_ON) = 0"

lemma start_unfold:
  assumes "modes_accepted E w"
  shows "airspyhf_start E cb context d w =
    create_io_threads E cb
      (d\<lparr>dropped_buffers_queue := replicate RAW_BUFFER_COUNT 0, dropped_buffers := 0,
         vec := \<lparr>re = f32 1, im = Zero False\<rparr>, ctx := context\<rparr>)
      (w @ [mode_request RECEIVER_MODE_OFF, ClearHalt bulk_endpoint, mode_request RECEIVER_MODE_ON])"
  using assms by (simp add: airspyhf_start_def set_receiver_mode_eq call_def modes_accepted_def)

lemma start_while_streaming:
  assumes "streaming d"
  shows "\<exists>d' w'. airspyhf_start E cb context d w = Some (AIRSPYHF_ERROR, d', w')"
  using assms
  by (simp add: airspyhf_start_def set_receiver_mode_eq call_def create_io_threads_def Let_def)

lemma stream_idle_start_fields:
  "stream_idle (d\<lparr>dropped_buffers_queue := replicate RAW_BUFFER_COUNT 0, dropped_buffers := 0,
     vec := v, ctx := c\<rparr>)" if "stream_idle d"
proof -
  let ?d = "d\<lparr>dropped_buffers_queue := replicate RAW_BUFFER_COUNT 0, dropped_buffers := 0, vec := v, ctx := c\<rparr>"
  have "all_buffers ?d = all_buffers d" "xfers_ok ?d = xfers_ok d"
    by (simp_all add: all_buffers_def xfers_ok_def xfer_buffers_def nth_xfer_def)
  with that show ?thesis by (simp add: stream_idle_def RAW_BUFFER_COUNT_def)
qed

text \<open>
  C37 (error). When a transfer cannot be submitted or a thread cannot be created,
  \<open>airspyhf_start\<close> reports an error but leaves the device marked as streaming:
  \<open>airspyhf_is_streaming\<close> answers true and every further start fails until a stop.
\<close>

theorem failed_start_stays_streaming:
  assumes "stream_idle d" and "modes_accepted E w"
    and "airspyhf_start E cb context d w = Some (AIRSPYHF_ERROR, d', w')"
  shows "airspyhf_is_streaming d' \<and>
         (\<forall>E2 cb2 context2 w2. \<exists>d2 w3. airspyhf_start E2 cb2 context2 d' w2 = Some (AIRSPYHF_ERROR, d2, w3))"
proof -
  let ?d = "d\<lparr>dropped_buffers_queue := replicate RAW_BUFFER_COUNT 0, dropped_buffers := 0,
              vec := \<lparr>re = f32 1, im = Zero False\<rparr>, ctx := context\<rparr>"
  have "stream_idle ?d" by (rule stream_idle_start_fields [OF assms(1)])
  from create_io_threads_outcome [OF this, of E cb
      "w @ [mode_request RECEIVER_MODE_OFF, ClearHalt bulk_endpoint, mode_request RECEIVER_MODE_ON]"]
  have "streaming d' \<and> \<not> stop_requested d'"
    using assms(3) unfolding start_unfold [OF assms(2)] by auto
  then show ?thesis by (simp add: airspyhf_is_streaming_def start_while_streaming)
qed

text \<open>A host whose submissions fail.\<close>

definition full_host :: env where
  "full_host = demo_env\<lparr>ret := (\<lambda>_ c. case c of SubmitTransfer _ _ \<Rightarrow> - 11 | _ \<Rightarrow> 0)\<rparr>"

theorem failed_start_stays_streaming_witness:
  "\<exists>d' w'. airspyhf_start full_host 1 0 idle_device [] = Some (AIRSPYHF_ERROR, d', w') \<and>
     airspyhf_is_streaming d'"
proof -
  have m: "modes_accepted full_host []"
    by (simp add: modes_accepted_def full_host_def mode_request_def)
  have "ret full_host w (SubmitTransfer x b) \<noteq> 0" for w x b by (simp add: full_host_def)
  moreover have "transfers idle_device = Some [Some demo_xfer]" "transfer_count idle_device = Suc 0"
    "\<not> streaming idle_device" "\<not> stop_requested idle_device"
    by (simp_all add: idle_device_def demo_device_def zero_device_def)
  ultimately obtain d' w' where s: "airspyhf_start full_host 1 0 idle_device [] = Some (AIRSPYHF_ERROR, d', w')"
    by (simp add: start_unfold [OF m] create_io_threads_def prepare_transfers_def nth_xfer_def
        libusb_submit_transfer_def call_def Let_def)
  with failed_start_stays_streaming [OF idle_device m s] show ?thesis by blast
qed

section \<open>Stopping\<close>

text \<open>Once \<open>streaming\<close> is off, a completion only counts down; here \<open>n\<close> of them.\<close>

definition drained :: "nat \<Rightarrow> airspyhf_device \<Rightarrow> airspyhf_device" where
  "drained n d = d\<lparr>transfer_live := transfer_live d - int n\<rparr>"

lemma drained_fields [simp]:
  "streaming (drained n d) = streaming d" "stop_requested (drained n d) = stop_requested d"
  "nth_xfer (drained n d) i = nth_xfer d i" "transfer_count (drained n d) = transfer_count d"
  "transfer_live (drained n d) = transfer_live d - int n" "transfers (drained n d) = transfers d"
  "drained m (drained n d) = drained (n + m) d" "drained 0 d = d"
  "transfer_thread_running (drained n d) = transfer_thread_running d"
  "consumer_thread_running (drained n d) = consumer_thread_running d"
  by (simp_all add: drained_def nth_xfer_def)

lemma callback_when_off:
  assumes "nth_xfer d i = Some x" and "\<not> streaming d"
  shows "airspyhf_libusb_transfer_callback E i ok n d w = Some (drained 1 d, w)"
  using assms by (simp add: airspyhf_libusb_transfer_callback_def callback_enter_def drained_def Let_def)

lemma run_completions_off:
  assumes "\<not> streaming d" and "\<And>c. c \<in> set cs \<Longrightarrow> nth_xfer d (fst c) \<noteq> None"
  shows "run_completions E cs d w = Some (drained (length cs) d, w)"
  using assms
proof (induction cs arbitrary: d)
  case Nil
  then show ?case by simp
next
  case (Cons c cs)
  obtain i ok n where c: "c = (i, ok, n)" by (cases c)
  from Cons.prems(2) [of c] obtain x where x: "nth_xfer d i = Some x" by (auto simp: c)
  have "run_completions E cs (drained 1 d) w = Some (drained (length cs) (drained 1 d), w)"
    using Cons.prems by (intro Cons.IH) auto
  then show ?case by (simp add: c callback_when_off [OF x Cons.prems(1)])
qed

text \<open>What libusb guarantees of completions: they are of transfers of the device.\<close>

definition completions_ok :: "env \<Rightarrow> airspyhf_device \<Rightarrow> bool" where
  "completions_ok E d \<longleftrightarrow> (\<forall>w. \<forall>c \<in> set (completions E w). fst c < transfer_count d)"

lemma handle_events_off:
  assumes "\<not> streaming d" and "xfers_ok d" and "completions_ok E d"
  shows "handle_events E d w =
    Some (ret E w HandleEvents, drained (length (completions E w)) d, w @ [HandleEvents])"
proof -
  have "run_completions E (completions E w) d (w @ [HandleEvents]) =
      Some (drained (length (completions E w)) d, w @ [HandleEvents])"
  proof (rule run_completions_off [OF assms(1)])
    fix c
    assume "c \<in> set (completions E w)"
    then have "fst c < transfer_count d" using assms(3) by (auto simp: completions_ok_def)
    then show "nth_xfer d (fst c) \<noteq> None" using nth_xfer_ok [OF assms(2)] by fastforce
  qed
  then show ?thesis by (simp add: handle_events_def call_def)
qed

lemma drained_ok [simp]:
  "xfers_ok (drained n d) = xfers_ok d" "completions_ok E (drained n d) = completions_ok E d"
  by (simp_all add: xfers_ok_def completions_ok_def drained_def)

lemma quiet_calls [simp]:
  "live (w @ [HandleEvents]) = live w" "controls [HandleEvents] = []"
  "live (w @ [InterruptEventHandler]) = live w" "controls [InterruptEventHandler] = []"
  "live (w @ [ThreadJoin t]) = live w" "controls [ThreadJoin t] = []"
  "live (w @ [CancelTransfer p]) = live w" "controls [CancelTransfer p] = []"
  "joins [HandleEvents] = []" "joins [InterruptEventHandler] = []" "joins [CancelTransfer p] = []"
  "joins [mode_request m] = []"
  by (simp_all add: live_snoc live_step_def controls_def joins_def mode_request_def List.map_filter_def)

lemma drain_off:
  assumes "\<not> streaming d" and "xfers_ok d" and "completions_ok E d"
  shows "\<exists>k w'. drain E n d w = Some (drained k d, w') \<and> live w' = live w \<and> controls w' = controls w \<and> joins w' = joins w"
  using assms
proof (induction n arbitrary: d w)
  case 0
  show ?case by (intro exI [of _ 0] exI [of _ w]) simp
next
  case (Suc n)
  let ?k = "length (completions E w)"
  show ?case
  proof (cases "transfer_live d > 0")
    case True
    obtain k w' where "drain E n (drained ?k d) (w @ [HandleEvents]) = Some (drained k (drained ?k d), w')"
      "live w' = live (w @ [HandleEvents])" "controls w' = controls (w @ [HandleEvents])"
      "joins w' = joins (w @ [HandleEvents])"
      using Suc.IH [of "drained ?k d" "w @ [HandleEvents]"] Suc.prems by auto
    then show ?thesis
      using True handle_events_off [OF Suc.prems, of w]
      by (intro exI [of _ "?k + k"] exI [of _ w']) simp
  next
    case False
    then show ?thesis by (intro exI [of _ 0] exI [of _ w]) simp
  qed
qed

lemma cancel_xfers_quiet:
  "live (cancel_xfers xs w) = live w \<and> controls (cancel_xfers xs w) = controls w \<and> joins (cancel_xfers xs w) = joins w"
  by (induction xs w rule: cancel_xfers.induct) simp_all

lemma cancel_transfers_off:
  assumes "\<not> streaming d" and "xfers_ok d" and "completions_ok E d"
  shows "\<exists>k w'. cancel_transfers E d w = Some (AIRSPYHF_SUCCESS, drained k d, w') \<and>
           live w' = live w \<and> controls w' = controls w \<and> joins w' = joins w"
proof -
  obtain xs where xs: "transfers d = Some xs" using assms(2) by (auto simp: xfers_ok_def)
  obtain k w' where "drain E (transfer_count d) d (cancel_xfers (take (transfer_count d) xs) w) = Some (drained k d, w')"
    "live w' = live w" "controls w' = controls w" "joins w' = joins w"
    using drain_off [OF assms, of "transfer_count d" "cancel_xfers (take (transfer_count d) xs) w"]
      cancel_xfers_quiet by metis
  then show ?thesis by (intro exI [of _ k] exI [of _ w']) (simp add: cancel_transfers_def xs)
qed

text \<open>The device after a stop in which \<open>k\<close> transfers completed.\<close>

definition stopped :: "nat \<Rightarrow> airspyhf_device \<Rightarrow> airspyhf_device" where
  "stopped k d = (drained k d)\<lparr>streaming := False, stop_requested := False,
     transfer_thread_running := False, consumer_thread_running := False\<rparr>"

text \<open>The threads a stop has to wait for, in the order in which it does.\<close>

definition running_threads :: "airspyhf_device \<Rightarrow> nat list" where
  "running_threads d = (if transfer_thread_running d then [transfer_thread] else []) @
     (if consumer_thread_running d then [consumer_thread] else [])"

lemma kill_io_threads_outcome:
  assumes "xfers_ok d" and "completions_ok E d" and "stop_requested d"
  shows "\<exists>k w'. kill_io_threads E d w = Some (AIRSPYHF_SUCCESS, stopped k d, w') \<and>
           live w' = live w \<and> controls w' = controls w \<and> joins w' = joins w @ running_threads d"
proof -
  let ?d = "d\<lparr>stop_requested := False, streaming := False\<rparr>"
  have ok: "\<not> streaming ?d" "xfers_ok ?d" "completions_ok E ?d"
    using assms by (simp_all add: xfers_ok_def completions_ok_def)
  obtain k w1 where c: "cancel_transfers E ?d w = Some (AIRSPYHF_SUCCESS, drained k ?d, w1)"
      "live w1 = live w" "controls w1 = controls w" "joins w1 = joins w"
    using cancel_transfers_off [OF ok] by blast
  define w2 where "w2 = (if transfer_thread_running d then w1 @ [ThreadJoin transfer_thread] else w1)"
  define w3 where "w3 = (if consumer_thread_running d then w2 @ [ThreadJoin consumer_thread] else w2)"
  define d1 where "d1 = (if transfer_thread_running d then drained k ?d\<lparr>transfer_thread_running := False\<rparr> else drained k ?d)"
  define d2 where "d2 = (if consumer_thread_running d then d1\<lparr>consumer_thread_running := False\<rparr> else d1)"
  let ?k = "length (completions E w3)"
  have d2: "d2 = (drained k ?d)\<lparr>transfer_thread_running := False, consumer_thread_running := False\<rparr>"
    by (simp add: d2_def d1_def drained_def)
  have off: "handle_events E d2 w3 = Some (ret E w3 HandleEvents, drained ?k d2, w3 @ [HandleEvents])"
    using ok by (intro handle_events_off) (simp_all add: d2 xfers_ok_def completions_ok_def drained_def)
  have "kill_io_threads E d w = handle_events E d2 w3 \<bind> (\<lambda>(r, d, w). Some (AIRSPYHF_SUCCESS, d, w))"
    using assms(3) c(1)
    by (cases "transfer_thread_running d"; cases "consumer_thread_running d")
       (simp_all add: kill_io_threads_def d2_def d1_def w3_def w2_def Let_def)
  moreover have "drained ?k d2 = stopped (k + ?k) d" by (simp add: d2 stopped_def drained_def)
  moreover have "live w3 = live w" "controls w3 = controls w" "joins w3 = joins w @ running_threads d"
    using c(2,3,4) by (simp_all add: w3_def w2_def running_threads_def)
  ultimately show ?thesis
    using off by (intro exI [of _ "k + ?k"] exI [of _ "w3 @ [HandleEvents]"]) simp
qed

lemma airspyhf_stop_outcome:
  assumes "xfers_ok d" and "completions_ok E d"
  shows "\<exists>k w'. airspyhf_stop E d w =
             Some (if ret E w (mode_request RECEIVER_MODE_OFF) = 0 then AIRSPYHF_SUCCESS else AIRSPYHF_ERROR,
                   stopped k d, w') \<and>
           live w' = live w \<and> controls w' = controls w @ [mode_request RECEIVER_MODE_OFF] \<and>
           joins w' = joins w @ running_threads d"
proof -
  let ?d = "d\<lparr>stop_requested := True\<rparr>"
  let ?w = "w @ [mode_request RECEIVER_MODE_OFF]"
  have "xfers_ok ?d" "completions_ok E ?d" "stop_requested ?d"
    using assms by (simp_all add: xfers_ok_def completions_ok_def)
  from kill_io_threads_outcome [OF this] obtain k w' where
    "kill_io_threads E ?d ?w = Some (AIRSPYHF_SUCCESS, stopped k ?d, w')"
    "live w' = live ?w" "controls w' = controls ?w" "joins w' = joins ?w @ running_threads ?d"
    by blast
  moreover have "running_threads ?d = running_threads d" by (simp add: running_threads_def)
  moreover have "stopped k ?d = stopped k d" by (simp add: stopped_def drained_def)
  ultimately show ?thesis
    by (intro exI [of _ k] exI [of _ "w' @ [InterruptEventHandler]"])
       (simp add: airspyhf_stop_def set_receiver_mode_eq call_def, simp add: mode_request_def controls_def)
qed

lemma stopped_blocks: "stream_blocks (stopped k d) = stream_blocks d" "all_buffers (stopped k d) = all_buffers d"
  "xfers_ok (stopped k d) = xfers_ok d"
  by (simp_all add: stream_blocks_def all_buffers_def stopped_def drained_def xfer_buffers_def nth_xfer_def xfers_ok_def)

text \<open>
  C6 (functional). \<open>airspyhf_stop\<close> returns on every device with allocated transfers, streaming
  or not: it tells the receiver to stop, it joins exactly the threads that are running, the
  transfer thread first, and clears both flags, its result is that of the request, and a
  device whose transfers have all come back is ready for the next start.
\<close>

theorem stop_makes_idle:
  assumes "xfers_ok d" and "completions_ok E d" and "distinct (all_buffers d)" and "NULL \<notin> set (all_buffers d)"
    and "length (received_samples_queue d) = 8" and "length (dropped_buffers_queue d) = 8"
  shows "\<exists>r d' w'. airspyhf_stop E d w = Some (r, d', w') \<and>
           (r = AIRSPYHF_SUCCESS \<longleftrightarrow> ret E w (mode_request RECEIVER_MODE_OFF) = 0) \<and>
           controls w' = controls w @ [mode_request RECEIVER_MODE_OFF] \<and>
           joins w' = joins w @ running_threads d \<and>
           \<not> airspyhf_is_streaming d' \<and> \<not> transfer_thread_running d' \<and> \<not> consumer_thread_running d' \<and>
           (stream_idle d' \<longleftrightarrow> transfer_live d' = 0)"
proof -
  obtain k w' where s: "airspyhf_stop E d w =
      Some (if ret E w (mode_request RECEIVER_MODE_OFF) = 0 then AIRSPYHF_SUCCESS else AIRSPYHF_ERROR, stopped k d, w')"
      "controls w' = controls w @ [mode_request RECEIVER_MODE_OFF]" "joins w' = joins w @ running_threads d"
    using airspyhf_stop_outcome [OF assms(1,2)] by blast
  have "stream_idle (stopped k d) \<longleftrightarrow> transfer_live (stopped k d) = 0"
    using assms by (simp add: stream_idle_def stopped_blocks) (simp add: stopped_def drained_def)
  moreover have "\<not> airspyhf_is_streaming (stopped k d)" "\<not> transfer_thread_running (stopped k d)"
    "\<not> consumer_thread_running (stopped k d)"
    by (simp_all add: stopped_def airspyhf_is_streaming_def)
  ultimately show ?thesis using s by auto
qed

theorem stop_makes_idle_witness:
  "\<exists>r d' w'. airspyhf_stop demo_env demo_device [] = Some (r, d', w') \<and> \<not> airspyhf_is_streaming d'"
proof -
  have ok: "xfers_ok demo_device" "distinct (all_buffers demo_device)" "length (received_samples_queue demo_device) = 8"
    "length (dropped_buffers_queue demo_device) = 8"
    using demo_ready by (simp_all add: stream_ready_def)
  have "NULL \<notin> set (all_buffers demo_device)"
    by (simp add: all_buffers_def xfer_buffers_def nth_xfer_def demo_device_def demo_xfer_def zero_device_def)
  moreover have "completions_ok demo_env demo_device" by (simp add: completions_ok_def demo_env_def)
  ultimately show ?thesis using stop_makes_idle [of demo_device demo_env "[]"] ok by blast
qed

section \<open>Balance of the memory\<close>

text \<open>The blocks of a stream that the running threads never exchange.\<close>

definition fixed_blocks :: "airspyhf_device \<Rightarrow> ptr \<times> ptr \<times> ptr list" where
  "fixed_blocks d = (output_buffer d, transfers_ptr d, map xfer_addr (map the (the (transfers d))))"

lemma stream_blocks_fixed:
  "fixed_blocks d = fixed_blocks e \<Longrightarrow> mset (all_buffers d) = mset (all_buffers e) \<Longrightarrow>
   stream_blocks d = stream_blocks e"
  by (simp add: stream_blocks_def fixed_blocks_def)

lemma fixed_blocks_set_xfer:
  assumes "nth_xfer d i = Some x" and "xfer_addr y = xfer_addr x"
  shows "fixed_blocks (set_xfer i y d) = fixed_blocks d"
proof -
  obtain xs where xs: "transfers d = Some xs" "i < length xs" "xs ! i = Some x"
    using assms(1) by (auto simp: nth_xfer_def rd_def split: bind_splits if_splits)
  have "map (\<lambda>x. xfer_addr (the x)) (xs[i := Some y]) = map (\<lambda>x. xfer_addr (the x)) xs"
    using xs assms(2) by (intro nth_equalityI) (auto simp: nth_list_update)
  with xs show ?thesis by (simp add: fixed_blocks_def set_xfer_def comp_def)
qed

lemma queue_push_fixed:
  "queue_push b d = Some (t, d') \<Longrightarrow> fixed_blocks d' = fixed_blocks d \<and> transfers d' = transfers d"
  by (auto simp: queue_push_def fixed_blocks_def split: bind_splits)

lemma callback_locked_fixed:
  assumes "callback_locked i d = Some d'"
  shows "fixed_blocks d' = fixed_blocks d"
proof (cases "queue_full d")
  case True
  with assms show ?thesis by (auto simp: callback_locked_def fixed_blocks_def)
next
  case False
  then obtain x t e where x: "nth_xfer d i = Some x" "queue_push (xfer_buffer x) d = Some (t, e)"
      "d' = set_xfer i (x\<lparr>xfer_buffer := t\<rparr>) e"
    using assms by (auto simp: callback_locked_def split: bind_splits)
  moreover from queue_push_fixed [OF x(2)] x(1) have "nth_xfer e i = Some x" by (simp add: nth_xfer_def)
  ultimately show ?thesis using queue_push_fixed [OF x(2)] fixed_blocks_set_xfer by simp
qed

lemma fixed_blocks_stream_view: "stream_view d' = stream_view d \<Longrightarrow> fixed_blocks d' = fixed_blocks d"
  by (simp add: stream_view_eq_iff fixed_blocks_def)

lemma fixed_blocks_simps [simp]:
  "fixed_blocks (d\<lparr>streaming := b\<rparr>) = fixed_blocks d"
  "fixed_blocks (d\<lparr>stop_requested := b\<rparr>) = fixed_blocks d"
  "fixed_blocks (queue_release d) = fixed_blocks d"
  "fixed_blocks (callback_resubmit failed d) = fixed_blocks d"
  by (simp_all add: fixed_blocks_def queue_release_def callback_resubmit_def)

lemma callback_enter_fixed:
  "callback_enter x ok n d = (go, d') \<Longrightarrow> fixed_blocks d' = fixed_blocks d"
  by (auto simp: callback_enter_def Let_def fixed_blocks_def split: if_splits)

lemma queue_take_fixed: "queue_take d = Some (pn, d') \<Longrightarrow> fixed_blocks d' = fixed_blocks d"
  by (auto simp: queue_take_def fixed_blocks_def split: bind_splits)

lemma fixed_blocks_step:
  assumes "stream_step M L s t"
  shows "fixed_blocks (dev t) = fixed_blocks (dev s)"
  using assms
proof cases
  case (callback_begin i x ok n)
  then show ?thesis by (simp add: fixed_blocks_def callback_count_def)
next
  case (main_events i x ok n d')
  with callback_enter_fixed [OF main_events(5)] show ?thesis by simp
next
  case (consumer_process p n out d' r)
  with fixed_blocks_stream_view [OF convert_samples_stream_view [OF consumer_process(4)]]
  show ?thesis by simp
next
  case (consumer_disturbed p n d' out r)
  with fixed_blocks_stream_view [OF consumer_disturbed(4)] show ?thesis by simp
next
  case (consumer_take p n d')
  with queue_take_fixed [OF consumer_take(4)] show ?thesis by simp
next
  case (callback_push i d' x)
  with callback_locked_fixed [OF callback_push(5)] show ?thesis by simp
next
  case (callback_drop i d')
  with callback_locked_fixed [OF callback_drop(5)] show ?thesis by simp
next
  case (control d' x)
  with fixed_blocks_stream_view [OF control(2)] show ?thesis by simp
qed simp_all

lemma stream_run:
  assumes "stream_ready d" and "(stream_step M L)\<^sup>*\<^sup>* (stream_init d mem) s"
  shows "mset (all_buffers (dev s)) = mset (all_buffers d)" and "fixed_blocks (dev s) = fixed_blocks d"
    and "xfers_ok (dev s)"
proof -
  have "mset (all_buffers (dev s)) = mset (all_buffers d) \<and> fixed_blocks (dev s) = fixed_blocks d \<and>
        stream_reachable M L s"
    using assms(2)
  proof (induction rule: rtranclp_induct)
    case base
    then show ?case using reach_init [OF assms(1)] by (simp add: stream_init_def)
  next
    case (step t u)
    then have "stream_wf t" using reachable_ok(1) by blast
    with step all_buffers_step [OF step(2)] fixed_blocks_step [OF step(2)] show ?case
      by (auto intro: reach_step)
  qed
  then show "mset (all_buffers (dev s)) = mset (all_buffers d)" "fixed_blocks (dev s) = fixed_blocks d"
    "xfers_ok (dev s)"
    using reachable_ok(1) by (auto simp: stream_wf_def)
qed

lemma start_outcome:
  assumes "stream_idle d" and "airspyhf_start E cb context d w = Some (AIRSPYHF_SUCCESS, d', w')"
  shows "started_from d d' \<and> live w' = live w"
proof -
  let ?d = "d\<lparr>dropped_buffers_queue := replicate RAW_BUFFER_COUNT 0, dropped_buffers := 0,
              vec := \<lparr>re = f32 1, im = Zero False\<rparr>, ctx := context\<rparr>"
  let ?w = "w @ [mode_request RECEIVER_MODE_OFF, ClearHalt bulk_endpoint, mode_request RECEIVER_MODE_ON]"
  have m: "modes_accepted E w"
    using assms(2) by (auto simp: modes_accepted_def airspyhf_start_def set_receiver_mode_eq call_def Let_def
        split: if_splits)
  have "stream_idle ?d" by (rule stream_idle_start_fields [OF assms(1)])
  from create_io_threads_outcome [OF this, of E cb ?w]
  have "started_from ?d d'" "live w' = live ?w"
    using assms(2) unfolding start_unfold [OF m] by auto
  moreover have "stream_blocks ?d = stream_blocks d"
    by (simp add: stream_blocks_def all_buffers_def xfer_buffers_def nth_xfer_def)
  moreover have "live ?w = live w" by (simp add: live_append live_step_def mode_request_def)
  ultimately show ?thesis by (simp add: started_from_def)
qed

text \<open>
  C4 (safety). From the allocation of the transfers through a successful start, any run of
  the threads and a stop, to \<open>free_transfers\<close>: exactly the blocks that were allocated are
  released, each once, whatever buffers the threads exchanged in between.
\<close>

theorem stream_memory_balanced:
  assumes alloc: "allocate_transfers E d w = (AIRSPYHF_SUCCESS, d1, w1)"
    and idle: "length (received_samples_queue d) = 8" "length (dropped_buffers_queue d) = 8"
      "transfer_live d = 0" "\<not> streaming d" "\<not> stop_requested d"
    and start: "airspyhf_start E cb context d1 w1 = Some (AIRSPYHF_SUCCESS, d2, w2)"
    and run: "(stream_step M L)\<^sup>*\<^sup>* (stream_init d2 mem) s"
    and stop: "airspyhf_stop E (dev s) w2 = Some (r, d3, w3)" and events: "completions_ok E (dev s)"
  shows "live (snd (free_transfers d3 w3)) = live w \<and> live w1 = live w + stream_blocks d1"
proof -
  have w1: "live w1 = live w + stream_blocks d1" by (rule allocate_blocks [OF alloc idle(1)])
  have started: "started_from d1 d2" "live w2 = live w1"
    using start_outcome [OF allocate_stream_idle [OF alloc idle] start] by simp_all
  have steps: "mset (all_buffers (dev s)) = mset (all_buffers d2)" "fixed_blocks (dev s) = fixed_blocks d2"
      "xfers_ok (dev s)"
    using stream_run [OF _ run] started(1) by (simp_all add: started_from_def)
  obtain k where s: "d3 = stopped k (dev s)" "live w3 = live w2"
    using airspyhf_stop_outcome [OF steps(3) events, of w2] stop by auto
  have "stream_blocks d3 = stream_blocks d1"
    using stream_blocks_fixed [OF steps(2,1)] started(1) by (simp add: s(1) stopped_blocks started_from_def)
  moreover have "xfers_ok d3" using steps(3) by (simp add: s(1) stopped_blocks)
  ultimately show ?thesis using live_free_transfers [of d3 w3] w1 started(2) s(2) by simp
qed

section \<open>A whole life\<close>

lemma alloc_queue_succeeds: "(\<And>w n. alloc_ok E w n) \<Longrightarrow> fst (alloc_queue E is d w)"
  by (induction "is" arbitrary: d w) (simp_all add: malloc_def Let_def)

lemma alloc_xfers_succeeds: "(\<And>w n. alloc_ok E w n) \<Longrightarrow> fst (alloc_xfers E len is xs w)"
  by (induction "is" arbitrary: xs w) (simp_all add: malloc_def libusb_alloc_transfer_def Let_def)

lemma allocate_succeeds:
  assumes "\<And>w n. alloc_ok E w n" and "transfers d = None"
  shows "fst (allocate_transfers E d w) = AIRSPYHF_SUCCESS"
  using alloc_queue_succeeds [OF assms(1)] alloc_xfers_succeeds [OF assms(1)] assms
  by (simp add: allocate_transfers_def malloc_def Let_def case_prod_unfold)

lemma start_succeeds:
  assumes "stream_idle d" and "\<And>w x b. ret E w (SubmitTransfer x b) = 0" "\<And>w k. ret E w (ThreadCreate k) = 0"
    and "\<And>w m. ret E w (mode_request m) = 0"
  shows "\<exists>d' w'. airspyhf_start E cb context d w = Some (AIRSPYHF_SUCCESS, d', w')"
proof -
  have m: "modes_accepted E w" by (simp add: modes_accepted_def assms(4))
  let ?d = "d\<lparr>dropped_buffers_queue := replicate RAW_BUFFER_COUNT 0, dropped_buffers := 0,
              vec := \<lparr>re = f32 1, im = Zero False\<rparr>, ctx := context, callback := cb, streaming := True\<rparr>"
  have submits: "\<exists>d' w'. prepare_loop E ep is d w = Some (AIRSPYHF_SUCCESS, d', w')"
    if "xfers_ok d" "\<And>i. i \<in> set is \<Longrightarrow> i < transfer_count d" for ep "is" d w
    using that
  proof (induction "is" arbitrary: d w)
    case (Cons i js)
    then obtain x where x: "nth_xfer d i = Some x" using nth_xfer_ok by fastforce
    let ?d = "(set_xfer i (x\<lparr>endpoint := ep, xfer_callback := True\<rparr>) d)\<lparr>transfer_live := transfer_live d + 1\<rparr>"
    have "xfers_ok ?d" using Cons.prems(1) xfers_ok_set_xfer [of d i] by (simp add: xfers_ok_def)
    moreover have "\<And>i. i \<in> set js \<Longrightarrow> i < transfer_count ?d" using Cons.prems(2) by simp
    ultimately show ?case
      using Cons.IH [of ?d] x assms(2) by (simp add: libusb_submit_transfer_def call_def Let_def)
  qed simp
  have "xfers_ok ?d" using assms(1) by (simp add: stream_idle_def xfers_ok_def)
  moreover have "transfers ?d \<noteq> None" "\<not> streaming d" "\<not> stop_requested d"
    using assms(1) by (auto simp: stream_idle_def xfers_ok_def)
  ultimately show ?thesis
    using submits [of ?d "[0..<transfer_count d]" bulk_endpoint
        "w @ [mode_request RECEIVER_MODE_OFF, ClearHalt bulk_endpoint, mode_request RECEIVER_MODE_ON]"] assms(3)
    by (auto simp: start_unfold [OF m] create_io_threads_def prepare_transfers_def call_def Let_def)
qed

lemma demo_env_succeeds:
  "ret demo_env w (SubmitTransfer x b) = 0" "ret demo_env w (ThreadCreate k) = 0" "ret demo_env w (mode_request m) = 0"
  by (simp_all add: demo_env_def mode_request_def)

theorem start_establishes_stream_witness:
  "\<exists>d' w'. airspyhf_start demo_env 1 0 idle_device [] = Some (AIRSPYHF_SUCCESS, d', w') \<and>
     started_from idle_device d' \<and> controls w' = [mode_request RECEIVER_MODE_OFF, mode_request RECEIVER_MODE_ON]"
proof -
  have "\<exists>d' w'. airspyhf_start demo_env 1 0 idle_device [] = Some (AIRSPYHF_SUCCESS, d', w')"
    by (intro start_succeeds idle_device demo_env_succeeds)
  then show ?thesis
    using start_establishes_stream [OF idle_device, of demo_env 1 0 "[]"] by (auto simp: controls_def)
qed

definition fresh_device :: airspyhf_device where
  "fresh_device = zero_device\<lparr>transfer_count := 1, buffer_size := 4\<rparr>"

theorem stream_memory_balanced_witness:
  "\<exists>d1 w1 d2 w2 r d3 w3. allocate_transfers demo_env fresh_device [] = (AIRSPYHF_SUCCESS, d1, w1) \<and>
     airspyhf_start demo_env 1 0 d1 w1 = Some (AIRSPYHF_SUCCESS, d2, w2) \<and>
     airspyhf_stop demo_env d2 w2 = Some (r, d3, w3) \<and> live (snd (free_transfers d3 w3)) = {#}"
proof -
  obtain d1 w1 where a: "allocate_transfers demo_env fresh_device [] = (AIRSPYHF_SUCCESS, d1, w1)"
    using allocate_succeeds [of demo_env fresh_device "[]"]
    by (cases "allocate_transfers demo_env fresh_device []") (auto simp: demo_env_def fresh_device_def zero_device_def)
  have idle: "length (received_samples_queue fresh_device) = 8" "length (dropped_buffers_queue fresh_device) = 8"
    "transfer_live fresh_device = 0" "\<not> streaming fresh_device" "\<not> stop_requested fresh_device"
    by (simp_all add: fresh_device_def zero_device_def RAW_BUFFER_COUNT_def)
  have "\<exists>d2 w2. airspyhf_start demo_env 1 0 d1 w1 = Some (AIRSPYHF_SUCCESS, d2, w2)"
    by (intro start_succeeds allocate_stream_idle [OF a idle] demo_env_succeeds)
  then obtain d2 w2 where s: "airspyhf_start demo_env 1 0 d1 w1 = Some (AIRSPYHF_SUCCESS, d2, w2)"
    by blast
  have ok: "xfers_ok d2"
    using start_outcome [OF allocate_stream_idle [OF a idle] s] by (simp add: started_from_def stream_ready_def)
  have events: "completions_ok demo_env d2" by (simp add: completions_ok_def demo_env_def)
  obtain r d3 w3 where t: "airspyhf_stop demo_env d2 w2 = Some (r, d3, w3)"
    using airspyhf_stop_outcome [OF ok events, of w2] by blast
  have "dev (stream_init d2 (\<lambda>_. [])) = d2" by (simp add: stream_init_def)
  then have "live (snd (free_transfers d3 w3)) = live []"
    using stream_memory_balanced [OF a idle s rtranclp.rtrancl_refl, of "\<lambda>_. []" r d3 w3] t events by simp
  then show ?thesis using a s t by auto
qed

end
