(* ===== verification/Open_Properties.thy ===== *)
theory Open_Properties
  imports Open_Close Lifecycle
begin

text \<open>
  Properties of opening, listing and closing devices: the serial numbers a listing reports
  can be opened, and every handle, list, context and block is released exactly once.
\<close>

section \<open>Resources of the calls\<close>

text \<open>The resource at an address: nothing for the null pointer.\<close>

definition res :: "ptr \<Rightarrow> ptr multiset" where
  "res p = (if p = NULL then {#} else {#p#})"

lemma res_simps [simp]: "res NULL = {#}" "p \<noteq> NULL \<Longrightarrow> res p = {#p#}" "res (Suc n) = {#Suc n#}"
  by (simp_all add: res_def)

lemma live_creating [call_simps]:
  "live (w @ [Malloc n p]) = live w + res p" "live (w @ [LibInit p]) = live w + res p"
  "live (w @ [GetDeviceList p]) = live w + res p" "live (w @ [OpenDevice i p]) = live w + res p"
  by (simp_all add: live_snoc live_step_def)

lemma live_releasing [call_simps]:
  "live (w @ [Free p]) = live w - {#p#}" "live (w @ [LibExit p]) = live w - {#p#}"
  "live (w @ [FreeDeviceList p]) = live w - {#p#}" "live (w @ [CloseDevice p]) = live w - {#p#}"
  by (simp_all add: live_snoc live_step_def)

lemma live_neutral [call_simps]:
  "live (w @ [SetConfiguration p]) = live w" "live (w @ [ClaimInterface p]) = live w"
  "live (w @ [SetAltSetting p]) = live w" "live (w @ [GetString p i]) = live w"
  "live (w @ [ReleaseInterface p]) = live w"
  by (simp_all add: live_snoc live_step_def)

lemma live_malloc_res: "malloc E n w = (p, w') \<Longrightarrow> live w' = live w + res p"
  by (auto simp: malloc_def Let_def call_simps)

lemma append_assoc_snoc: "w @ c # d # cs = (w @ [c]) @ d # cs"
  by simp

section \<open>Opening\<close>

lemma setup_handle_live:
  "setup_handle E h w = (ok, w') \<Longrightarrow> live w' = (if ok then live w else live w - {#h#})"
  by (auto simp: setup_handle_def call_def call_simps Let_def live_append live_step_def split: if_splits)

lemma libusb_open_cases:
  assumes "libusb_open E i w = (r, h, w')"
  shows "h = (if r = 0 then Suc (length w) else NULL) \<and> r = ret E w (OpenDevice i NULL) \<and> w' = w @ [OpenDevice i h]"
  using assms by (auto simp: libusb_open_def create_call_def Let_def)

lemma try_device_live:
  assumes "try_device E vid pid sn i dv w = (h, w')"
  shows "live w' = live w + res h"
  using assms
  by (auto simp: try_device_def libusb_open_def create_call_def libusb_get_string_descriptor_ascii_def
      Let_def call_simps live_append live_step_def split: if_splits option.splits prod.splits
      dest!: setup_handle_live)

lemma open_loop_live: "open_loop E vid pid sn i ds w = (h, w') \<Longrightarrow> live w' = live w + res h"
  by (induction ds arbitrary: i w)
     (auto simp: Let_def split: prod.splits if_splits dest!: try_device_live)

lemma open_device_live:
  assumes "airspyhf_open_device E vid pid sn d w = (r, d', w')"
  shows "live w' = live w + res (usb_device d') \<and> (r = AIRSPYHF_SUCCESS \<longleftrightarrow> usb_device d' \<noteq> NULL) \<and>
         (r = AIRSPYHF_SUCCESS \<or> r = AIRSPYHF_ERROR) \<and> d' = d\<lparr>usb_device := usb_device d'\<rparr>"
  using assms
  by (auto simp: airspyhf_open_device_def libusb_get_device_list_def create_call_def Let_def call_simps
      split: if_splits prod.splits dest!: open_loop_live)

section \<open>Listing\<close>

lemma list_device_live: "list_device E i dv w = (s, w') \<Longrightarrow> live w' = live w"
  by (auto simp: list_device_def libusb_open_def create_call_def libusb_get_string_descriptor_ascii_def
      Let_def live_append live_step_def split: if_splits)

lemma list_loop_live: "list_loop E limit i ds out w = (out', w') \<Longrightarrow> live w' = live w"
  by (induction ds arbitrary: i out w)
     (auto simp: Let_def split: if_splits prod.splits dest!: list_device_live)

lemma list_loop_length:
  "list_loop E (Some c) i ds out w = (out', w') \<Longrightarrow> int (length out) \<le> c \<Longrightarrow> int (length out') \<le> c"
proof (induction ds arbitrary: i out w)
  case (Cons dv ds)
  show ?case
  proof (cases "int (length out) < c")
    case True
    obtain s w1 where "list_device E i dv w = (s, w1)" by force
    with Cons True show ?thesis by (auto split: option.splits)
  qed (use Cons in auto)
qed auto

lemma list_devices_owns:
  assumes "airspyhf_list_devices E (Some c) w = Some (r, serials, w')"
  shows "length serials = nat c \<and> r \<le> c \<and>
         (live w' = live w \<or> r = AIRSPYHF_ERROR \<and> (\<exists>context. live w' = add_mset context (live w)))"
proof -
  have c: "0 \<le> c" using assms by (auto simp: airspyhf_list_devices_def split: if_splits)
  show ?thesis
  proof (cases "ret E w (LibInit NULL) = 0")
    case False
    with assms c show ?thesis
      by (auto simp: airspyhf_list_devices_def libusb_init_def create_call_def Let_def call_simps status_codes)
  next
    case True
    let ?w = "w @ [LibInit (Suc (length w))]"
    show ?thesis
    proof (cases "ret E ?w (GetDeviceList NULL) < 0")
      case True
      with assms c \<open>ret E w (LibInit NULL) = 0\<close> show ?thesis
        by (auto simp: airspyhf_list_devices_def libusb_init_def libusb_get_device_list_def create_call_def
            Let_def live_append live_step_def status_codes)
    next
      case False
      let ?l = "Suc (length ?w)"
      obtain out w1 where loop: "list_loop E (Some c) 0 (bus E ?w) [] (?w @ [GetDeviceList ?l]) = (out, w1)"
        by force
      note len = list_loop_length [OF loop] and lv = list_loop_live [OF loop]
      have "r = int (length out)" "serials = blit out (replicate (nat c) 0)"
        "w' = w1 @ [FreeDeviceList ?l, LibExit (Suc (length w))]"
        using assms c \<open>ret E w (LibInit NULL) = 0\<close> False loop
        by (auto simp: airspyhf_list_devices_def libusb_init_def libusb_get_device_list_def create_call_def Let_def)
      moreover have "length out \<le> nat c" using len c by simp
      ultimately show ?thesis
        using len c lv by (auto simp: length_blit live_append live_step_def)
    qed
  qed
qed

text \<open>
  C29 (bounds). \<open>airspyhf_list_devices\<close> is defined for every non-negative array size, writes
  no more entries than the array has, and gives back every handle, list and context it
  obtained, except that it keeps the context when the device list cannot be read.
\<close>

theorem list_devices_resources:
  assumes "airspyhf_list_devices E (Some c) w = Some (r, serials, w')"
  shows "length serials = nat c \<and> r \<le> c \<and>
         (live w' = live w \<or> r = AIRSPYHF_ERROR \<and> (\<exists>context. live w' = add_mset context (live w)))"
  using assms by (rule list_devices_owns)

section \<open>A listed serial number can be opened\<close>

text \<open>
  A bus that does not change and whose devices can be opened and set up; \<open>S i\<close> is the answer
  of device \<open>i\<close> to the request for its serial number.
\<close>

definition steady_bus :: "env \<Rightarrow> usb_dev list \<Rightarrow> (nat \<Rightarrow> int \<times> u8 list) \<Rightarrow> bool" where
  "steady_bus E devices S \<longleftrightarrow>
     (\<forall>w. bus E w = devices \<and> ret E w (LibInit NULL) = 0 \<and> 0 \<le> ret E w (GetDeviceList NULL)) \<and>
     (\<forall>w i. ret E w (OpenDevice i NULL) = 0) \<and>
     (\<forall>w h. ret E w (SetConfiguration h) = 0 \<and> ret E w (ClaimInterface h) = 0 \<and> ret E w (SetAltSetting h) = 0) \<and>
     (\<forall>w i h k. i < length devices \<longrightarrow>
        libusb_get_string_descriptor_ascii E h k (AIRSPYHF_SERIAL_SIZE + 1) (w @ [OpenDevice i h]) =
          (fst (S i), snd (S i), w @ [OpenDevice i h, GetString h k]))"

text \<open>The serial number of device \<open>i\<close>, as a listing reports it.\<close>

definition device_serial :: "(nat \<Rightarrow> int \<times> u8 list) \<Rightarrow> nat \<Rightarrow> usb_dev \<Rightarrow> u64 option" where
  "device_serial S i dv =
     (if airspy_match airspyhf_usb_vid airspyhf_usb_pid dv \<and> 0 < iSerialNumber dv then
        (case serial_text (fst (S i)) (snd (S i)) of
           None \<Rightarrow> None
         | Some t \<Rightarrow> if fst (strtoull 16 t) = 0 \<and> snd (strtoull 16 t) = t then None
                     else Some (fst (strtoull 16 t)))
      else None)"

lemma list_device_steady:
  assumes "steady_bus E devices S" and "i < length devices"
  shows "fst (list_device E i dv w) = device_serial S i dv"
  using assms
  by (auto simp: list_device_def device_serial_def steady_bus_def libusb_open_def create_call_def Let_def
      case_prod_unfold split: option.splits)

lemma list_loop_steady:
  assumes "steady_bus E devices S" and "i + length ds \<le> length devices"
    and "\<And>k. k < length ds \<Longrightarrow> ds ! k = devices ! (i + k)" and "x \<in> set (fst (list_loop E limit i ds out w))"
  shows "x \<in> set out \<or> (\<exists>k < length devices. device_serial S k (devices ! k) = Some x)"
  using assms(2-)
proof (induction ds arbitrary: i out w)
  case Nil
  then show ?case by simp
next
  case (Cons dv ds)
  obtain s w1 where l: "list_device E i dv w = (s, w1)" by force
  then have s: "s = device_serial S i (devices ! i)"
    using list_device_steady [OF assms(1), of i dv w] Cons.prems(1) Cons.prems(2) [of 0] by simp
  have ds: "\<And>k. k < length ds \<Longrightarrow> ds ! k = devices ! (Suc i + k)" using Cons.prems(2) [of "Suc k" for k] by simp
  consider "x \<in> set out" | "x \<in> set (fst (list_loop E limit (Suc i) ds (case s of None \<Rightarrow> out | Some y \<Rightarrow> out @ [y]) w1))"
    using Cons.prems(3) l by (auto split: if_splits)
  then show ?case
  proof cases
    case 2
    from Cons.IH [OF _ ds 2] Cons.prems(1) show ?thesis using s by (auto split: option.splits)
  qed simp
qed

lemma setup_handle_steady:
  assumes "steady_bus E devices S"
  shows "setup_handle E h w = (True, w @ [SetConfiguration h, ClaimInterface h, SetAltSetting h])"
  using assms by (simp add: setup_handle_def steady_bus_def call_def Let_def)

lemma try_device_steady:
  assumes "steady_bus E devices S" and "i < length devices" and "sn \<noteq> 0"
    and "try_device E airspyhf_usb_vid airspyhf_usb_pid sn i dv w = (h, w')"
  shows "(h \<noteq> NULL \<longleftrightarrow> device_serial S i dv = Some sn) \<and> (h \<noteq> NULL \<longrightarrow> OpenDevice i h \<in> set w')"
  using assms
  by (auto simp: try_device_def device_serial_def SERIAL_NUMBER_UNUSED_def libusb_open_def create_call_def Let_def
      setup_handle_steady [OF assms(1)] steady_bus_def split: if_splits option.splits)

lemma open_loop_steady:
  assumes "steady_bus E devices S" and "i + length ds \<le> length devices" and "sn \<noteq> 0"
    and "\<And>k. k < length ds \<Longrightarrow> ds ! k = devices ! (i + k)"
    and "\<exists>k < length ds. device_serial S (i + k) (ds ! k) = Some sn"
    and "open_loop E airspyhf_usb_vid airspyhf_usb_pid sn i ds w = (h, w')"
  shows "h \<noteq> NULL \<and> (\<exists>k < length devices. device_serial S k (devices ! k) = Some sn \<and> OpenDevice k h \<in> set w')"
  using assms(2-)
proof (induction ds arbitrary: i w)
  case Nil
  then show ?case by simp
next
  case (Cons dv ds)
  obtain g w1 where t: "try_device E airspyhf_usb_vid airspyhf_usb_pid sn i dv w = (g, w1)" by force
  have i: "i < length devices" "dv = devices ! i" using Cons.prems(1) Cons.prems(3) [of 0] by simp_all
  note tried = try_device_steady [OF assms(1) i(1) assms(3) t]
  show ?case
  proof (cases "g = NULL")
    case True
    with tried have "device_serial S i dv \<noteq> Some sn" by simp
    then have "\<exists>k < length ds. device_serial S (Suc i + k) (ds ! k) = Some sn"
      using Cons.prems(4) by (auto simp: less_Suc_eq_0_disj)
    then show ?thesis
      using Cons.IH [of "Suc i" w1] Cons.prems(1,2,5) Cons.prems(3) [of "Suc k" for k] t True by simp
  next
    case False
    with tried t Cons.prems(5) i show ?thesis by auto
  qed
qed

text \<open>
  C27 (functional). A serial number that \<open>airspyhf_list_devices\<close> reported, other than 0, can
  be passed to \<open>airspyhf_open_sn\<close>: on an unchanged bus the search opens a device whose own
  serial number is that one.
\<close>

theorem listed_serial_opens:
  assumes steady: "steady_bus E devices S"
    and listed: "airspyhf_list_devices E (Some c) w = Some (r, serials, w1)" and k: "k < nat r"
    and sn: "serials ! k \<noteq> 0"
  shows "\<exists>d' w' i. airspyhf_open_device E airspyhf_usb_vid airspyhf_usb_pid (serials ! k) d w2 = (AIRSPYHF_SUCCESS, d', w') \<and>
           i < length devices \<and> device_serial S i (devices ! i) = Some (serials ! k) \<and>
           OpenDevice i (usb_device d') \<in> set w'"
proof -
  define v where "v = w @ [LibInit (Suc (length w)), GetDeviceList (Suc (Suc (length w)))]"
  obtain out w3 where loop: "list_loop E (Some c) 0 devices [] v = (out, w3)" by force
  have bus: "ret E u (LibInit NULL) = 0" "(ret E u (GetDeviceList NULL) < 0) = False" "bus E u = devices"
    "(0 \<le> ret E u (GetDeviceList NULL)) = True" for u
    using steady by (simp_all add: steady_bus_def not_less)
  have "r = int (length out) \<and> serials = blit out (replicate (nat c) 0)"
    using listed loop
    by (auto simp: airspyhf_list_devices_def libusb_init_def libusb_get_device_list_def create_call_def
        Let_def bus v_def split: if_splits)
  then have "serials ! k \<in> set (fst (list_loop E (Some c) 0 devices [] v))"
    using k loop by (simp add: blit_def nth_append)
  then have "\<exists>i < length devices. device_serial S i (devices ! i) = Some (serials ! k)"
    using list_loop_steady [OF steady, of 0 devices "serials ! k" "Some c" "[]" v] by auto
  moreover obtain h w' where o: "open_loop E airspyhf_usb_vid airspyhf_usb_pid (serials ! k) 0 devices
      (w2 @ [GetDeviceList (Suc (length w2))]) = (h, w')"
    by force
  ultimately have h: "h \<noteq> NULL" "\<exists>i < length devices. device_serial S i (devices ! i) = Some (serials ! k) \<and> OpenDevice i h \<in> set w'"
    using open_loop_steady [OF steady, of 0 devices] sn by simp_all
  have "airspyhf_open_device E airspyhf_usb_vid airspyhf_usb_pid (serials ! k) d w2 =
      (AIRSPYHF_SUCCESS, d\<lparr>usb_device := h\<rparr>, w' @ [FreeDeviceList (Suc (length w2))])"
    using o h(1) by (simp add: airspyhf_open_device_def libusb_get_device_list_def create_call_def Let_def bus)
  with h(2) show ?thesis by auto
qed

lemma serial_text_value:
  assumes "v < 2 ^ 64"
  shows "\<exists>t. serial_text 28 (str_prefix_serial_airspyhf @ hex_digits 16 v @ [x]) = Some t \<and>
           strtoull 16 t = (of_nat v, [0])"
  using strtoull_hex_digits [OF assms, of "[]"]
  by (simp add: serial_text_def AIRSPYHF_SERIAL_SIZE_def STR_PREFIX_SERIAL_AIRSPYHF_SIZE_def
      length_serial_prefix [unfolded STR_PREFIX_SERIAL_AIRSPYHF_SIZE_def] list_update_append)

text \<open>
  C33 (roundtrip). The string descriptor that carries a serial number as sixteen hexadecimal
  digits is recognised, and the number read from it is that serial number.
\<close>

theorem serial_roundtrip:
  assumes "v < 2 ^ 64"
  shows "\<exists>t. serial_text 28 (str_prefix_serial_airspyhf @ hex_digits 16 v @ [x]) = Some t \<and>
           strtoull 16 t = (of_nat v, [0])"
  using assms by (rule serial_text_value)

theorem serial_roundtrip_witness:
  "\<exists>t. serial_text 28 (str_prefix_serial_airspyhf @ hex_digits 16 0xDD52D95C904F3A2B @ [0]) = Some t \<and>
     strtoull 16 t = (0xDD52D95C904F3A2B, [0])"
  using serial_roundtrip [of "0xDD52D95C904F3A2B" 0] by simp

text \<open>One receiver on the bus.\<close>

definition demo_serial :: nat where
  "demo_serial = 0xDD52D95C904F3A2B"

definition demo_string :: "u8 list" where
  "demo_string = str_prefix_serial_airspyhf @ hex_digits 16 demo_serial @ [0]"

definition demo_receiver :: usb_dev where
  "demo_receiver = \<lparr>idVendor = airspyhf_usb_vid, idProduct = airspyhf_usb_pid, iSerialNumber = 3\<rparr>"

definition bus_env :: env where
  "bus_env = demo_env\<lparr>ret := (\<lambda>_ c. case c of GetString _ _ \<Rightarrow> 28 | CtrlOut _ _ _ bs \<Rightarrow> int (length bs)
       | CtrlIn q _ _ _ \<Rightarrow> if q = AIRSPYHF_GET_SERIALNO_BOARDID then 20 else 0 | _ \<Rightarrow> 0),
     reply := (\<lambda>_ c. case c of GetString _ _ \<Rightarrow> demo_string | _ \<Rightarrow> []), bus := (\<lambda>_. [demo_receiver])\<rparr>"

lemma length_demo_string: "length demo_string = 29"
  by (simp add: demo_string_def STR_PREFIX_SERIAL_AIRSPYHF_SIZE_def)

lemma demo_bus: "steady_bus bus_env [demo_receiver] (\<lambda>_. (28, demo_string))"
  by (simp add: steady_bus_def bus_env_def libusb_get_string_descriptor_ascii_def blit_def length_demo_string
      AIRSPYHF_SERIAL_SIZE_def)

lemma demo_list:
  assumes "case limit of None \<Rightarrow> True | Some c \<Rightarrow> 0 < c"
  shows "\<exists>w1. airspyhf_list_devices bus_env limit w =
           Some (1, case limit of None \<Rightarrow> [] | Some c \<Rightarrow> blit [of_nat demo_serial] (replicate (nat c) 0), w1)"
proof -
  obtain t where t: "serial_text 28 demo_string = Some t" "strtoull 16 t = (of_nat demo_serial, [0])"
    using serial_text_value [of demo_serial 0] by (auto simp: demo_string_def demo_serial_def)
  then have "device_serial (\<lambda>_. (28, demo_string)) 0 demo_receiver = Some (of_nat demo_serial)"
    by (simp add: device_serial_def demo_receiver_def airspy_match_def demo_serial_def)
  then have l: "fst (list_device bus_env 0 demo_receiver w) = Some (of_nat demo_serial)" for w
    using list_device_steady [OF demo_bus, of 0 demo_receiver w] by simp
  have "\<exists>w1. list_loop bus_env limit 0 [demo_receiver] [] w = ([of_nat demo_serial], w1)" for w
    using l [of w] assms by (cases "list_device bus_env 0 demo_receiver w") (simp split: option.splits)
  then obtain f where "list_loop bus_env limit 0 [demo_receiver] [] w = ([of_nat demo_serial], f w)" for w
    by metis
  moreover have "ret bus_env u (LibInit NULL) = 0" "ret bus_env u (GetDeviceList NULL) = 0" "bus bus_env u = [demo_receiver]" for u
    by (simp_all add: bus_env_def)
  ultimately show ?thesis
    using assms
    by (simp add: airspyhf_list_devices_def libusb_init_def libusb_get_device_list_def create_call_def Let_def
        split: option.splits del: list_loop.simps)
qed

lemma demo_listing: "\<exists>w1. airspyhf_list_devices bus_env (Some 4) [] = Some (1, [of_nat demo_serial, 0, 0, 0], w1)"
  using demo_list [of "Some 4" "[]"] by (simp add: blit_def numeral_eq_Suc)

theorem list_devices_resources_witness:
  "\<exists>serials w1. airspyhf_list_devices bus_env (Some 4) [] = Some (1, serials, w1) \<and> length serials = 4 \<and> live w1 = {#}"
proof -
  obtain w1 where l: "airspyhf_list_devices bus_env (Some 4) [] = Some (1, [of_nat demo_serial, 0, 0, 0], w1)"
    using demo_listing by blast
  then show ?thesis using list_devices_resources [OF l] by (simp add: status_codes)
qed

theorem listed_serial_opens_witness:
  "\<exists>d' w'. airspyhf_open_device bus_env airspyhf_usb_vid airspyhf_usb_pid (of_nat demo_serial) zero_device [] =
     (AIRSPYHF_SUCCESS, d', w')"
proof -
  obtain w1 where l: "airspyhf_list_devices bus_env (Some 4) [] = Some (1, [of_nat demo_serial, 0, 0, 0], w1)"
    using demo_listing by blast
  have k: "(0 :: nat) < nat 1" "[of_nat demo_serial, 0, 0, 0] ! 0 \<noteq> (0 :: u64)" by (simp_all add: demo_serial_def)
  from listed_serial_opens [OF demo_bus l k, of zero_device "[]"] show ?thesis by auto
qed

section \<open>The resources of an open device\<close>

text \<open>The fields the tables leave alone.\<close>

definition open_view where
  "open_view d = (stream_view d, usb_device d, usb_context d)"

lemma fw_read_live:
  "fw_read E req len n p area w = Some (r, area', w') \<Longrightarrow>
     live w' = live w \<and> length area' = length area \<and> (r = AIRSPYHF_SUCCESS \<or> r = AIRSPYHF_ERROR)"
  by (auto simp: fw_read_def control_out_eq length_blit split: if_splits)

lemma malloc_bytes_live:
  "malloc_bytes E n w = (p, area, w') \<Longrightarrow> live w' = live w + res p"
  by (auto simp: malloc_bytes_def Let_def dest!: live_malloc_res split: prod.splits)

lemma read_architectures_live:
  assumes "read_architectures E d w = Some (d', w')"
  shows "live w' = live w + res (samplerate_architectures_ptr d') \<and>
         d' = d\<lparr>samplerate_architectures_ptr := samplerate_architectures_ptr d',
                samplerate_architectures := samplerate_architectures d'\<rparr>"
  using assms
  by (auto simp: read_architectures_def airspyhf_read_samplerate_architectures_from_fw_def Let_def
      split: prod.splits bind_splits if_splits dest!: fw_read_live malloc_bytes_live)

lemma default_rates_live:
  assumes "default_rates E d w = Some (d', w')"
  shows "live w' = live w + res (supported_samplerates_ptr d') + res (samplerate_architectures_ptr d') \<and>
         open_view d' = open_view d \<and> supported_att_steps_ptr d' = supported_att_steps_ptr d \<and>
         supported_samplerates_ptr d' \<noteq> NULL"
  using assms
  by (auto simp: default_rates_def open_view_def stream_view_def Let_def split: prod.splits if_splits
      dest!: live_malloc_res)

text \<open>A table the firmware does not deliver is freed again.\<close>

lemma refused_table_live:
  assumes "malloc_bytes E n w = (p, a, w1)" and "fw_read E req len k p a w1 = Some (r, a', w2)"
  shows "live (w2 @ [Free p]) = live w"
  using malloc_bytes_live [OF assms(1)] fw_read_live [OF assms(2)] NULL_not_live [of w]
  by (cases "p = NULL") (simp_all add: call_simps diff_single_trivial)

lemma default_att_steps_live:
  assumes "default_att_steps E d w = Some (d', w')"
  shows "live w' = live w + res (supported_att_steps_ptr d') \<and> open_view d' = open_view d \<and>
         supported_samplerates_ptr d' = supported_samplerates_ptr d \<and>
         samplerate_architectures_ptr d' = samplerate_architectures_ptr d"
  using assms
  by (auto simp: default_att_steps_def open_view_def stream_view_def Let_def split: prod.splits if_splits
      dest!: live_malloc_res)

text \<open>How a run of \<open>read_samplerates\<close> ends.\<close>

lemma read_samplerates_cases:
  assumes "read_samplerates E lib d w = Some (d', w')"
  obtains area e x y w1 p a w2 where
    "live w1 = live w" "malloc_bytes E (unat (u32_of_bytes area) * 4) w1 = (p, a, w2)"
    "d' = e\<lparr>current_samplerate := x, is_low_if := y\<rparr>" "supported_samplerates e \<noteq> []"
    "default_rates E (d\<lparr>supported_samplerate_count := u32_of_bytes area\<rparr>) w1 = Some (e, w') \<or>
     (\<exists>n k r2 a2 w3. fw_read E AIRSPYHF_GET_SAMPLERATES n k p a w2 = Some (r2, a2, w3) \<and>
        (default_rates E (d\<lparr>supported_samplerate_count := u32_of_bytes area\<rparr>) (w3 @ [Free p]) = Some (e, w') \<or>
         read_architectures E (set_rates p a2 (d\<lparr>supported_samplerate_count := u32_of_bytes area\<rparr>)) w3 = Some (e, w')))"
proof -
  obtain r area w1 where r: "fw_read E AIRSPYHF_GET_SAMPLERATES 0 (fw_length 0) lib
      (bytes_of_u32 (supported_samplerate_count d)) w = Some (r, area, w1)"
    using assms by (auto simp: read_samplerates_def airspyhf_read_samplerates_from_fw_def split: bind_splits)
  obtain p a w2 where m: "malloc_bytes E (unat (u32_of_bytes area) * 4) w1 = (p, a, w2)" by (metis prod_cases3)
  show thesis
    using assms r m fw_read_live [OF r] that [OF _ m]
    by (simp add: read_samplerates_def airspyhf_read_samplerates_from_fw_def Let_def rd_def
        split: bind_splits if_splits prod.splits) blast+
qed

lemma read_samplerates_live:
  assumes "read_samplerates E lib d w = Some (d', w')"
  shows "live w' = live w + res (supported_samplerates_ptr d') + res (samplerate_architectures_ptr d') \<and>
         open_view d' = open_view d \<and> supported_att_steps_ptr d' = supported_att_steps_ptr d \<and>
         supported_samplerates_ptr d' \<noteq> NULL"
  using assms
proof (cases rule: read_samplerates_cases)
  case (1 area e x y w1 p a w2)
  let ?d = "d\<lparr>supported_samplerate_count := u32_of_bytes area\<rparr>"
  have v: "open_view ?d = open_view d" "open_view (e\<lparr>current_samplerate := x, is_low_if := y\<rparr>) = open_view e"
    by (simp_all add: open_view_def stream_view_def)
  have default: ?thesis if "default_rates E ?d v = Some (e, w')" "live v = live w" for v
    using default_rates_live [OF that(1)] that(2) v by (simp add: 1(3))
  from 1(5) show ?thesis
  proof (elim disjE exE conjE)
    assume "default_rates E ?d w1 = Some (e, w')"
    then show ?thesis by (rule default [OF _ 1(1)])
  next
    fix n k r2 a2 w3
    assume f: "fw_read E AIRSPYHF_GET_SAMPLERATES n k p a w2 = Some (r2, a2, w3)"
      and "default_rates E ?d (w3 @ [Free p]) = Some (e, w')"
    from default [OF this(2)] show ?thesis using refused_table_live [OF 1(2) f] 1(1) by simp
  next
    fix n k r2 a2 w3
    assume f: "fw_read E AIRSPYHF_GET_SAMPLERATES n k p a w2 = Some (r2, a2, w3)"
      and ra: "read_architectures E (set_rates p a2 ?d) w3 = Some (e, w')"
    obtain q zs where q: "e = (set_rates p a2 ?d)\<lparr>samplerate_architectures_ptr := q, samplerate_architectures := zs\<rparr>"
      using read_architectures_live [OF ra] by blast
    then have "open_view e = open_view d" "supported_att_steps_ptr e = supported_att_steps_ptr d"
      "supported_samplerates_ptr e = p" "supported_samplerates_ptr e \<noteq> NULL"
      using 1(4) by (auto simp: open_view_def set_rates_def stream_view_def split: if_splits)
    then show ?thesis
      using read_architectures_live [OF ra] fw_read_live [OF f] malloc_bytes_live [OF 1(2)] 1(1) v by (simp add: 1(3))
  qed
qed

lemma read_att_steps_live:
  assumes "read_att_steps E lib d w = Some (d', w')"
  shows "live w' = live w + res (supported_att_steps_ptr d') \<and> open_view d' = open_view d \<and>
         supported_samplerates_ptr d' = supported_samplerates_ptr d \<and>
         samplerate_architectures_ptr d' = samplerate_architectures_ptr d"
proof -
  have v: "open_view (d\<lparr>supported_att_step_count := n\<rparr>) = open_view d"
    "open_view (d\<lparr>supported_att_step_count := n, supported_att_steps_ptr := p, supported_att_steps := xs\<rparr>) = open_view d" for n p xs
    by (simp_all add: open_view_def stream_view_def)
  obtain r area w1 where r: "fw_read E AIRSPYHF_GET_ATT_STEPS 0 (fw_length 0) lib
      (bytes_of_u32 (supported_att_step_count d)) w = Some (r, area, w1)"
    using assms by (auto simp: read_att_steps_def airspyhf_read_att_steps_from_fw_def split: bind_splits)
  let ?d = "d\<lparr>supported_att_step_count := u32_of_bytes area\<rparr>"
  note r1 = fw_read_live [OF r]
  show ?thesis
  proof (cases "r = AIRSPYHF_SUCCESS")
    case False
    then have "default_att_steps E ?d w1 = Some (d', w')"
      using assms r by (simp add: read_att_steps_def airspyhf_read_att_steps_from_fw_def)
    from default_att_steps_live [OF this] show ?thesis using r1 v by simp
  next
    case True
    obtain p a w2 where m: "malloc_bytes E (unat (u32_of_bytes area) * 4) w1 = (p, a, w2)" by (metis prod_cases3)
    obtain r2 a2 w3 where r2: "fw_read E AIRSPYHF_GET_ATT_STEPS (u32_of_bytes area) (fw_length (u32_of_bytes area)) p a w2 = Some (r2, a2, w3)"
      using assms r m True
      by (auto simp: read_att_steps_def airspyhf_read_att_steps_from_fw_def Let_def split: bind_splits)
    note m1 = malloc_bytes_live [OF m] and r3 = fw_read_live [OF r2]
    show ?thesis
    proof (cases "r2 = AIRSPYHF_SUCCESS")
      case False
      then have "default_att_steps E ?d (w3 @ [Free p]) = Some (d', w')"
        using assms r m r2 True by (simp add: read_att_steps_def airspyhf_read_att_steps_from_fw_def Let_def)
      from default_att_steps_live [OF this] show ?thesis using refused_table_live [OF m r2] r1 v by simp
    next
      case True
      with assms r m r2 \<open>r = AIRSPYHF_SUCCESS\<close> obtain xs where
        "d' = ?d\<lparr>supported_att_steps_ptr := p, supported_att_steps := xs\<rparr>" "w' = w3"
        by (auto simp: read_att_steps_def airspyhf_read_att_steps_from_fw_def Let_def)
      then show ?thesis using r1 m1 r3 v by simp
    qed
  qed
qed

text \<open>The blocks of a balancer, and everything an open device owns.\<close>

definition iq_blocks :: "iq_ptrs \<Rightarrow> ptr multiset" where
  "iq_blocks q = res (iq_ptr q) + res (corr_ptr q) + res (corr_plus_ptr q) + res (working_buffer_ptr q) +
     res (boost_ptr q) + res (power_flag_ptr q)"

lemma iq_create_live:
  assumes "iq_balancer_create M J E L ph am w = Some (q, b, L', w')"
  shows "live w' = live w + iq_blocks q"
  using assms
  by (auto simp: iq_balancer_create_def iq_blocks_def Let_def dest!: live_malloc_res split: prod.splits if_splits)

definition device_blocks :: "ptr \<Rightarrow> airspyhf_device \<Rightarrow> ptr multiset" where
  "device_blocks lib d = res lib + res (usb_context d) + res (usb_device d) +
     res (supported_samplerates_ptr d) + res (samplerate_architectures_ptr d) +
     res (supported_att_steps_ptr d) + iq_blocks (iq_balancer_ptrs d) + stream_blocks d"

lemma read_calibration_frame:
  assumes "read_calibration E d w = (d', w')"
  shows "live w' = live w \<and> open_view d' = open_view d \<and>
         supported_samplerates_ptr d' = supported_samplerates_ptr d \<and>
         samplerate_architectures_ptr d' = samplerate_architectures_ptr d \<and>
         supported_att_steps_ptr d' = supported_att_steps_ptr d"
  using assms
  by (auto simp: read_calibration_def airspyhf_config_read_def airspyhf_set_vctcxo_calibration_def
      airspyhf_set_frontend_options_def control_out_eq open_view_def stream_view_def live_append live_step_def
      split: if_splits)

lemma stream_blocks_view: "stream_view d' = stream_view d \<Longrightarrow> stream_blocks d' = stream_blocks d"
proof -
  assume v: "stream_view d' = stream_view d"
  then have "all_buffers d' = all_buffers d"
    by (simp add: stream_view_eq_iff all_buffers_def xfer_buffers_def nth_xfer_def)
  with v show ?thesis by (simp add: stream_blocks_def stream_view_eq_iff)
qed

lemma stream_idle_view: "stream_view d' = stream_view d \<Longrightarrow> stream_idle d' = stream_idle d"
proof -
  assume v: "stream_view d' = stream_view d"
  then have "all_buffers d' = all_buffers d" "xfers_ok d' = xfers_ok d"
    by (simp_all add: stream_view_eq_iff all_buffers_def xfer_buffers_def nth_xfer_def xfers_ok_def)
  with v show ?thesis by (simp add: stream_idle_def stream_view_eq_iff)
qed

lemma alloc_queue_mono:
  "alloc_queue E is d w = (ok, d', w') \<Longrightarrow>
     live w \<subseteq># live w' \<and> usb_device d' = usb_device d \<and> usb_context d' = usb_context d"
proof (induction "is" arbitrary: d w)
  case (Cons i js)
  obtain p w1 where m: "malloc E (buffer_size d) w = (p, w1)" by force
  then have "live w \<subseteq># live w1" using live_malloc_res [OF m] by simp
  moreover have "live w1 \<subseteq># live w' \<and> usb_device d' = usb_device d \<and> usb_context d' = usb_context d"
  proof (cases "p = NULL")
    case False
    with Cons.IH [of "d\<lparr>received_samples_queue := (received_samples_queue d)[i := p]\<rparr>" w1] Cons.prems m
    show ?thesis by simp
  qed (use Cons.prems m in auto)
  ultimately show ?case by auto
qed simp

lemma alloc_xfers_mono: "alloc_xfers E len is xs w = (ok, xs', w') \<Longrightarrow> live w \<subseteq># live w'"
proof (induction "is" arbitrary: xs w)
  case (Cons i js)
  obtain x w1 where x: "libusb_alloc_transfer E w = (x, w1)" by force
  have l1: "live w \<subseteq># live w1"
    using x by (auto simp: libusb_alloc_transfer_def Let_def live_snoc live_step_def)
  obtain b w2 where b: "malloc E len w1 = (b, w2)" by force
  have l2: "live w1 \<subseteq># live w2" using live_malloc_res [OF b] by simp
  consider "x = NULL" | "x \<noteq> NULL" "b = NULL" | "x \<noteq> NULL" "b \<noteq> NULL" by blast
  then show ?case
  proof cases
    case 3
    with Cons x b have "live w2 \<subseteq># live w'" by (simp add: Let_def)
    with l1 l2 show ?thesis by (meson subset_mset.order_trans)
  qed (use Cons.prems x b l1 l2 in \<open>auto simp: Let_def intro: subset_mset.order_trans\<close>)
qed simp

lemma allocate_transfers_mono:
  assumes "allocate_transfers E d w = (r, d', w')"
  shows "live w \<subseteq># live w' \<and> usb_device d' = usb_device d \<and> usb_context d' = usb_context d \<and>
         (r = AIRSPYHF_SUCCESS \<or> r = AIRSPYHF_ERROR)"
proof (cases "transfers d")
  case (Some xs)
  with assms show ?thesis by (simp add: allocate_transfers_def)
next
  case None
  obtain out w1 where m: "malloc E ((buffer_size d div sizeof_complex_int16) * sizeof_complex_float) w = (out, w1)" by force
  let ?d = "d\<lparr>output_buffer := out\<rparr>"
  obtain ok d2 w2 where q: "alloc_queue E [0..<RAW_BUFFER_COUNT] ?d w1 = (ok, d2, w2)" by (metis prod_cases3)
  obtain p w3 where t: "malloc E (transfer_count d2 * xfer_struct_size E) w2 = (p, w3)" by force
  obtain ok2 xs w4 where x: "alloc_xfers E (buffer_size d2) [0..<transfer_count d2]
      (replicate (transfer_count d2) None) w3 = (ok2, xs, w4)" by (metis prod_cases3)
  have l: "live w \<subseteq># live w1" "live w2 \<subseteq># live w3"
    using live_malloc_res [OF m] live_malloc_res [OF t] by simp_all
  note l2 = alloc_queue_mono [OF q] and l4 = alloc_xfers_mono [OF x]
  show ?thesis
    using assms None m q t x l l2 l4
    by (auto simp: allocate_transfers_def Let_def split: if_splits intro: subset_mset.order_trans)
qed

lemma open_fields_view: "usb_device (open_fields d) = usb_device d" "usb_context (open_fields d) = usb_context d"
  "supported_att_steps_ptr (open_fields d) = supported_att_steps_ptr d"
  by (simp_all add: open_fields_def)

lemma tuning_fields_frame:
  "open_view (tuning_fields d) = open_view d" "supported_samplerates_ptr (tuning_fields d) = supported_samplerates_ptr d"
  "samplerate_architectures_ptr (tuning_fields d) = samplerate_architectures_ptr d"
  "supported_att_steps_ptr (tuning_fields d) = supported_att_steps_ptr d"
  by (simp_all add: tuning_fields_def open_view_def stream_view_def)

text \<open>What the second half of \<open>airspyhf_open_init\<close> does with a device that was opened.\<close>

definition open_rest where
  "open_rest M J E lib d L w = do {
     (d, w) \<leftarrow> read_samplerates E lib (open_fields d) w;
     (d, w) \<leftarrow> read_att_steps E lib d w;
     let (result, d, w) = allocate_transfers E d w;
     if result \<noteq> 0 then do {
       let (d, w) = airspyhf_open_exit d w;
       Some (AIRSPYHF_ERROR, None, L, w @ [Free lib])
     } else do {
       let (d, w) = read_calibration E (tuning_fields d) w;
       (q, b, L, w) \<leftarrow> iq_balancer_create M J E L INITIAL_PHASE INITIAL_AMPLITUDE w;
       Some (AIRSPYHF_SUCCESS, Some (lib, d\<lparr>iq_balancer := Some b, iq_balancer_ptrs := q\<rparr>), L, w)
     }
   }"

lemma open_rest_success:
  assumes rest: "open_rest M J E lib d L w = Some (r, Some (lib', d'), L', w')"
    and d: "length (received_samples_queue d) = 8" "length (dropped_buffers_queue d) = 8" "transfer_live d = 0"
  shows "r = AIRSPYHF_SUCCESS \<and> lib' = lib \<and> stream_idle d' \<and> transfer_count d' = 16 \<and>
         block_samples d' = SAMPLES_TO_TRANSFER \<and> iq_balancer d' \<noteq> None \<and>
         live w' + res lib + res (usb_context d) + res (usb_device d) = live w + device_blocks lib d'"
proof -
  obtain d1 w1 where s: "read_samplerates E lib (open_fields d) w = Some (d1, w1)"
    using rest by (auto simp: open_rest_def split: bind_splits)
  obtain d2 w2 where a: "read_att_steps E lib d1 w1 = Some (d2, w2)"
    using rest s by (auto simp: open_rest_def split: bind_splits)
  obtain r3 d3 w3 where t: "allocate_transfers E d2 w2 = (r3, d3, w3)" by (metis prod_cases3)
  obtain d4 w4 where c: "read_calibration E (tuning_fields d3) w3 = (d4, w4)" by force
  have r3: "r3 = AIRSPYHF_SUCCESS" using rest s a t by (auto simp: open_rest_def status_codes Let_def split: if_splits prod.splits)
  with rest s a t c obtain q b L2 w5 where b: "iq_balancer_create M J E L INITIAL_PHASE INITIAL_AMPLITUDE w4 = Some (q, b, L2, w5)"
    by (auto simp: open_rest_def status_codes Let_def split: bind_splits)
  then have fin: "r = AIRSPYHF_SUCCESS" "lib' = lib" "d' = d4\<lparr>iq_balancer := Some b, iq_balancer_ptrs := q\<rparr>" "w' = w5"
    using rest s a t c r3 by (simp_all add: open_rest_def status_codes Let_def)
  note s1 = read_samplerates_live [OF s] and a1 = read_att_steps_live [OF a] and c1 = read_calibration_frame [OF c]
  have view: "open_view d2 = open_view (open_fields d)" using s1 a1 by simp
  then have d2: "length (received_samples_queue d2) = 8" "length (dropped_buffers_queue d2) = 8" "transfer_live d2 = 0"
    "\<not> streaming d2" "\<not> stop_requested d2" "transfer_count d2 = 16"
    "buffer_size d2 = SAMPLES_TO_TRANSFER * sizeof_complex_int16"
    using d by (auto simp: open_view_def stream_view_eq_iff open_fields_def)
  note t' = t [unfolded r3]
  have idle: "stream_idle d3" by (rule allocate_stream_idle [OF t' d2(1-5)])
  have blocks: "live w3 = live w2 + stream_blocks d3" by (rule allocate_blocks [OF t' d2(1)])
  obtain ps ys out p where d3: "d3 = d2\<lparr>output_buffer := out, received_samples_queue := ps,
      transfers := Some (map Some ys), transfers_ptr := p\<rparr>"
    using allocate_transfers_ok [OF t' d2(1)] by blast
  have v4: "open_view d4 = open_view d3" using c1 tuning_fields_frame by simp
  have same: "stream_view d' = stream_view d3" "usb_device d' = usb_device d" "usb_context d' = usb_context d"
    using v4 view d3 by (auto simp: fin open_view_def stream_view_def open_fields_view)
  have ptrs: "supported_samplerates_ptr d' = supported_samplerates_ptr d1"
    "samplerate_architectures_ptr d' = samplerate_architectures_ptr d1"
    "supported_att_steps_ptr d' = supported_att_steps_ptr d2"
    using c1 a1 by (simp_all add: fin d3 tuning_fields_frame)
  have "live w' = live w + res (supported_samplerates_ptr d1) + res (samplerate_architectures_ptr d1) +
      res (supported_att_steps_ptr d2) + stream_blocks d3 + iq_blocks q"
    using s1 a1 c1 blocks iq_create_live [OF b] by (simp add: fin)
  moreover have "stream_idle d'" "stream_blocks d' = stream_blocks d3"
    using idle stream_idle_view [OF same(1)] stream_blocks_view [OF same(1)] by simp_all
  moreover have "transfer_count d' = 16" "block_samples d' = SAMPLES_TO_TRANSFER"
    using same(1) d2(6,7) by (auto simp: stream_view_eq_iff d3 block_samples_def sizeof_complex_int16_def)
  ultimately show ?thesis
    using same(2,3) ptrs fin by (simp add: device_blocks_def ac_simps)
qed

text \<open>No live null pointer: taking away an address is taking away its resource.\<close>

lemma diff_res: "NULL \<notin># A \<Longrightarrow> A - {#p#} = A - res p"
  by (cases "p = NULL") (simp_all add: diff_single_trivial)

lemma NULL_not_in_diff: "NULL \<notin># A \<Longrightarrow> NULL \<notin># A - B"
  by (auto dest: in_diffD)

lemma live_diff3: "live w - {#a#} - {#b#} - {#c#} = live w - (res a + res b + res c)"
proof -
  note n = NULL_not_live [of w]
  have "live w - {#a#} - {#b#} - {#c#} = live w - res a - res b - res c"
    using diff_res [OF n, of a] diff_res [OF NULL_not_in_diff [OF n], of "res a" b]
      diff_res [OF NULL_not_in_diff [OF NULL_not_in_diff [OF n]], of "res a" "res b" c]
    by simp
  then show ?thesis by (simp add: add.assoc)
qed

text \<open>The tables read from the firmware, and what a failure to allocate the transfers leaves behind.\<close>

definition table_blocks :: "airspyhf_device \<Rightarrow> ptr multiset" where
  "table_blocks d = res (supported_samplerates_ptr d) + res (samplerate_architectures_ptr d) + res (supported_att_steps_ptr d)"

definition open_leaks :: "env \<Rightarrow> trace \<Rightarrow> trace \<Rightarrow> bool" where
  "open_leaks E w w' \<longleftrightarrow> (\<exists>lib d v d' v'. allocate_transfers E d v = (AIRSPYHF_ERROR, d', v') \<and>
     live v = live w + res lib + res (usb_context d) + res (usb_device d) + table_blocks d \<and>
     w' = v' @ [ReleaseInterface (usb_device d), CloseDevice (usb_device d), LibExit (usb_context d), Free lib] \<and>
     live w' = live w + table_blocks d + (live v' - live v) \<and> table_blocks d \<noteq> {#})"

lemma open_leaks_more:
  assumes "open_leaks E w w'"
  shows "live w \<subset># live w'"
proof -
  obtain A B where "live w' = live w + A + B" "A \<noteq> {#}" using assms unfolding open_leaks_def by blast
  then show ?thesis by (simp add: subset_mset_def)
qed

lemma open_rest_failure:
  assumes rest: "open_rest M J E lib d L w = Some (r, None, L', w')" and h: "usb_device d \<noteq> NULL"
    and w: "live w = live w0 + res lib + res (usb_context d) + res (usb_device d)"
  shows "r = AIRSPYHF_ERROR \<and> open_leaks E w0 w'"
proof -
  obtain d1 w1 where s: "read_samplerates E lib (open_fields d) w = Some (d1, w1)"
    using rest by (auto simp: open_rest_def split: bind_splits)
  obtain d2 w2 where a: "read_att_steps E lib d1 w1 = Some (d2, w2)"
    using rest s by (auto simp: open_rest_def split: bind_splits)
  obtain r3 d3 w3 where t: "allocate_transfers E d2 w2 = (r3, d3, w3)" by (metis prod_cases3)
  note s1 = read_samplerates_live [OF s] and a1 = read_att_steps_live [OF a] and t1 = allocate_transfers_mono [OF t]
  have u: "usb_device d2 = usb_device d" "usb_context d2 = usb_context d"
    "usb_device d3 = usb_device d" "usb_context d3 = usb_context d"
    using s1 a1 t1 by (simp_all add: open_view_def open_fields_view)
  have r3: "r3 \<noteq> 0"
    using rest s a t by (auto simp: open_rest_def status_codes Let_def split: if_splits prod.splits bind_splits)
  then have e: "allocate_transfers E d2 w2 = (AIRSPYHF_ERROR, d3, w3)" using t t1 by (simp add: status_codes)
  have fin: "r = AIRSPYHF_ERROR"
    "w' = w3 @ [ReleaseInterface (usb_device d2), CloseDevice (usb_device d2), LibExit (usb_context d2), Free lib]"
    using rest s a t r3 u h by (simp_all add: open_rest_def airspyhf_open_exit_def Let_def)
  have l2: "live w2 = live w0 + res lib + res (usb_context d2) + res (usb_device d2) + table_blocks d2"
    using s1 a1 w u by (simp add: table_blocks_def)
  obtain G where G: "live w3 = live w2 + G" using t1 by (auto simp: mset_subset_eq_exists_conv)
  have "live w' = live w3 - {#usb_device d2#} - {#usb_context d2#} - {#lib#}"
    by (simp add: fin live_append live_step_def)
  then have "live w' = live w0 + table_blocks d2 + (live w3 - live w2)"
    unfolding live_diff3 by (simp add: G l2 ac_simps)
  moreover have "table_blocks d2 \<noteq> {#}" using s1 a1 by (simp add: table_blocks_def res_def)
  ultimately show ?thesis
    using e l2 fin unfolding open_leaks_def
    by (intro conjI exI [of _ lib] exI [of _ d2] exI [of _ w2] exI [of _ d3] exI [of _ w3]) simp_all
qed

lemma open_init_split:
  assumes "airspyhf_open_init M J E sn fd L w = Some (r, dv, L', w')"
  obtains (refused) "dv = None" "r \<noteq> AIRSPYHF_SUCCESS" "live w' = live w"
  | (opened) lib d w1 where "open_rest M J E lib d L w1 = Some (r, dv, L', w')" "lib \<noteq> NULL" "usb_device d \<noteq> NULL"
      "live w1 = live w + res lib + res (usb_context d) + res (usb_device d)"
      "length (received_samples_queue d) = 8" "length (dropped_buffers_queue d) = 8" "transfer_live d = 0"
proof -
  obtain lib w1 where m: "malloc E (device_struct_size E) w = (lib, w1)" by force
  note l1 = live_malloc_res [OF m]
  obtain e c w2 where i: "libusb_init E w1 = (e, c, w2)" by (metis prod_cases3)
  have l2: "live w2 = live w1 + res c" "e \<noteq> 0 \<longrightarrow> c = NULL"
    using i by (auto simp: libusb_init_def create_call_def Let_def call_simps)
  let ?d = "zero_device\<lparr>usb_context := c\<rparr>"
  obtain r3 d3 w3 where o: "(if fd = FILE_DESCRIPTOR_UNUSED
      then airspyhf_open_device E airspyhf_usb_vid airspyhf_usb_pid sn ?d w2
      else let (result, d) = airspyhf_open_device_fd ?d in (result, d, w2)) = (r3, d3, w3)" by (metis prod_cases3)
  have l3: "live w3 = live w2 + res (usb_device d3) \<and> d3 = ?d\<lparr>usb_device := usb_device d3\<rparr> \<and>
      (usb_device d3 = NULL \<longrightarrow> r3 \<noteq> AIRSPYHF_SUCCESS)"
    using o open_device_live [of E airspyhf_usb_vid airspyhf_usb_pid sn ?d w2 r3 d3 w3]
    by (auto simp: airspyhf_open_device_fd_def split: if_splits)
  then obtain h where d3: "d3 = ?d\<lparr>usb_device := h\<rparr>" "live w3 = live w2 + res h" "h = NULL \<longrightarrow> r3 \<noteq> AIRSPYHF_SUCCESS"
    by (metis airspyhf_device.select_convs(2) airspyhf_device.surjective airspyhf_device.update_convs(2))
  note eq = assms [unfolded airspyhf_open_init_def m i o]
  show thesis
  proof (cases "lib = NULL \<or> e \<noteq> 0 \<or> h = NULL")
    case True
    have "live (w3 @ [LibExit c, Free lib]) = live w" if "h = NULL"
      using that d3(2) l1 l2 NULL_not_live [of w] by (auto simp: res_def live_append live_step_def diff_single_trivial)
    then show thesis
      using True refused eq l1 l2 d3 o
      by (auto simp: m i live_append live_step_def Let_def zero_device_def split: if_splits)
  next
    case False
    then have "open_rest M J E lib d3 L w3 = Some (r, dv, L', w')"
      using eq o d3(1) by (simp add: m i open_rest_def Let_def)
    then show thesis
      using opened [of lib d3 w3] False l1 l2 d3 by (simp add: zero_device_def RAW_BUFFER_COUNT_def)
  qed
qed

lemma open_init_owns:
  assumes "airspyhf_open_init M J E sn fd L w = Some (r, dv, L', w')"
  shows "case dv of
           Some (lib, d) \<Rightarrow> r = AIRSPYHF_SUCCESS \<and> live w' = live w + device_blocks lib d \<and> stream_idle d \<and>
             transfer_count d = 16 \<and> block_samples d = SAMPLES_TO_TRANSFER \<and> iq_balancer d \<noteq> None
         | None \<Rightarrow> r \<noteq> AIRSPYHF_SUCCESS \<and> (live w' = live w \<or> open_leaks E w w')"
  using assms
proof (cases rule: open_init_split)
  case refused
  then show ?thesis by simp
next
  case (opened lib d w1)
  show ?thesis
  proof (cases dv)
    case None
    with open_rest_failure [OF opened(1) [unfolded None] opened(3,4)] show ?thesis by simp
  next
    case (Some p)
    obtain lib' d' where p: "p = (lib', d')" by force
    from open_rest_success [OF opened(1) [unfolded Some p] opened(5-7)] opened(4) show ?thesis
      by (auto simp: Some p)
  qed
qed

text \<open>
  C26 (functional). Opening a device: on success the caller gets a device at rest with sixteen
  transfers and blocks of \<open>SAMPLES_TO_TRANSFER\<close> samples, and exactly what the device owns has
  been acquired. A failure gives everything back, unless it is \<open>allocate_transfers\<close> that failed:
  then the handle, the context and the device structure are released, but the tables read
  from the firmware and the blocks that \<open>allocate_transfers\<close> did get stay allocated
  (\<open>open_leaks\<close>), and nothing else.
\<close>

theorem open_init_resources:
  assumes "airspyhf_open_init M J E sn fd L w = Some (r, dv, L', w')"
  shows "case dv of
           Some (lib, d) \<Rightarrow> r = AIRSPYHF_SUCCESS \<and> live w' = live w + device_blocks lib d \<and> stream_idle d \<and>
             transfer_count d = 16 \<and> block_samples d = SAMPLES_TO_TRANSFER \<and> iq_balancer d \<noteq> None
         | None \<Rightarrow> r \<noteq> AIRSPYHF_SUCCESS \<and> (live w' = live w \<or> open_leaks E w w')"
  using assms by (rule open_init_owns)

section \<open>Closing\<close>

lemma free_transfers_frame:
  "usb_device (fst (free_transfers d w)) = usb_device d" "usb_context (fst (free_transfers d w)) = usb_context d"
  "supported_samplerates_ptr (fst (free_transfers d w)) = supported_samplerates_ptr d"
  "samplerate_architectures_ptr (fst (free_transfers d w)) = samplerate_architectures_ptr d"
  "supported_att_steps_ptr (fst (free_transfers d w)) = supported_att_steps_ptr d"
  "iq_balancer_ptrs (fst (free_transfers d w)) = iq_balancer_ptrs d"
  by (simp_all add: free_transfers_def Let_def split: option.splits)

lemma stopped_frame:
  "usb_device (stopped k d) = usb_device d" "usb_context (stopped k d) = usb_context d"
  "supported_samplerates_ptr (stopped k d) = supported_samplerates_ptr d"
  "samplerate_architectures_ptr (stopped k d) = samplerate_architectures_ptr d"
  "supported_att_steps_ptr (stopped k d) = supported_att_steps_ptr d"
  "iq_balancer_ptrs (stopped k d) = iq_balancer_ptrs d"
  by (simp_all add: stopped_def drained_def)

lemma open_exit_live:
  assumes "airspyhf_open_exit d w = (d', w')"
  shows "live w' = live w - res (usb_device d) - res (usb_context d) \<and>
         supported_samplerates_ptr d' = supported_samplerates_ptr d \<and>
         samplerate_architectures_ptr d' = samplerate_architectures_ptr d \<and>
         supported_att_steps_ptr d' = supported_att_steps_ptr d \<and> iq_balancer_ptrs d' = iq_balancer_ptrs d"
proof -
  have n: "live w - res (usb_device d) - {#usb_context d#} = live w - res (usb_device d) - res (usb_context d)"
    by (rule diff_res [OF NULL_not_in_diff [OF NULL_not_live]])
  show ?thesis
    using assms n
    by (auto simp: airspyhf_open_exit_def Let_def live_append live_step_def split: if_splits)
qed

lemma close_live:
  assumes "xfers_ok d" and "completions_ok E d"
  shows "\<exists>r w'. airspyhf_close E (Some (lib, d)) w = Some (r, w') \<and> live w' = live w - device_blocks lib d \<and>
           (r = AIRSPYHF_SUCCESS \<longleftrightarrow> ret E w (mode_request RECEIVER_MODE_OFF) = 0)"
proof -
  obtain k w1 where s: "airspyhf_stop E d w =
      Some (if ret E w (mode_request RECEIVER_MODE_OFF) = 0 then AIRSPYHF_SUCCESS else AIRSPYHF_ERROR, stopped k d, w1)"
      "live w1 = live w"
    using airspyhf_stop_outcome [OF assms] by blast
  let ?d = "stopped k d"
  obtain d2 w2 where f: "free_transfers ?d w1 = (d2, w2)" by force
  obtain d3 w3 where e: "airspyhf_open_exit d2 w2 = (d3, w3)" by force
  have xo: "xfers_ok ?d" using assms(1) by (simp add: stopped_blocks)
  have w2: "live w2 = live w - stream_blocks d"
    using live_free_transfers [OF xo, of w1] f s(2) by (simp add: stopped_blocks)
  have d2: "usb_device d2 = usb_device d" "usb_context d2 = usb_context d"
    "supported_samplerates_ptr d2 = supported_samplerates_ptr d"
    "samplerate_architectures_ptr d2 = samplerate_architectures_ptr d"
    "supported_att_steps_ptr d2 = supported_att_steps_ptr d" "iq_balancer_ptrs d2 = iq_balancer_ptrs d"
    using free_transfers_frame [of ?d w1] f by (simp_all add: stopped_frame)
  note e1 = open_exit_live [OF e]
  let ?w = "iq_balancer_destroy (iq_balancer_ptrs d3) (free (supported_att_steps_ptr d3)
    (free (samplerate_architectures_ptr d3) (free (supported_samplerates_ptr d3) w3)))"
  have fr: "live (free p v) = live v - res p" for p v
    using diff_res [OF NULL_not_live] by (simp add: live_free)
  have "live (free lib ?w) = live w - device_blocks lib d"
    using e1 w2 d2 by (simp add: fr device_blocks_def iq_blocks_def iq_balancer_destroy_def ac_simps)
  moreover have "airspyhf_close E (Some (lib, d)) w =
      Some (if ret E w (mode_request RECEIVER_MODE_OFF) = 0 then AIRSPYHF_SUCCESS else AIRSPYHF_ERROR, free lib ?w)"
    by (simp add: airspyhf_close_def s(1) f e Let_def)
  ultimately show ?thesis by auto
qed

text \<open>
  C11 (safety). \<open>airspyhf_close\<close> of a device that \<open>airspyhf_open_init\<close> returned releases every
  block, handle and context the opening acquired, each exactly once, and nothing else.
\<close>

theorem open_close_balanced:
  assumes "airspyhf_open_init M J E sn fd L w = Some (r, Some (lib, d), L', w1)"
    and "completions_ok E d" and "live w2 = live w1"
  shows "\<exists>r' w3. airspyhf_close E (Some (lib, d)) w2 = Some (r', w3) \<and> live w3 = live w"
proof -
  have "live w1 = live w + device_blocks lib d" "xfers_ok d"
    using open_init_owns [OF assms(1)] by (simp_all add: stream_idle_def)
  then show ?thesis using close_live [OF _ assms(2), of lib w2] assms(3) by auto
qed

section \<open>An example\<close>

lemma bus_env_answers:
  "q \<noteq> AIRSPYHF_GET_SERIALNO_BOARDID \<Longrightarrow> ret bus_env w (CtrlIn q v i n) = 0"
  "ret bus_env w (CtrlIn AIRSPYHF_GET_SERIALNO_BOARDID v i n) = 20"
  "ret bus_env w (CtrlOut q v i bs) = int (length bs)"
  "reply bus_env w (CtrlIn q v i n) = []" "alloc_ok bus_env w n"
  by (simp_all add: bus_env_def demo_env_def)

lemma demo_malloc: "malloc bus_env n w = (Suc (length w), w @ [Malloc n (Suc (length w))])"
  by (simp add: malloc_def bus_env_answers)

lemma demo_fw_read:
  "q \<noteq> AIRSPYHF_GET_SERIALNO_BOARDID \<Longrightarrow>
   fw_read bus_env q len n p area w = Some (AIRSPYHF_ERROR, area, w @ [CtrlIn q 0 (to_u16 len) (unat n)])"
  by (simp add: fw_read_def control_out_eq bus_env_answers blit_def)

text \<open>The device knows no rates, so the default one is used.\<close>

definition rates_view :: "airspyhf_device \<Rightarrow> u32 \<times> u32 list \<times> u8 list \<times> u8" where
  "rates_view d = (supported_samplerate_count d, supported_samplerates d, samplerate_architectures d, is_low_if d)"

definition default_view :: "u32 \<times> u32 list \<times> u8 list \<times> u8" where
  "default_view = (1, [DEFAULT_SAMPLERATE], [0], 0)"

lemma demo_read_samplerates:
  "\<exists>d' w'. read_samplerates bus_env lib d w = Some (d', w') \<and> rates_view d' = default_view"
  by (simp add: read_samplerates_def airspyhf_read_samplerates_from_fw_def demo_fw_read default_rates_def
      demo_malloc rates_view_def default_view_def Let_def)

lemma demo_read_att_steps:
  "\<exists>d' w'. read_att_steps bus_env lib d w = Some (d', w') \<and> rates_view d' = rates_view d"
  by (simp add: read_att_steps_def airspyhf_read_att_steps_from_fw_def demo_fw_read default_att_steps_def
      demo_malloc rates_view_def Let_def)

lemma demo_open_device:
  "\<exists>h w'. airspyhf_open_device bus_env airspyhf_usb_vid airspyhf_usb_pid 0 d w = (AIRSPYHF_SUCCESS, d\<lparr>usb_device := Suc h\<rparr>, w')"
proof -
  have "ret bus_env u (GetDeviceList NULL) = 0" "ret bus_env u (OpenDevice i NULL) = 0" "bus bus_env u = [demo_receiver]" for u i
    by (simp_all add: bus_env_def)
  then show ?thesis
    by (intro exI [of _ "Suc (length w)"])
       (simp add: airspyhf_open_device_def libusb_get_device_list_def create_call_def Let_def try_device_def
        airspy_match_def demo_receiver_def SERIAL_NUMBER_UNUSED_def libusb_open_def setup_handle_steady [OF demo_bus])
qed

lemma alloc_queue_rates: "alloc_queue E is d w = (ok, d', w') \<Longrightarrow> rates_view d' = rates_view d"
  by (induction "is" arbitrary: d w) (auto simp: rates_view_def Let_def split: prod.splits if_splits)

text \<open>The example device as opened: one zero-IF rate, no frequency, the correction in the middle.\<close>

definition freshly_opened :: "airspyhf_device \<Rightarrow> bool" where
  "freshly_opened d \<longleftrightarrow> rates_view d = default_view \<and> freq_hz d = Zero False \<and> freq_khz d = 0 \<and>
     calibration_ppb d = 0 \<and> enable_dsp d = 1 \<and> optimal_point d = Zero False \<and> iq_balancer d \<noteq> None"

lemma demo_read_calibration:
  assumes "read_calibration bus_env (tuning_fields d) w = (d', w')" and "rates_view d = default_view"
  shows "freshly_opened (d'\<lparr>iq_balancer := Some b, iq_balancer_ptrs := q\<rparr>)"
proof -
  have "fst (airspyhf_config_read bus_env 16 w) = AIRSPYHF_ERROR"
    by (simp add: airspyhf_config_read_def control_out_eq bus_env_answers int_lt_size_def)
  then have "d' = (tuning_fields d)\<lparr>calibration_ppb := 0, calibration_vctcxo := 0, frontend_options := 0\<rparr>"
    using assms(1) by (auto simp: read_calibration_def Let_def status_codes split: prod.splits if_splits)
  then show ?thesis using assms(2) by (simp add: freshly_opened_def rates_view_def tuning_fields_def)
qed

lemma demo_open:
  "\<exists>lib d L' w'. airspyhf_open_init M J bus_env 0 FILE_DESCRIPTOR_UNUSED L v = Some (AIRSPYHF_SUCCESS, Some (lib, d), L', w') \<and>
     freshly_opened d"
proof -
  have i: "libusb_init bus_env w = (0, Suc (length w), w @ [LibInit (Suc (length w))])" for w
    by (simp add: libusb_init_def create_call_def bus_env_def)
  obtain lib w1 where m: "malloc bus_env (device_struct_size bus_env) v = (Suc lib, w1)" by (simp add: demo_malloc)
  let ?d = "zero_device\<lparr>usb_context := Suc (length w1)\<rparr>"
  obtain h w2 where o: "airspyhf_open_device bus_env airspyhf_usb_vid airspyhf_usb_pid 0 ?d
      (w1 @ [LibInit (Suc (length w1))]) = (AIRSPYHF_SUCCESS, ?d\<lparr>usb_device := Suc h\<rparr>, w2)"
    using demo_open_device by blast
  obtain d3 w3 where s: "read_samplerates bus_env (Suc lib) (open_fields (?d\<lparr>usb_device := Suc h\<rparr>)) w2 = Some (d3, w3)"
      and s1: "rates_view d3 = default_view"
    using demo_read_samplerates by blast
  obtain d4 w4 where a: "read_att_steps bus_env (Suc lib) d3 w3 = Some (d4, w4)"
      and a1: "rates_view d4 = default_view"
    using demo_read_att_steps [of "Suc lib" d3 w3] s1 by auto
  have "stream_view d4 = stream_view (open_fields (?d\<lparr>usb_device := Suc h\<rparr>))"
    using read_samplerates_live [OF s] read_att_steps_live [OF a] by (simp add: open_view_def)
  then have "transfers d4 = None" by (simp add: stream_view_eq_iff open_fields_def)
  then obtain d5 w5 where t: "allocate_transfers bus_env d4 w4 = (0, d5, w5)"
    using allocate_succeeds [of bus_env d4 w4] bus_env_answers(5)
    by (cases "allocate_transfers bus_env d4 w4") (simp add: status_codes)
  obtain d6 w6 where c: "read_calibration bus_env (tuning_fields d5) w5 = (d6, w6)" by force
  have "rates_view (x\<lparr>transfers := y, transfers_ptr := z\<rparr>) = rates_view x" "rates_view (x\<lparr>output_buffer := p\<rparr>) = rates_view x"
    for x y z p by (simp_all add: rates_view_def)
  then have "rates_view d5 = default_view"
    using t a1
    by (auto simp: allocate_transfers_def Let_def split: option.splits prod.splits if_splits dest!: alloc_queue_rates)
  note f = demo_read_calibration [OF c this]
  obtain q b L2 w7 where "iq_balancer_create M J bus_env L INITIAL_PHASE INITIAL_AMPLITUDE w6 = Some (q, b, L2, w7)"
    by (simp add: iq_balancer_create_def demo_malloc Let_def)
  then show ?thesis
    using s a t c f by (simp add: airspyhf_open_init_def m i o Let_def split: prod.splits)
qed

lemma demo_completions: "completions_ok bus_env d"
  by (simp add: completions_ok_def bus_env_def demo_env_def)

theorem open_init_resources_witness:
  "\<exists>r lib d L' w'. airspyhf_open_init demo_libm \<lparr>junk_flag = (\<lambda>_. 0), junk_float = (\<lambda>_. NaN)\<rparr> bus_env 0
     FILE_DESCRIPTOR_UNUSED iq_lib0 [] = Some (r, Some (lib, d), L', w') \<and> live w' = device_blocks lib d \<and> transfer_count d = 16"
proof -
  obtain lib d L' w' where o: "airspyhf_open_init demo_libm \<lparr>junk_flag = (\<lambda>_. 0), junk_float = (\<lambda>_. NaN)\<rparr> bus_env 0
      FILE_DESCRIPTOR_UNUSED iq_lib0 [] = Some (AIRSPYHF_SUCCESS, Some (lib, d), L', w')"
    using demo_open by blast
  from open_init_resources [OF o] o show ?thesis by auto
qed

theorem open_close_balanced_witness:
  "\<exists>lib d L' w1 r' w3. airspyhf_open_init demo_libm \<lparr>junk_flag = (\<lambda>_. 0), junk_float = (\<lambda>_. NaN)\<rparr> bus_env 0
     FILE_DESCRIPTOR_UNUSED iq_lib0 [] = Some (AIRSPYHF_SUCCESS, Some (lib, d), L', w1) \<and>
     airspyhf_close bus_env (Some (lib, d)) w1 = Some (r', w3) \<and> live w3 = {#}"
proof -
  obtain lib d L' w' where o: "airspyhf_open_init demo_libm \<lparr>junk_flag = (\<lambda>_. 0), junk_float = (\<lambda>_. NaN)\<rparr> bus_env 0
      FILE_DESCRIPTOR_UNUSED iq_lib0 [] = Some (AIRSPYHF_SUCCESS, Some (lib, d), L', w')"
    using demo_open by blast
  from open_close_balanced [OF o demo_completions refl] o show ?thesis by auto
qed

end
