(* ===== verification/Tools_Properties.thy ===== *)
theory Tools_Properties
  imports Small_Tools Rx_Properties
begin

text \<open>
  The small programs: what they write to the receiver, and which of the devices they open
  they give back.
\<close>

section \<open>\<open>airspyhf_calibrate\<close>\<close>








text \<open>One receiver on the bus, opened by the serial number 0 that stands for any.\<close>

definition demo_junk :: iq_junk where
  "demo_junk = \<lparr>junk_flag = (\<lambda>_. 0), junk_float = (\<lambda>_. NaN)\<rparr>"

lemma demo_scan: "\<exists>w1. scan_devices bus_env w = Some (1, w1)"
  using demo_list [of None w] by (auto simp: scan_devices_def)

lemma demo_serial_zero: "sscanf_0x_llx [48, 120, 48] = Some (Some 0)"
  by (simp add: sscanf_0x_llx_def scan_number_def digits_def digits_value_def digit_value_def is_space_def
      word_le_nat_alt)


lemma demo_open_sn:
  "\<exists>lib d L' w'. airspyhf_open_sn demo_libm demo_junk bus_env 0 iq_lib0 v = Some (AIRSPYHF_SUCCESS, Some (lib, d), L', w') \<and>
     stream_idle d \<and> freshly_opened d"
proof -
  obtain lib d L' w' where o: "airspyhf_open_init demo_libm demo_junk bus_env 0 FILE_DESCRIPTOR_UNUSED iq_lib0 v =
      Some (AIRSPYHF_SUCCESS, Some (lib, d), L', w')" "freshly_opened d" using demo_open by blast
  with open_init_owns [OF o(1)] show ?thesis by (simp add: airspyhf_open_sn_def)
qed



section \<open>\<open>airspyhf_gpio\<close>\<close>

text \<open>The levels the options ask for output \<open>k\<close>, in their order; the last one counts.\<close>

definition level :: "u8 list \<Rightarrow> airspyhf_user_output_state_t" where
  "level arg = (if arg = str_on then AIRSPYHF_USER_OUTPUT_HIGH else AIRSPYHF_USER_OUTPUT_LOW)"

fun levels :: "nat \<Rightarrow> gpio_option list \<Rightarrow> airspyhf_user_output_state_t list" where
  "levels k [] = []"
| "levels k (Gpio_level j arg # xs) = (if j = k then level arg # levels k xs else levels k xs)"
| "levels k (_ # xs) = levels k xs"

definition final_level :: "nat \<Rightarrow> gpio_option list \<Rightarrow> airspyhf_user_output_state_t" where
  "final_level k xs = last (AIRSPYHF_USER_OUTPUT_LOW # levels k xs)"

lemma gpio_options_levels:
  assumes "gpio_options xs (g, sn) = Some (Inr (g', sn'))"
  shows "map gpio_pin g' = map gpio_pin g \<and>
         (\<forall>k < length g. gpio_state (g' ! k) = last (gpio_state (g ! k) # levels k xs))"
  using assms
proof (induction xs arbitrary: g sn)
  case Nil
  then show ?case by simp
next
  case (Cons x xs)
  show ?case
  proof (cases x)
    case (Gpio_level j arg)
    then have j: "j < length g" and rest: "gpio_options xs (g[j := (g ! j)\<lparr>gpio_state := level arg\<rparr>], sn) = Some (Inr (g', sn'))"
      using Cons.prems
      by (auto simp: Let_def level_def rd_def wr_def str_on_def str_off_def split: if_splits bind_splits)
    have "map gpio_pin (g[j := (g ! j)\<lparr>gpio_state := level arg\<rparr>]) = map gpio_pin g"
      using j by (simp add: map_update list_update_same_conv)
    with Cons.IH [OF rest] j show ?thesis by (auto simp: Gpio_level nth_list_update)
  next
    case (Gpio_s arg)
    with Cons show ?thesis by (auto split: option.splits)
  next
    case Gpio_usage
    with Cons.prems show ?thesis by simp
  qed
qed

definition output_request :: "nat \<Rightarrow> airspyhf_user_output_state_t \<Rightarrow> api_call" where
  "output_request k v = CtrlOut AIRSPYHF_SET_USER_OUTPUT (of_nat k) (user_output_state_code v) []"

lemma gpio_update_requests:
  "gpio_update E gs w = (ok, w') \<Longrightarrow> live w' = live w \<and>
     (ok \<longrightarrow> w' = w @ map (\<lambda>g. CtrlOut AIRSPYHF_SET_USER_OUTPUT (user_output_code (gpio_pin g))
                               (user_output_state_code (gpio_state g)) []) gs)"
proof (induction gs arbitrary: w)
  case (Cons g gs)
  let ?c = "CtrlOut AIRSPYHF_SET_USER_OUTPUT (user_output_code (gpio_pin g)) (user_output_state_code (gpio_state g)) []"
  show ?case
  proof (cases "ret E w ?c < 0")
    case True
    with Cons.prems show ?thesis
      by (auto simp: airspyhf_set_user_output_def control_out_eq live_append live_step_def)
  next
    case False
    with Cons.prems have "gpio_update E gs (w @ [?c]) = (ok, w')"
      by (simp add: airspyhf_set_user_output_def control_out_eq)
    from Cons.IH [OF this] show ?thesis by (simp add: live_append live_step_def)
  qed
qed simp

lemma gpio_requests:
  assumes "gpio_options xs (gpio0, None) = Some (Inr (g, sn))"
  shows "map (\<lambda>g. CtrlOut AIRSPYHF_SET_USER_OUTPUT (user_output_code (gpio_pin g))
                   (user_output_state_code (gpio_state g)) []) g =
         map (\<lambda>k. output_request k (final_level k xs)) [0, 1, 2, 3]"
proof -
  note l = gpio_options_levels [OF assms]
  then have "length g = Suc (Suc (Suc (Suc 0)))"
    using map_eq_imp_length_eq [of gpio_pin g gpio_pin gpio0] by (simp add: gpio0_def)
  then obtain a b c d where g: "g = [a, b, c, d]" by (auto simp: length_Suc_conv)
  have "gpio_state (g ! k) = final_level k xs" if "k < 4" for k
  proof -
    have "gpio_state (gpio0 ! k) = AIRSPYHF_USER_OUTPUT_LOW"
      using that by (simp add: gpio0_def numeral_eq_Suc less_Suc_eq, elim disjE) simp_all
    then show ?thesis using l that by (simp add: gpio0_def final_level_def)
  qed
  from this [of 0] this [of 1] this [of 2] this [of 3] l show ?thesis
    by (simp add: g gpio0_def output_request_def numeral_eq_Suc)
qed

text \<open>What a list of open devices holds.\<close>

definition held :: "(ptr \<times> airspyhf_device) list \<Rightarrow> ptr multiset" where
  "held ds = sum_list (map (\<lambda>(lib, d). device_blocks lib d) ds)"

lemma held_simps [simp]: "held [] = {#}" "held ((lib, d) # ds) = device_blocks lib d + held ds"
  by (simp_all add: held_def)

lemma held_last: "ds \<noteq> [] \<Longrightarrow> last ds = (lib, d) \<Longrightarrow> held ds = held (butlast ds) + device_blocks lib d"
  by (induction ds) (auto simp: ac_simps)

definition at_rest :: "ptr \<times> airspyhf_device \<Rightarrow> bool" where
  "at_rest = (\<lambda>(lib, d). stream_idle d \<and> transfer_count d = 16)"

lemma open_sn_holds:
  assumes "airspyhf_open_sn M J E sn L w = Some (AIRSPYHF_SUCCESS, dv, L', w')"
  shows "\<exists>lib d. dv = Some (lib, d) \<and> live w' = live w + held [(lib, d)] \<and> at_rest (lib, d)"
  using open_init_owns [OF assms [unfolded airspyhf_open_sn_def]]
  by (cases dv) (auto simp: at_rest_def)

lemma gpio_open_loop_holds:
  "gpio_open_loop M J E ss dv0 L w = Some (True, dv1, w') \<Longrightarrow>
     \<exists>ds. length ds = length ss \<and> live w' = live w + held ds \<and> (\<forall>p \<in> set ds. at_rest p) \<and>
       dv1 = (if ds = [] then dv0 else Some (last ds))"
proof (induction ss arbitrary: dv0 L w)
  case Nil
  then show ?case by simp
next
  case (Cons s ss)
  then obtain dv L1 w1 where o: "airspyhf_open_sn M J E s L w = Some (AIRSPYHF_SUCCESS, dv, L1, w1)"
    and rest: "gpio_open_loop M J E ss dv L1 w1 = Some (True, dv1, w')"
    by (auto split: bind_splits if_splits)
  obtain lib d where d: "dv = Some (lib, d)" "live w1 = live w + held [(lib, d)]" "at_rest (lib, d)"
    using open_sn_holds [OF o] by blast
  obtain ds where "length ds = length ss" "live w' = live w1 + held ds" "\<forall>p \<in> set ds. at_rest p"
    "dv1 = (if ds = [] then dv else Some (last ds))" using Cons.IH [OF rest] by blast
  with d show ?case by (intro exI [of _ "(lib, d) # ds"]) auto
qed

lemma unat_nonneg_sint:
  assumes "0 \<le> sint (x :: u32)"
  shows "nat (sint x) = unat x"
  using assms sint_lt [of x] uint_sint [of x] by (simp add: unat_eq_nat_uint take_bit_eq_mod)

lemma read_serials_holds:
  assumes "read_serials E ndev w = Some (p, Some ss, w')"
  shows "length ss = unat ndev \<and> live w' = live w + res p \<and> p \<noteq> NULL"
proof -
  obtain v where m: "malloc E (unat ndev * 8) w = (p, v)" "p \<noteq> NULL"
    using assms by (auto simp: read_serials_def Let_def split: prod.splits if_splits bind_splits)
  then obtain n where l: "airspyhf_list_devices E (Some (sint ndev)) v = Some (n, ss, w')" "0 < n"
    using assms by (auto simp: read_serials_def split: bind_splits if_splits)
  note o = list_devices_owns [OF l(1)]
  then have "0 \<le> sint ndev" using l(2) by linarith
  then have "nat (sint ndev) = unat ndev" by (rule unat_nonneg_sint)
  with o l(2) live_malloc_res [OF m(1)] m(2) show ?thesis by (auto simp: status_codes)
qed

lemma gpio_open_holds:
  assumes "gpio_open M J E sn ndev w = Some (True, Some dv0, w')"
  shows "\<exists>ds. ds \<noteq> [] \<and> last ds = dv0 \<and> live w' = live w + held ds \<and> (\<forall>p \<in> set ds. at_rest p) \<and>
           length ds = (if sn = None then unat ndev else 1)"
proof (cases sn)
  case (Some v)
  then obtain L where "airspyhf_open_sn M J E v iq_lib0 w = Some (AIRSPYHF_SUCCESS, Some dv0, L, w')"
    using assms by (auto simp: gpio_open_def split: bind_splits)
  from open_sn_holds [OF this] Some show ?thesis
    by (intro exI [of _ "[dv0]"]) auto
next
  case None
  then obtain p ss w1 w2 where r: "read_serials E ndev w = Some (p, Some ss, w1)"
    and l: "gpio_open_loop M J E ss None iq_lib0 w1 = Some (True, Some dv0, w2)" and w': "w' = free p w2"
    using assms by (auto simp: gpio_open_def split: bind_splits option.splits if_splits)
  obtain ds where ds: "length ds = length ss" "live w2 = live w1 + held ds" "\<forall>p \<in> set ds. at_rest p"
    "Some dv0 = (if ds = [] then None else Some (last ds))" using gpio_open_loop_holds [OF l] by blast
  note s = read_serials_holds [OF r]
  have "live w' = live w2 - res p" using s by (simp add: w' free_def live_append live_step_def)
  with ds s None show ?thesis by (intro exI [of _ ds]) (auto split: if_splits)
qed

text \<open>
  C35 (functional). When \<open>airspyhf_gpio\<close> ends with success, it sent the four output requests in
  the order of the outputs, each with the level of the last option for it and low without one,
  to the last of the receivers it opened (the one of the given serial number, or as many as
  there are on the bus) and closed that one. Every other receiver it opened stays open.
\<close>

theorem gpio_sets_outputs:
  assumes run: "gpio_main M J E args w = Some (Exit_Success, w')" and host: "host_ok E"
  shows "\<exists>gpio sn ndev w1 ds w2 r.
           gpio_options args (gpio0, None) = Some (Inr (gpio, sn)) \<and> scan_devices E w = Some (ndev, w1) \<and>
           gpio_open M J E sn ndev w1 = Some (True, Some (last ds), w2) \<and>
           airspyhf_close E (Some (last ds))
             (w2 @ map (\<lambda>k. output_request k (final_level k args)) [0, 1, 2, 3]) = Some (r, w') \<and>
           length ds = (if sn = None then unat ndev else 1) \<and> live w' = live w1 + held (butlast ds)"
proof -
  obtain gpio sn ndev w1 lib d w2 w3 r where
    o: "gpio_options args (gpio0, None) = Some (Inr (gpio, sn))" "scan_devices E w = Some (ndev, w1)"
    and op: "gpio_open M J E sn ndev w1 = Some (True, Some (lib, d), w2)"
    and up: "gpio_update E gpio w2 = (True, w3)" and cl: "airspyhf_close E (Some (lib, d)) w3 = Some (r, w')"
    using run
    by (fastforce simp: gpio_main_def gpio_run_def split: bind_splits sum.splits option.splits if_splits prod.splits)
  obtain ds where ds: "ds \<noteq> []" "last ds = (lib, d)" "live w2 = live w1 + held ds" "\<forall>p \<in> set ds. at_rest p"
    "length ds = (if sn = None then unat ndev else 1)" using gpio_open_holds [OF op] by blast
  have w3: "w3 = w2 @ map (\<lambda>k. output_request k (final_level k args)) [0, 1, 2, 3]"
    using gpio_update_requests [OF up] gpio_requests [OF o(1)] by simp
  have live: "live w3 = live w2" using gpio_update_requests [OF up] by (rule conjunct1)
  have "at_rest (lib, d)" using ds(1,2,4) last_in_set by metis
  then have "closable (live w1 + held (butlast ds)) lib d w3"
    using ds(3) held_last [OF ds(1,2)] live by (simp add: closable_def at_rest_def stream_idle_def ac_simps)
  from closable_close [OF this host] cl have "live w' = live w1 + held (butlast ds)" by auto
  with o op cl ds(5) show ?thesis unfolding ds(2) [symmetric] w3 by blast
qed

lemma demo_host_bus: "host_ok bus_env"
  using demo_host by (simp add: demo_rx_def)

lemma demo_outputs: "\<exists>w'. gpio_update bus_env gs w = (True, w')"
  by (induction gs arbitrary: w) (simp_all add: airspyhf_set_user_output_def control_out_eq bus_env_def)

theorem gpio_sets_outputs_witness:
  "\<exists>w' w2 r p. gpio_main demo_libm demo_junk bus_env [Gpio_s [48, 120, 48], Gpio_level 2 str_on] [] =
       Some (Exit_Success, w') \<and>
     airspyhf_close bus_env (Some p) (w2 @ [output_request 0 AIRSPYHF_USER_OUTPUT_LOW,
       output_request 1 AIRSPYHF_USER_OUTPUT_LOW, output_request 2 AIRSPYHF_USER_OUTPUT_HIGH,
       output_request 3 AIRSPYHF_USER_OUTPUT_LOW]) = Some (r, w')"
proof -
  let ?args = "[Gpio_s [48, 120, 48], Gpio_level 2 str_on]"
  have "\<exists>gpio. gpio_options ?args (gpio0, None) = Some (Inr (gpio, Some 0))"
    by (simp add: demo_serial_zero gpio0_def rd_def wr_def)
  then obtain gpio where a: "gpio_options ?args (gpio0, None) = Some (Inr (gpio, Some 0))" ..
  obtain w1 where s: "scan_devices bus_env [] = Some (1, w1)" using demo_scan by blast
  obtain lib d L w2 where o: "airspyhf_open_sn demo_libm demo_junk bus_env 0 iq_lib0 w1 =
      Some (AIRSPYHF_SUCCESS, Some (lib, d), L, w2)" "stream_idle d" using demo_open_sn by blast
  then have op: "gpio_open demo_libm demo_junk bus_env (Some 0) 1 w1 = Some (True, Some (lib, d), w2)"
    by (simp add: gpio_open_def)
  obtain w3 where u: "gpio_update bus_env gpio w2 = (True, w3)" using demo_outputs by blast
  obtain r w4 where c: "airspyhf_close bus_env (Some (lib, d)) w3 = Some (r, w4)"
    using close_live [OF _ demo_completions, of d lib w3] o(2) unfolding stream_idle_def by blast
  have run: "gpio_main demo_libm demo_junk bus_env ?args [] = Some (Exit_Success, w4)"
    by (simp add: gpio_main_def gpio_run_def a s op u c del: gpio_options.simps)
  have "map (\<lambda>k. output_request k (final_level k ?args)) [0, 1, 2, 3] =
      [output_request 0 AIRSPYHF_USER_OUTPUT_LOW, output_request 1 AIRSPYHF_USER_OUTPUT_LOW,
       output_request 2 AIRSPYHF_USER_OUTPUT_HIGH, output_request 3 AIRSPYHF_USER_OUTPUT_LOW]"
    by (simp add: final_level_def level_def)
  moreover obtain w2 r p where "airspyhf_close bus_env (Some p)
      (w2 @ map (\<lambda>k. output_request k (final_level k ?args)) [0, 1, 2, 3]) = Some (r, w4)"
    using gpio_sets_outputs [OF run demo_host_bus] by blast
  ultimately have "airspyhf_close bus_env (Some p) (w2 @ [output_request 0 AIRSPYHF_USER_OUTPUT_LOW,
      output_request 1 AIRSPYHF_USER_OUTPUT_LOW, output_request 2 AIRSPYHF_USER_OUTPUT_HIGH,
      output_request 3 AIRSPYHF_USER_OUTPUT_LOW]) = Some (r, w4)" by (simp only:)
  with run show ?thesis by blast
qed

section \<open>\<open>airspyhf_info\<close>\<close>

lemma version_255_undefined:
  assumes "0 \<le> ret E w (CtrlIn AIRSPYHF_GET_VERSION_STRING 0 0 63)"
  shows "airspyhf_version_string_read E 255 w = None"
proof -
  have "length (blit (take 63 bs) (junk_bytes E 64 w)) = 64" for bs
    by (simp add: blit_def)
  then show ?thesis
    using assms
    by (simp add: airspyhf_version_string_read_def libusb_control_in_def MAX_VERSION_STRING_SIZE_def MAX_NAME_STRING_SIZE_def copy_string_def
        Let_def not_less)
qed

text \<open>
  C40 (error). \<open>airspyhf_info\<close> asks for the firmware version in a string of 255 bytes, more than
  \<open>airspyhf_version_string_read\<close> can deliver from its local array of 64. When the receivers
  answer that request, the program runs into undefined behaviour on every receiver it opens: a
  defined run prints the data of no receiver, and one that opens the given receiver has no
  defined outcome.
\<close>

theorem info_overreads:
  assumes answer: "\<And>v. 0 \<le> ret E v (CtrlIn AIRSPYHF_GET_VERSION_STRING 0 0 63)"
  shows "(\<forall>e reps w'. info_main M J E args w = Some (e, reps, w') \<longrightarrow> reps = []) \<and>
         (\<forall>sn ndev w1 p L w2. info_options args None = Some (Inr (Some sn)) \<longrightarrow>
            scan_devices E w = Some (ndev, w1) \<longrightarrow> ndev \<noteq> 0 \<longrightarrow>
            airspyhf_open_sn M J E sn iq_lib0 w1 = Some (AIRSPYHF_SUCCESS, Some p, L, w2) \<longrightarrow>
            info_main M J E args w = None)"
proof -
  have p: "info_print E lib d v = None" for lib d v
    using version_255_undefined [OF answer] by (simp add: info_print_def Let_def split: prod.splits)
  have l: "fst x = []" if "info_loop M J E ss L v = Some x" for ss L v x
    using that
  proof (induction ss arbitrary: L v x)
    case Nil
    then show ?case by auto
  next
    case (Cons s ss)
    then show ?case by (cases x) (fastforce simp: p split: bind_splits if_splits option.splits)
  qed
  have "reps = []" if "info_main M J E args w = Some (e, reps, w')" for e reps w'
    using that l
    by (fastforce simp: info_main_def info_run_def p split: bind_splits sum.splits option.splits if_splits prod.splits)
  moreover have "info_main M J E args w = None"
    if "info_options args None = Some (Inr (Some sn))" "scan_devices E w = Some (ndev, w1)" "ndev \<noteq> 0"
      "airspyhf_open_sn M J E sn iq_lib0 w1 = Some (AIRSPYHF_SUCCESS, Some q, L, w2)" for sn ndev w1 q L w2
    using that by (cases q) (simp add: info_main_def info_run_def p)
  ultimately show ?thesis by blast
qed

theorem info_overreads_witness:
  "info_main demo_libm demo_junk bus_env [Info_s [48, 120, 48]] [] = None"
proof -
  have a: "0 \<le> ret bus_env v (CtrlIn AIRSPYHF_GET_VERSION_STRING 0 0 63)" for v by (simp add: bus_env_def)
  obtain w1 where s: "scan_devices bus_env [] = Some (1, w1)" using demo_scan by blast
  obtain p L w2 where o: "airspyhf_open_sn demo_libm demo_junk bus_env 0 iq_lib0 w1 = Some (AIRSPYHF_SUCCESS, Some p, L, w2)"
    using demo_open_sn by blast
  have i: "info_options [Info_s [48, 120, 48]] None = Some (Inr (Some 0))" by (simp add: demo_serial_zero)
  from info_overreads [OF a, THEN conjunct2, rule_format, OF i s _ o] show ?thesis by simp
qed

end
