(* ===== verification/Iq_Fft_Correct.thy ===== *)
theory Iq_Fft_Correct
  imports Iq_Fft
begin

text \<open>
  The in-place \<open>fft\<close> of \<open>iqbalancer.c\<close> against two references. For every scalar arithmetic,
  binary32 included, it computes operation for operation what the recursive
  decimation-in-time transform \<open>dit\<close> computes, with the two halves of the spectrum
  exchanged. For the complex numbers, \<open>dit\<close> is the discrete Fourier transform. In
  particular the loops end and stay inside the buffer for every power of two.
\<close>

section \<open>Bit reversal\<close>

fun brev :: "nat \<Rightarrow> nat \<Rightarrow> nat" where
  "brev 0 i = 0"
| "brev (Suc m) i = 2 ^ m * (i mod 2) + brev m (i div 2)"

lemma brev_less: "brev m i < 2 ^ m"
proof (induction m arbitrary: i)
  case (Suc m)
  show ?case using Suc.IH [of "i div 2"] by (cases "even i") (auto simp: odd_iff_mod_2_eq_one)
qed simp

lemma brev_0 [simp]: "brev m 0 = 0"
  by (induction m) auto

lemma brev_double [simp]: "brev (Suc m) (2 * i) = brev m i"
  by simp

lemma brev_double_Suc [simp]: "brev (Suc m) (Suc (2 * i)) = 2 ^ m + brev m i"
  by simp

text \<open>The recursion at the other end of the number.\<close>

lemma brev_high: "i < 2 ^ m \<Longrightarrow> b < 2 \<Longrightarrow> brev (Suc m) (2 ^ m * b + i) = b + 2 * brev m i"
proof (induction m arbitrary: i)
  case (Suc m)
  have "(2 ^ Suc m * b + i) div 2 = 2 ^ m * b + i div 2" by simp
  moreover have "(2 ^ Suc m * b + i) mod 2 = i mod 2" by (simp add: mod_add_eq [symmetric])
  moreover have "i div 2 < 2 ^ m" using Suc.prems by simp
  ultimately show ?case
    using Suc.IH [of "i div 2"] Suc.prems by (subst brev.simps(2)) (simp del: brev.simps(2) add: brev.simps(2) [of m i])
qed auto

lemma brev_brev: "i < 2 ^ m \<Longrightarrow> brev m (brev m i) = i"
proof (induction m arbitrary: i)
  case (Suc m)
  have "brev (Suc m) (2 ^ m * (i mod 2) + brev m (i div 2)) = i mod 2 + 2 * brev m (brev m (i div 2))"
    by (rule brev_high) (simp_all add: brev_less)
  also have "\<dots> = i" using Suc.IH [of "i div 2"] Suc.prems by simp
  finally show ?case by (simp only: brev.simps(2))
qed simp

lemma brev_eq_iff: "i < 2 ^ m \<Longrightarrow> j < 2 ^ m \<Longrightarrow> brev m i = j \<longleftrightarrow> brev m j = i"
  using brev_brev by metis

lemma brev_top: "brev m (2 ^ m - 1) = 2 ^ m - 1"
proof (induction m)
  case (Suc m)
  have "(1 :: nat) \<le> 2 ^ m" by simp
  then have e: "(2 ^ Suc m - 1 :: nat) = Suc (2 * (2 ^ m - 1))" by (simp only: power_Suc)
  show ?case unfolding e brev_double_Suc using Suc \<open>1 \<le> 2 ^ m\<close> by linarith
qed simp

text \<open>The carry loop of the code adds one to the reversed number.\<close>

lemma carry_brev: "Suc i < 2 ^ Suc m \<Longrightarrow> carry (2 ^ m) (brev (Suc m) i) = Some (brev (Suc m) (Suc i))"
proof (induction m arbitrary: i)
  case 0
  then show ?case by (simp add: carry.simps)
next
  case (Suc m)
  show ?case
  proof (cases "even i")
    case True
    then obtain k where "i = 2 * k" by blast
    then show ?thesis using brev_less [of "Suc m" k]
      by (subst carry.simps) (simp del: brev.simps(2))
  next
    case False
    then obtain k where k: "i = Suc (2 * k)" by (auto elim: oddE)
    have "carry (2 ^ Suc m) (2 ^ Suc m + brev (Suc m) k) = carry (2 ^ m) (brev (Suc m) k)"
      by (subst carry.simps) simp
    also have "\<dots> = Some (brev (Suc m) (Suc k))" using Suc k by (intro Suc.IH) simp
    also have "brev (Suc m) (Suc k) = brev (Suc (Suc m)) (Suc i)"
      using brev_double [of "Suc m" "Suc k"] k by (simp del: brev.simps(2))
    finally show ?thesis by (simp only: k brev_double_Suc)
  qed
qed

lemma swap_cells_Some:
  "i < length b \<Longrightarrow> j < length b \<Longrightarrow> swap_cells b i j = Some (b[j := b ! i, i := b ! j])"
  by (simp add: swap_cells_def)

text \<open>The buffer before iteration \<open>i\<close>: the pairs below \<open>i\<close> are exchanged.\<close>

definition reversed_below :: "nat \<Rightarrow> 'a list \<Rightarrow> nat \<Rightarrow> 'a list" where
  "reversed_below m b i =
     map (\<lambda>k. if k < i \<or> brev m k < i then b ! brev m k else b ! k) [0..<2 ^ m]"

lemma length_reversed_below [simp]: "length (reversed_below m b i) = 2 ^ m"
  by (simp add: reversed_below_def)

lemma reversed_below_nth:
  "k < 2 ^ m \<Longrightarrow> reversed_below m b i ! k = (if k < i \<or> brev m k < i then b ! brev m k else b ! k)"
  by (simp add: reversed_below_def)

lemma bit_reverse_step:
  assumes "Suc i < 2 ^ Suc m"
  shows "bit_reverse_body (2 ^ m) i (reversed_below (Suc m) b i, brev (Suc m) i) =
         Some (reversed_below (Suc m) b (Suc i), brev (Suc m) (Suc i))"
proof -
  let ?M = "Suc m" and ?b = "reversed_below (Suc m) b i" and ?j = "brev (Suc m) i"
  have i: "i < 2 ^ ?M" using assms by simp
  have j: "?j < 2 ^ ?M" and jj: "brev ?M ?j = i" using brev_less brev_brev [OF i] by blast+
  have "(if i < ?j then swap_cells ?b i ?j else Some ?b) = Some (reversed_below ?M b (Suc i))"
  proof (cases "i < ?j")
    case True
    have "?b[?j := ?b ! i, i := ?b ! ?j] = reversed_below ?M b (Suc i)"
    proof (rule nth_equalityI)
      fix k assume "k < length (?b[?j := ?b ! i, i := ?b ! ?j])"
      then have k: "k < 2 ^ ?M" by simp
      show "?b[?j := ?b ! i, i := ?b ! ?j] ! k = reversed_below ?M b (Suc i) ! k"
        using True i j jj k brev_eq_iff [OF k i]
        by (cases "k = i"; cases "k = ?j")
           (simp_all add: reversed_below_nth less_Suc_eq del: brev.simps(2))
    qed simp
    with True i j show ?thesis by (simp add: swap_cells_Some del: brev.simps(2))
  next
    case False
    have "?b = reversed_below ?M b (Suc i)"
    proof (rule nth_equalityI)
      fix k assume "k < length ?b"
      then have k: "k < 2 ^ ?M" by simp
      show "?b ! k = reversed_below ?M b (Suc i) ! k"
        using False i j jj k brev_eq_iff [OF k i]
        by (cases "k = i"; cases "k = ?j")
           (auto simp add: reversed_below_nth less_Suc_eq simp del: brev.simps(2))
    qed simp
    with False show ?thesis by simp
  qed
  with carry_brev [OF assms] show ?thesis by (simp add: bit_reverse_body_def del: brev.simps(2))
qed

theorem bit_reverse_eq:
  assumes "length b = 2 ^ m"
  shows "bit_reverse b (2 ^ m) = Some (map (\<lambda>k. b ! brev m k) [0..<2 ^ m])"
proof (cases m)
  case 0
  with assms show ?thesis by (cases b) (auto simp: bit_reverse_def)
next
  case (Suc n)
  let ?P = "\<lambda>i s. s = (reversed_below m b i, brev m i)"
  have nd2: "2 ^ m div 2 = (2 ^ n :: nat)" using Suc by simp
  have two: "2 \<le> (2 :: nat) ^ m" using Suc by simp
  have "reversed_below m b 1 = b"
    using assms brev_eq_iff [of 0 m] by (intro nth_equalityI) (auto simp: reversed_below_nth)
  moreover have "brev m 1 = 2 ^ n" using Suc brev_double_Suc [of n 0] by simp
  ultimately have start: "(b, 2 ^ m div 2) = (reversed_below m b 1, brev m 1)" using nd2 by simp
  have "\<exists>s. for_loop [1..<2 ^ m - 1] (bit_reverse_body (2 ^ m div 2)) (b, 2 ^ m div 2) = Some s \<and> ?P (2 ^ m - 1) s"
  proof (rule for_loop_upt_inv)
    show "1 \<le> (2 ^ m - 1 :: nat)" using two by linarith
  next
    fix i s assume "i < 2 ^ m - 1" "?P i s"
    moreover from this have "Suc i < 2 ^ m" by linarith
    ultimately have "bit_reverse_body (2 ^ m div 2) i s = Some (reversed_below m b (Suc i), brev m (Suc i))"
      unfolding nd2 unfolding Suc by (simp only: bit_reverse_step)
    then show "\<exists>s'. bit_reverse_body (2 ^ m div 2) i s = Some s' \<and> ?P (Suc i) s'" by blast
  qed (use start in blast)
  moreover have "reversed_below m b (2 ^ m - 1) = map (\<lambda>k. b ! brev m k) [0..<2 ^ m]"
  proof (rule nth_equalityI)
    fix k assume "k < length (reversed_below m b (2 ^ m - 1))"
    then have k: "k < 2 ^ m" by simp
    have "brev m k = k" if "\<not> k < 2 ^ m - 1"
    proof -
      have "k = 2 ^ m - 1" using that k by linarith
      then show ?thesis using brev_top [of m] by simp
    qed
    then show "reversed_below m b (2 ^ m - 1) ! k = map (\<lambda>k. b ! brev m k) [0..<2 ^ m] ! k"
      using k by (auto simp: reversed_below_nth)
  qed simp
  ultimately show ?thesis by (simp add: bit_reverse_def del: upt_conv_Nil)
qed

section \<open>One stage of butterflies\<close>

text \<open>
  With \<open>h = le2\<close>, the pair of an index \<open>p\<close> is \<open>p\<close>, \<open>p + h\<close> when \<open>p div h\<close> is even, and
  \<open>p - h\<close>, \<open>p\<close> otherwise; its factor is the one of \<open>p mod h\<close>.
\<close>

definition pair_base :: "nat \<Rightarrow> nat \<Rightarrow> nat" where
  "pair_base h p = (if even (p div h) then p else p - h)"

definition butterfly_entry :: "'a arith \<Rightarrow> nat \<Rightarrow> 'a cpx \<Rightarrow> 'a cpx list \<Rightarrow> nat \<Rightarrow> 'a cpx" where
  "butterfly_entry A h u b p =
     (if even (p div h) then cadd A (b ! p) (cmul A u (b ! (p + h)))
      else csub A (b ! (p - h)) (cmul A u (b ! p)))"

lemma div_add_self: "0 < h \<Longrightarrow> (p + h) div h = Suc (p div (h :: nat))"
  by simp

lemma odd_div_ge: "odd (p div h) \<Longrightarrow> (h :: nat) \<le> p"
  by (metis div_less even_zero linorder_le_less_linear)

lemma div_diff_self: "odd (p div h) \<Longrightarrow> (p - h) div h = p div (h :: nat) - 1"
  by (metis div_by_0 div_if even_zero le_div_geq linorder_not_less neq0_conv odd_div_ge diff_Suc_1)

lemma pair_base_eq:
  assumes "0 < h" and "even (i div h)"
  shows "pair_base h p = i \<longleftrightarrow> p = i \<or> p = i + h"
proof (cases "even (p div h)")
  case True
  then show ?thesis using assms by (auto simp: pair_base_def)
next
  case False
  then show ?thesis using assms odd_div_ge [OF False] by (auto simp: pair_base_def)
qed

lemma pair_base_mod: "0 < h \<Longrightarrow> pair_base h p mod h = p mod h"
  using odd_div_ge [of p h] by (auto simp: pair_base_def le_mod_geq)

lemma even_pair_base: "0 < h \<Longrightarrow> even (pair_base h p div h)"
  by (auto simp: pair_base_def div_diff_self)

definition pairs_done ::
  "'a arith \<Rightarrow> nat \<Rightarrow> (nat \<Rightarrow> 'a cpx) \<Rightarrow> 'a cpx list \<Rightarrow> nat set \<Rightarrow> 'a cpx list" where
  "pairs_done A h u b S =
     map (\<lambda>p. if pair_base h p \<in> S then butterfly_entry A h (u (p mod h)) b p else b ! p) [0..<length b]"

lemma length_pairs_done [simp]: "length (pairs_done A h u b S) = length b"
  by (simp add: pairs_done_def)

lemma pairs_done_nth:
  "p < length b \<Longrightarrow> pairs_done A h u b S ! p =
     (if pair_base h p \<in> S then butterfly_entry A h (u (p mod h)) b p else b ! p)"
  by (simp add: pairs_done_def)

lemma pairs_done_empty [simp]: "pairs_done A h u b {} = b"
  by (simp add: pairs_done_def map_nth)

lemma butterfly_pairs:
  assumes h: "0 < h" and i: "even (i div h)" "i \<notin> S" and len: "i + h < length b"
  shows "butterfly A h (u (i mod h)) i (pairs_done A h u b S) = Some (pairs_done A h u b (insert i S))"
proof -
  let ?c = "pairs_done A h u b S"
  have base: "pair_base h i = i" "pair_base h (i + h) = i" using pair_base_eq [OF h i(1)] by blast+
  have ci: "?c ! i = b ! i" "?c ! (i + h) = b ! (i + h)"
    using base i(2) len by (simp_all add: pairs_done_nth)
  have odd: "odd ((i + h) div h)" using h i(1) by simp
  have "butterfly A h (u (i mod h)) i ?c =
        Some (?c[i + h := csub A (b ! i) (cmul A (u (i mod h)) (b ! (i + h))),
                 i := cadd A (b ! i) (cmul A (u (i mod h)) (b ! (i + h)))])"
    using len by (simp add: butterfly_def ci Let_def)
  moreover have "\<dots> = Some (pairs_done A h u b (insert i S))"
  proof (rule arg_cong [of _ _ Some], rule nth_equalityI)
    fix p assume "p < length (?c[i + h := csub A (b ! i) (cmul A (u (i mod h)) (b ! (i + h))),
                 i := cadd A (b ! i) (cmul A (u (i mod h)) (b ! (i + h)))])"
    then have p: "p < length b" by simp
    show "?c[i + h := csub A (b ! i) (cmul A (u (i mod h)) (b ! (i + h))),
                 i := cadd A (b ! i) (cmul A (u (i mod h)) (b ! (i + h)))] ! p =
          pairs_done A h u b (insert i S) ! p"
      using pair_base_eq [OF h i(1), of p] p len h i(1) odd
      by (cases "p = i"; cases "p = i + h")
         (auto simp: pairs_done_nth butterfly_entry_def)
  qed simp
  ultimately show ?thesis by simp
qed

text \<open>The pairs one value of \<open>j\<close> in the code handles.\<close>

lemma index_from_step_set:
  assumes "0 < h" and "a < h"
  shows "i \<in> set (index_from_step a (2 * h) len) \<longleftrightarrow> i < len \<and> i mod h = a \<and> even (i div h)"
proof -
  have "(a \<le> i \<and> (i - a) mod (2 * h) = 0) \<longleftrightarrow> i mod h = a \<and> even (i div h)" (is "?L \<longleftrightarrow> ?R")
  proof
    assume ?L
    then obtain k where "i - a = 2 * h * k" by (auto simp: mod_eq_0_iff_dvd)
    then have "i = a + h * (2 * k)" using \<open>?L\<close> by (simp add: algebra_simps)
    then show ?R using assms by simp
  next
    assume r: ?R
    then obtain k where "i div h = 2 * k" by blast
    then have i: "i = a + 2 * h * k" using r div_mult_mod_eq [of i h] by (simp add: algebra_simps)
    show ?L unfolding i by simp
  qed
  then show ?thesis by (auto simp: index_from_step_def)
qed

lemma distinct_index_from_step: "distinct (index_from_step a le len)"
  by (simp add: index_from_step_def)

lemma butterfly_loop:
  assumes "0 < h" "distinct is" "set is \<inter> S = {}"
    and "\<And>i. i \<in> set is \<Longrightarrow> even (i div h) \<and> i mod h = a \<and> i + h < length b"
  shows "for_loop is (butterfly A h (u a)) (pairs_done A h u b S) = Some (pairs_done A h u b (S \<union> set is))"
  using assms(2-)
proof (induction "is" arbitrary: S)
  case (Cons i js)
  have i: "even (i div h)" "i mod h = a" "i + h < length b" using Cons.prems(3) by auto
  have "butterfly A h (u a) i (pairs_done A h u b S) = Some (pairs_done A h u b (insert i S))"
    using butterfly_pairs [OF assms(1) i(1) _ i(3), of S A u] Cons.prems(2) i(2) by simp
  moreover have "for_loop js (butterfly A h (u a)) (pairs_done A h u b (insert i S)) =
                 Some (pairs_done A h u b (insert i S \<union> set js))"
    using Cons.prems by (intro Cons.IH) auto
  ultimately show ?case by simp
qed simp

text \<open>The factors \<open>u\<close> takes: repeated multiplication by the rotation factor.\<close>

fun twiddle :: "'a arith \<Rightarrow> nat \<Rightarrow> nat \<Rightarrow> 'a cpx" where
  "twiddle A h 0 = \<lparr>re = a_one A, im = a_zero A\<rparr>"
| "twiddle A h (Suc k) = cmul A (twiddle A h k) (rot_factor A h)"

text \<open>A whole stage combines every pair once.\<close>

definition stage_result :: "'a arith \<Rightarrow> nat \<Rightarrow> 'a cpx list \<Rightarrow> 'a cpx list" where
  "stage_result A h b = map (\<lambda>p. butterfly_entry A h (twiddle A h (p mod h)) b p) [0..<length b]"

lemma pair_inside:
  assumes "0 < h" and "even (i div h)" and "i < 2 * h * (k :: nat)"
  shows "i + h < 2 * h * k"
proof -
  have "i div h < 2 * k" using assms(1,3) by (simp add: less_mult_imp_div_less mult.commute mult.left_commute)
  then have "i div h + 1 < 2 * k" using assms(2) by (auto elim!: evenE)
  then have "(i + h) div h < 2 * k" using assms(1) by simp
  then show ?thesis using div_less_iff_less_mult [OF assms(1), of "i + h" "2 * k"] by (simp only: ac_simps)
qed

definition bases_below :: "nat \<Rightarrow> nat \<Rightarrow> nat \<Rightarrow> nat set" where
  "bases_below h len a = {i. i < len \<and> even (i div h) \<and> i mod h < a}"

lemma fft_stage_body_step:
  assumes h: "0 < h" "2 ^ l = 2 * h" and a: "a < h" and len: "length b = 2 * h * k"
  shows "fft_stage_body A (length b) l (Suc a)
           (pairs_done A h (twiddle A h) b (bases_below h (length b) a), twiddle A h a) =
         Some (pairs_done A h (twiddle A h) b (bases_below h (length b) (Suc a)), twiddle A h (Suc a))"
proof -
  let ?is = "index_from_step a (2 * h) (length b)" and ?S = "bases_below h (length b)"
  have m: "\<And>i. i \<in> set ?is \<longleftrightarrow> i < length b \<and> i mod h = a \<and> even (i div h)"
    by (rule index_from_step_set [OF h(1) a])
  have "for_loop ?is (butterfly A h (twiddle A h a)) (pairs_done A h (twiddle A h) b (?S a)) =
        Some (pairs_done A h (twiddle A h) b (?S a \<union> set ?is))"
  proof (rule butterfly_loop [OF h(1) distinct_index_from_step, where a = a and u = "twiddle A h"])
    show "set ?is \<inter> ?S a = {}" unfolding disjoint_iff m by (simp add: bases_below_def)
    show "even (i div h) \<and> i mod h = a \<and> i + h < length b" if "i \<in> set ?is" for i
      using that [unfolded m] pair_inside [OF h(1), of i k] by (simp add: len)
  qed
  moreover have "?S a \<union> set ?is = ?S (Suc a)"
    unfolding set_eq_iff Un_iff m by (auto simp: bases_below_def less_Suc_eq)
  ultimately show ?thesis unfolding fft_stage_body_def h(2) by simp
qed

lemma fft_stage_eq:
  assumes h: "0 < h" "2 ^ l = 2 * h" and len: "length b = 2 * h * k"
  shows "fft_stage A (length b) l b = Some (stage_result A h b)"
proof -
  let ?S = "bases_below h (length b)"
  let ?P = "\<lambda>j s. s = (pairs_done A h (twiddle A h) b (?S (j - 1)), twiddle A h (j - 1))"
  have "\<exists>s. for_loop [1..<Suc h] (fft_stage_body A (length b) l)
             (b, \<lparr>re = a_one A, im = a_zero A\<rparr>) = Some s \<and> ?P (Suc h) s"
  proof (rule for_loop_upt_inv)
    fix j s assume j: "1 \<le> j" "j < Suc h" and s: "?P j s"
    then obtain a where a: "j = Suc a" "a < h" by (cases j) auto
    show "\<exists>s'. fft_stage_body A (length b) l j s = Some s' \<and> ?P (Suc j) s'"
      using fft_stage_body_step [OF h a(2) len, of A] s a by simp
  qed (auto simp: bases_below_def)
  moreover have "pairs_done A h (twiddle A h) b (?S h) = stage_result A h b"
  proof (rule nth_equalityI)
    fix p assume "p < length (pairs_done A h (twiddle A h) b (?S h))"
    then have p: "p < length b" by simp
    have "pair_base h p \<le> p" by (simp add: pair_base_def)
    then have "pair_base h p \<in> ?S h" using p h(1) even_pair_base [OF h(1), of p] by (simp add: bases_below_def)
    then show "pairs_done A h (twiddle A h) b (?S h) ! p = stage_result A h b ! p"
      using p by (simp add: pairs_done_nth stage_result_def)
  qed (simp add: stage_result_def)
  ultimately show ?thesis by (auto simp: fft_stage_def h(2))
qed

section \<open>The recursive transform\<close>

text \<open>Entry \<open>k\<close> of the transform of \<open>x 0, \<dots>, x (2 ^ l - 1)\<close>.\<close>

fun dit :: "'a arith \<Rightarrow> nat \<Rightarrow> (nat \<Rightarrow> 'a cpx) \<Rightarrow> nat \<Rightarrow> 'a cpx" where
  "dit A 0 x k = x k"
| "dit A (Suc l) x k =
     (let j = k mod 2 ^ l;
          e = dit A l (\<lambda>n. x (2 * n)) j;
          t = cmul A (twiddle A (2 ^ l) j) (dit A l (\<lambda>n. x (2 * n + 1)) j)
      in if k < 2 ^ l then cadd A e t else csub A e t)"

lemma dit_cong: "(\<And>n. n < 2 ^ l \<Longrightarrow> x n = y n) \<Longrightarrow> k < 2 ^ l \<Longrightarrow> dit A l x k = dit A l y k"
proof (induction l arbitrary: x y k)
  case (Suc l)
  have "dit A l (\<lambda>n. x (2 * n)) j = dit A l (\<lambda>n. y (2 * n)) j"
       "dit A l (\<lambda>n. x (2 * n + 1)) j = dit A l (\<lambda>n. y (2 * n + 1)) j" if "j < 2 ^ l" for j
    using that Suc.prems(1) by (auto intro!: Suc.IH)
  then show ?case by (simp add: Let_def)
qed simp

text \<open>After \<open>l\<close> stages every block of \<open>2 ^ l\<close> entries is the transform of its inputs.\<close>

definition after_stages :: "'a arith \<Rightarrow> nat \<Rightarrow> (nat \<Rightarrow> 'a cpx) \<Rightarrow> nat \<Rightarrow> 'a cpx list" where
  "after_stages A m y l =
     map (\<lambda>p. dit A l (\<lambda>n. y (2 ^ l * (p div 2 ^ l) + brev l n)) (p mod 2 ^ l)) [0..<2 ^ m]"

lemma length_after_stages [simp]: "length (after_stages A m y l) = 2 ^ m"
  by (simp add: after_stages_def)

lemma stage_after_stages:
  assumes "l < m"
  shows "stage_result A (2 ^ l) (after_stages A m y l) = after_stages A m y (Suc l)"
proof (rule nth_equalityI)
  let ?h = "2 ^ l :: nat" and ?b = "after_stages A m y l"
  fix p assume "p < length (stage_result A ?h ?b)"
  then have p: "p < 2 ^ m" by (simp add: stage_result_def)
  obtain k where "m = Suc (l + k)" using less_imp_Suc_add [OF assms] by blast
  then have m: "2 ^ m = 2 * ?h * 2 ^ k" by (simp add: power_add)
  have mod2: "Suc (n * 2) mod 2 = 1" "Suc (n * 2) div 2 = n" for n :: nat by presburger+
  define q r where "q = p div ?h" and "r = p mod ?h"
  have pqr: "p = ?h * q + r" and r: "r < ?h" by (simp_all add: q_def r_def)
  have dd: "p div (2 * ?h) = q div 2" "p mod (2 * ?h) = ?h * (q mod 2) + r"
    unfolding q_def r_def mult.commute [of 2 ?h] div_mult2_eq mod_mult2_eq by simp_all
  have blk: "?b ! (?h * c + d) = dit A l (\<lambda>n. y (?h * c + brev l n)) d" if "?h * c + d < 2 ^ m" "d < ?h" for c d
    using that by (simp add: after_stages_def)
  have big: "after_stages A m y (Suc l) ! p =
     dit A (Suc l) (\<lambda>n. y (2 * ?h * (p div (2 * ?h)) + brev (Suc l) n)) (p mod (2 * ?h))"
    using p by (simp add: after_stages_def del: dit.simps)
  have pd: "p div ?h = q" "p mod ?h = r" by (simp_all add: q_def r_def)
  show "stage_result A ?h ?b ! p = after_stages A m y (Suc l) ! p"
  proof (cases "even q")
    case True
    then obtain s where s: "q = 2 * s" by blast
    have d: "p div (2 * ?h) = s" "p mod (2 * ?h) = r"
      using dd s by simp_all
    have up: "p + ?h < 2 ^ m" using pair_inside [of ?h p "2 ^ k"] True p m pd by simp
    have "?b ! p = dit A l (\<lambda>n. y (?h * q + brev l n)) r" using blk [of q r] p r pqr by simp
    moreover have "?b ! (p + ?h) = dit A l (\<lambda>n. y (?h * Suc q + brev l n)) r"
      using blk [of "Suc q" r] up r pqr by (simp add: add.commute add.left_commute)
    ultimately show ?thesis unfolding big d
      using p r s pd by (simp add: stage_result_def butterfly_entry_def Let_def ac_simps mod2)
  next
    case False
    then obtain s where s: "q = Suc (2 * s)" by (auto elim: oddE)
    have d: "p div (2 * ?h) = s" "p mod (2 * ?h) = ?h + r"
      using dd s by simp_all
    have "?b ! p = dit A l (\<lambda>n. y (?h * q + brev l n)) r" using blk [of q r] p r pqr by simp
    moreover have "?b ! (p - ?h) = dit A l (\<lambda>n. y (?h * (2 * s) + brev l n)) r"
      using blk [of "2 * s" r] p r pqr s by simp
    ultimately show ?thesis unfolding big d
      using p r s pd by (simp add: stage_result_def butterfly_entry_def Let_def ac_simps mod2)
  qed
qed (simp add: stage_result_def)

text \<open>The stages of the code on the reversed input, and the exchange of the halves.\<close>

lemma fft_stages:
  "for_loop [1..<Suc m] (fft_stage A (2 ^ m)) (after_stages A m y 0) = Some (after_stages A m y m)"
proof -
  let ?P = "\<lambda>l s. s = after_stages A m y (l - 1)"
  have "\<exists>s. for_loop [1..<Suc m] (fft_stage A (2 ^ m)) (after_stages A m y 0) = Some s \<and> ?P (Suc m) s"
  proof (rule for_loop_upt_inv)
    fix l s assume l: "1 \<le> l" "l < Suc m" and s: "?P l s"
    then obtain i where i: "l = Suc i" "i < m" by (cases l) auto
    then obtain k where "m = Suc (i + k)" using less_imp_Suc_add by blast
    then have "length (after_stages A m y i) = 2 * 2 ^ i * 2 ^ k" by (simp add: power_add)
    then have "fft_stage A (2 ^ m) l (after_stages A m y i) = Some (stage_result A (2 ^ i) (after_stages A m y i))"
      using fft_stage_eq [of "2 ^ i" l "after_stages A m y i" "2 ^ k" A] i by simp
    then show "\<exists>s'. fft_stage A (2 ^ m) l s = Some s' \<and> ?P (Suc l) s'"
      using s i stage_after_stages [OF i(2), of A y] by simp
  qed simp_all
  then show ?thesis by simp
qed

definition halves_below :: "nat \<Rightarrow> 'a list \<Rightarrow> nat \<Rightarrow> 'a list" where
  "halves_below h b i =
     map (\<lambda>k. if k < h then (if k < i then b ! (h + k) else b ! k)
              else (if k < h + i then b ! (k - h) else b ! k)) [0..<2 * h]"

lemma halves_below_swap:
  assumes "i < h"
  shows "swap_cells (halves_below h b i) i (h + i) = Some (halves_below h b (Suc i))"
proof -
  have "(halves_below h b i)[h + i := b ! i, i := b ! (h + i)] = halves_below h b (Suc i)"
  proof (rule nth_equalityI)
    fix k assume "k < length ((halves_below h b i)[h + i := b ! i, i := b ! (h + i)])"
    then have "k < 2 * h" by (simp add: halves_below_def)
    then show "(halves_below h b i)[h + i := b ! i, i := b ! (h + i)] ! k = halves_below h b (Suc i) ! k"
      using assms by (cases "k = i"; cases "k = h + i") (simp_all add: halves_below_def)
  qed (simp add: halves_below_def)
  moreover have "halves_below h b i ! i = b ! i" "halves_below h b i ! (h + i) = b ! (h + i)"
    "length (halves_below h b i) = 2 * h"
    using assms by (simp_all add: halves_below_def)
  ultimately show ?thesis using assms by (simp add: swap_cells_Some)
qed

lemma swap_halves:
  assumes "length b = 2 * h"
  shows "for_loop [0..<h] (\<lambda>i b. swap_cells b i (h + i)) b =
         Some (map (\<lambda>k. b ! ((k + h) mod (2 * h))) [0..<2 * h])"
proof -
  let ?P = "\<lambda>i s. s = halves_below h b i"
  have start: "b = halves_below h b 0"
    using assms by (intro nth_equalityI) (auto simp: halves_below_def)
  have "\<exists>s. for_loop [0..<h] (\<lambda>i b. swap_cells b i (h + i)) b = Some s \<and> ?P h s"
    by (rule for_loop_upt_inv) (use start in \<open>simp_all add: halves_below_swap\<close>)
  moreover have "halves_below h b h = map (\<lambda>k. b ! ((k + h) mod (2 * h))) [0..<2 * h]"
    by (rule nth_equalityI) (auto simp: halves_below_def add.commute le_mod_geq)
  ultimately show ?thesis by simp
qed

lemma fft_log_power: "fft_log (2 ^ m) = m"
proof (induction m)
  case (Suc m)
  have "(1 :: nat) < 2 ^ Suc m" by (rule one_less_power) auto
  then show ?case using Suc by (subst fft_log.simps) simp
qed (simp add: fft_log.simps)

section \<open>The in-place transform computes the recursive one\<close>

lemma fft_eq_recursive_raw:
  assumes "length b = 2 ^ m"
  shows "fft A b (2 ^ m) =
         Some (map (\<lambda>k. dit A m (\<lambda>n. b ! n) ((k + 2 ^ m div 2) mod 2 ^ m)) [0..<2 ^ m])"
proof -
  let ?y = "\<lambda>n. b ! brev m n"
  have start: "bit_reverse b (2 ^ m) = Some (after_stages A m ?y 0)"
    using bit_reverse_eq [OF assms] by (simp add: after_stages_def)
  have "after_stages A m ?y m = map (dit A m (\<lambda>n. ?y (brev m n))) [0..<2 ^ m]"
    by (simp add: after_stages_def)
  also have "\<dots> = map (dit A m (\<lambda>n. b ! n)) [0..<2 ^ m]"
    using dit_cong [of m "\<lambda>n. ?y (brev m n)" "\<lambda>n. b ! n" _ A] by (simp add: brev_brev)
  finally have stages: "after_stages A m ?y m = map (dit A m (\<lambda>n. b ! n)) [0..<2 ^ m]" .
  have "for_loop [0..<2 ^ m div 2] (\<lambda>i b. swap_cells b i (2 ^ m div 2 + i)) (after_stages A m ?y m) =
        Some (map (\<lambda>k. dit A m (\<lambda>n. b ! n) ((k + 2 ^ m div 2) mod 2 ^ m)) [0..<2 ^ m])"
  proof (cases m)
    case 0
    then show ?thesis by (simp add: after_stages_def brev_0)
  next
    case (Suc n)
    show ?thesis using swap_halves [of "after_stages A m ?y m" "2 ^ n"] unfolding stages
      by (simp add: Suc del: dit.simps)
  qed
  then show ?thesis by (simp add: fft_def start fft_log_power fft_stages del: upt_Suc One_nat_def)
qed

text \<open>
  C7 (equivalence). For every scalar arithmetic, in particular the binary32 operations of the
  code with whatever rotation factors its \<open>cos\<close> and \<open>sin\<close> give, and every power of
  two: the in-place \<open>fft\<close> ends, stays inside the buffer, and its result is, bit for bit,
  that of the recursive decimation-in-time transform with the two halves exchanged.
\<close>

theorem fft_eq_recursive:
  assumes "length b = 2 ^ m"
  shows "fft A b (2 ^ m) =
         Some (map (\<lambda>k. dit A m (\<lambda>n. b ! n) ((k + 2 ^ m div 2) mod 2 ^ m)) [0..<2 ^ m])"
  by (rule fft_eq_recursive_raw [OF assms])

theorem fft_eq_recursive_witness:
  "\<exists>b' :: nat cpx list. fft \<lparr>a_add = (+), a_sub = (-), a_mul = (*), a_one = 1, a_zero = 0,
            rot_factor = (\<lambda>_. \<lparr>re = 1, im = 0\<rparr>)\<rparr> (replicate 4 \<lparr>re = 2, im = 0\<rparr>) (2 ^ 2) = Some b' \<and>
        length b' = 4"
  by (subst fft_eq_recursive) simp_all

section \<open>The recursive transform is the discrete Fourier transform\<close>

text \<open>
  What the argument needs of an arithmetic: it represents a commutative ring, and the
  rotation factors are the principal roots of unity.
\<close>

locale fft_ring =
  fixes A :: "'a arith"
    and cv :: "'a cpx \<Rightarrow> 'b :: comm_ring_1"
    and W :: "nat \<Rightarrow> 'b"
  assumes cv_add: "cv (cadd A x y) = cv x + cv y"
    and cv_sub: "cv (csub A x y) = cv x - cv y"
    and cv_mul: "cv (cmul A x y) = cv x * cv y"
    and cv_one: "cv \<lparr>re = a_one A, im = a_zero A\<rparr> = 1"
    and cv_rot: "cv (rot_factor A (2 ^ l)) = W (Suc l)"
    and root_one: "W 0 = 1"
    and root_square: "W (Suc l) ^ 2 = W l"
    and root_half: "W (Suc l) ^ (2 ^ l) = - 1"
begin

lemma cv_twiddle: "cv (twiddle A (2 ^ l) k) = W (Suc l) ^ k"
  by (induction k) (simp_all add: cv_one cv_mul cv_rot mult.commute)

lemma root_full: "W l ^ (2 ^ l) = 1"
proof (cases l)
  case (Suc k)
  then have "W l ^ (2 ^ l) = (W (Suc k) ^ 2 ^ k) ^ 2"
    by (simp only: power_mult [symmetric] power_Suc mult.commute)
  then show ?thesis by (simp only: root_half) simp
qed (simp add: root_one)

lemma sum_even_odd: "(\<Sum>n<2 * (h :: nat). f n :: 'b) = (\<Sum>n<h. f (2 * n)) + (\<Sum>n<h. f (2 * n + 1))"
  by (induction h) (simp_all add: algebra_simps)

lemma root_even: "W (Suc l) ^ (2 * n * k) = W l ^ (n * k)"
  by (simp only: root_square [of l, symmetric] power_mult [symmetric] mult.assoc)

lemma root_wrap: "W l ^ (n * (2 ^ l + j)) = W l ^ (n * j)"
  by (simp only: distrib_left power_add mult.commute [of n "2 ^ l"] power_mult root_full power_one mult_1_left)

theorem dit_dft: "k < 2 ^ l \<Longrightarrow> cv (dit A l x k) = (\<Sum>n<2 ^ l. cv (x n) * W l ^ (n * k))"
proof (induction l arbitrary: x k)
  case 0
  then show ?case by simp
next
  case (Suc l)
  let ?h = "2 ^ l :: nat" and ?w = "W (Suc l)"
  define j where "j = k mod ?h"
  have j: "j < ?h" by (simp add: j_def)
  have odd: "?w ^ ((2 * n + 1) * k) = W l ^ (n * k) * ?w ^ k" for n
    by (simp only: distrib_right power_add root_even mult_1_left)
  define e where "e = (\<Sum>n<?h. cv (x (2 * n)) * W l ^ (n * j))"
  define d where "d = (\<Sum>n<?h. cv (x (2 * n + 1)) * W l ^ (n * j))"
  have wj: "W l ^ (n * k) = W l ^ (n * j)" for n
  proof (cases "k < ?h")
    case False
    then have "k = ?h + j" using Suc.prems by (simp add: j_def le_mod_geq)
    then show ?thesis by (simp only: root_wrap)
  qed (simp add: j_def)
  have "(\<Sum>n<2 ^ Suc l. cv (x n) * ?w ^ (n * k)) = e + d * ?w ^ k"
    unfolding power_Suc sum_even_odd root_even odd wj e_def d_def by (simp add: sum_distrib_right mult.assoc)
  moreover have "cv (dit A (Suc l) x k) = (if k < ?h then e + ?w ^ j * d else e - ?w ^ j * d)"
    using Suc.IH [OF j] by (simp add: Let_def j_def [symmetric] cv_add cv_sub cv_mul cv_twiddle e_def d_def)
  moreover have "?w ^ k = (if k < ?h then ?w ^ j else - (?w ^ j))"
  proof (cases "k < ?h")
    case False
    then have "k = ?h + j" using Suc.prems by (simp add: j_def le_mod_geq)
    then show ?thesis using False by (simp only: power_add root_half) simp
  qed (simp add: j_def)
  ultimately show ?case by (simp add: mult.commute)
qed

end

text \<open>The exact arithmetic: real numbers and the true rotation factors.\<close>

definition exact_arith :: "real arith" where
  "exact_arith =
     \<lparr>a_add = (+), a_sub = (-), a_mul = (*), a_one = 1, a_zero = 0,
      rot_factor = (\<lambda>le2. \<lparr>re = cos (pi / real le2), im = - sin (pi / real le2)\<rparr>)\<rparr>"

definition complex_of :: "real cpx \<Rightarrow> complex" where
  "complex_of x = Complex (re x) (im x)"

definition unity_root :: "nat \<Rightarrow> complex" where
  "unity_root l = cis (- (2 * pi / 2 ^ l))"

interpretation exact: fft_ring exact_arith complex_of unity_root
proof unfold_locales
  show "complex_of (rot_factor exact_arith (2 ^ l)) = unity_root (Suc l)" for l
    by (simp add: complex_of_def exact_arith_def unity_root_def cis.ctr complex_eq_iff)
  show "unity_root (Suc l) ^ 2 = unity_root l" for l
    by (simp add: unity_root_def DeMoivre)
  show "unity_root (Suc l) ^ (2 ^ l) = - 1" for l
    by (simp add: unity_root_def DeMoivre) (simp add: complex_eq_iff)
qed (simp_all add: complex_of_def exact_arith_def cadd_def csub_def cmul_def unity_root_def complex_eq_iff)

text \<open>
  C13 (functional). In exact arithmetic \<open>fft\<close> is the discrete Fourier transform of its input,
  with the zero frequency moved to the middle of the buffer.
\<close>

theorem fft_is_dft:
  assumes "length b = 2 ^ m"
  shows "\<exists>b'. fft exact_arith b (2 ^ m) = Some b' \<and> length b' = 2 ^ m \<and>
           (\<forall>k<2 ^ m. complex_of (b' ! k) =
              (\<Sum>n<2 ^ m. complex_of (b ! n) * unity_root m ^ (n * ((k + 2 ^ m div 2) mod 2 ^ m))))"
  by (simp add: fft_eq_recursive_raw [OF assms] exact.dit_dft)

theorem fft_is_dft_witness:
  "\<exists>b'. fft exact_arith [\<lparr>re = 3, im = 0\<rparr>, \<lparr>re = 1, im = 0\<rparr>] (2 ^ 1) = Some b' \<and> length b' = 2 ^ 1"
  using fft_is_dft [of "[\<lparr>re = 3, im = 0\<rparr>, \<lparr>re = 1, im = 0\<rparr>]" 1] by auto

end
