(* ===== verification/Float_Bounds.thy ===== *)
theory Float_Bounds
  imports C_Float
begin

text \<open>
  Rounding does not cross a power of two: the rounded value of a number between 0 and
  \<open>2 ^ k\<close> is again finite and between 0 and \<open>2 ^ k\<close>.
\<close>

lemma flog2_le: "0 < x \<Longrightarrow> 2 powi flog2 x \<le> x"
proof (induction x rule: flog2.induct)
  case (1 x)
  consider "2 \<le> x" | "x < 1" | "1 \<le> x" "x < 2" by linarith
  then show ?case
  proof cases
    case 1
    then have "2 powi flog2 (x / 2) \<le> x / 2" using "1.IH"(1) "1.prems" by simp
    with 1 show ?thesis by (subst flog2.simps) (simp add: power_int_add)
  next
    case 2
    then have "2 powi flog2 (x * 2) \<le> x * 2" using "1.IH"(2) "1.prems" by simp
    with 2 "1.prems" show ?thesis by (subst flog2.simps) (simp add: power_int_diff)
  next
    case 3
    then show ?thesis by (subst flog2.simps) simp
  qed
qed

lemma round_half_even_le: "x \<le> of_int n \<Longrightarrow> round_half_even x \<le> n"
proof -
  assume x: "x \<le> of_int n"
  have "\<lfloor>x\<rfloor> \<le> n" using x by (simp add: floor_le_iff)
  moreover have "\<lfloor>x\<rfloor> < n" if "of_int \<lfloor>x\<rfloor> < x" using x that by linarith
  ultimately show ?thesis by (auto simp: round_half_even_def Let_def)
qed

lemma round_half_even_nonneg: "0 \<le> x \<Longrightarrow> 0 \<le> round_half_even x"
  by (auto simp: round_half_even_def Let_def)

lemma rnd_bounds:
  assumes "0 \<le> x" and "x \<le> 2 powi k" and "min_ulp F \<le> k" and "k < max_exp F" and "1 \<le> precision F"
  shows "finite_flt (rnd F s x) \<and> 0 \<le> val (rnd F s x) \<and> val (rnd F s x) \<le> 2 powi k"
proof (cases "x = 0")
  case True
  then show ?thesis by (simp add: rnd_def)
next
  case False
  then have x: "0 < x" using assms(1) by simp
  define e where "e = max (flog2 x - (int (precision F) - 1)) (min_ulp F)"
  have "2 powi flog2 x \<le> (2 :: rat) powi k" using flog2_le [OF x] assms(2) by (rule order_trans)
  then have "flog2 x \<le> k" using power_int_strict_increasing [of k "flog2 x" "2 :: rat"] by fastforce
  then have e: "e \<le> k" using assms(3,5) by (simp add: e_def)
  have q: "ulp F x = 2 powi e" "0 < ulp F x" using x by (simp_all add: ulp_def e_def)
  have "x / ulp F x \<le> 2 powi k / 2 powi e" using assms(2) q by (simp add: divide_right_mono)
  also have "\<dots> = 2 powi (k - e)" by (simp add: power_int_diff)
  also have "\<dots> = of_int (2 ^ nat (k - e))" using e by (simp add: power_int_def)
  finally have "round_half_even (x / ulp F x) \<le> 2 ^ nat (k - e)" by (rule round_half_even_le)
  then have "of_int (round_half_even (x / ulp F x)) \<le> (of_int (2 ^ nat (k - e)) :: rat)"
    by (simp only: of_int_le_iff)
  then have "of_int (round_half_even (x / ulp F x)) * ulp F x \<le> (2 :: rat) ^ nat (k - e) * ulp F x"
    using q(2) by (intro mult_right_mono) simp_all
  also have "(2 :: rat) ^ nat (k - e) = 2 powi (k - e)" using e by (simp add: power_int_def)
  also have "\<dots> * ulp F x = 2 powi k" using q(1) by (simp add: power_int_diff)
  finally have hi: "of_int (round_half_even (x / ulp F x)) * ulp F x \<le> 2 powi k" .
  have lo: "0 \<le> of_int (round_half_even (x / ulp F x)) * ulp F x"
    using round_half_even_nonneg [of "x / ulp F x"] x q(2) by simp
  have "(2 :: rat) powi k < 2 powi max_exp F" using assms(4) by (simp add: power_int_strict_increasing)
  then show ?thesis using hi lo x by (simp add: rnd_def Let_def)
qed

end
