(* ===== verification/Iq_Safety.thy ===== *)
theory Iq_Safety
  imports Iq_Balancer Iq_Fft_Correct Float_Bounds
begin

text \<open>
  The IQ balancer stays inside its buffers: a well-formedness invariant of the balancer that
  creation establishes, and that configuration, retuning and every processed block keep,
  with no access outside an array, no division by zero and no \<open>int\<close> overflow.
\<close>

section \<open>Well-formed balancers\<close>

text \<open>The parameters \<open>iq_balancer_configure\<close> has to be given.\<close>

definition iq_parameters_ok :: "int \<Rightarrow> int \<Rightarrow> int \<Rightarrow> int \<Rightarrow> bool" where
  "iq_parameters_ok skip integration overlap correlation \<longleftrightarrow>
     skip < 2 ^ 31 - 1 \<and> 0 \<le> integration \<and> 0 < overlap \<and> 0 \<le> correlation \<and>
     correlation * integration + integration < 2 ^ 31"

definition iq_lib_wf :: "iq_lib \<Rightarrow> bool" where
  "iq_lib_wf L \<longleftrightarrow> length (fft_window L) = FFTBins \<and> length (boost_window L) = FFTBins"

definition iq_shape :: "iq_balancer_t \<Rightarrow> bool" where
  "iq_shape b \<longleftrightarrow>
     length (raw_phases b) = MaxLookback \<and> length (raw_amplitudes b) = MaxLookback \<and>
     raw_ptr b < MaxLookback \<and> no_of_raw b \<le> MaxLookback \<and>
     length (working_buffer b) = WorkingBufferLength \<and> working_buffer_pos b < WorkingBufferLength \<and>
     length (corr b) = FFTBins \<and> length (corr_plus b) = FFTBins \<and> length (boost b) = FFTBins \<and>
     int (length (power_flag b)) = fft_integration b \<and>
     0 \<le> optimal_bin b \<and> optimal_bin b \<le> int FFTBins \<and>
     iq_parameters_ok (buffers_to_skip b) (fft_integration b) (fft_overlap b) (correlation_integration b) \<and>
     0 \<le> skipped_buffers b \<and> skipped_buffers b < 2 ^ 31 - 1"

definition iq_wf :: "iq_balancer_t \<Rightarrow> bool" where
  "iq_wf b \<longleftrightarrow> iq_shape b \<and>
     (reset_flag b \<or> - (2 ^ 31) \<le> no_of_avg b \<and> no_of_avg b \<le> correlation_integration b * fft_integration b)"

lemmas iq_wf_unfold = iq_wf_def iq_shape_def

lemma init_library_wf: "lib_initialized L \<longrightarrow> iq_lib_wf L \<Longrightarrow> iq_lib_wf (init_library M L)"
  by (simp add: init_library_def iq_lib_wf_def)

text \<open>All allocations of \<open>iq_balancer_create\<close> succeeded.\<close>

definition iq_allocated :: "iq_ptrs \<Rightarrow> bool" where
  "iq_allocated q \<longleftrightarrow> iq_ptr q \<noteq> NULL \<and> corr_ptr q \<noteq> NULL \<and> corr_plus_ptr q \<noteq> NULL \<and>
     working_buffer_ptr q \<noteq> NULL \<and> boost_ptr q \<noteq> NULL \<and> power_flag_ptr q \<noteq> NULL"

lemma iq_balancer_fields_wf: "iq_allocated q \<Longrightarrow> iq_wf (iq_balancer_fields J q ph am)"
  by (simp add: iq_balancer_fields_def iq_wf_unfold iq_parameters_ok_def junk_cpxs_def junk_floats_def
      layout_simps BuffersToSkip_def CorrelationIntegration_def iq_allocated_def behind_def)

lemma iq_balancer_create_fields:
  "iq_balancer_create M J E L ph am w = Some (q, b, L', w') \<Longrightarrow>
     b = iq_balancer_fields J q ph am \<and> L' = init_library M L"
  by (auto simp: iq_balancer_create_def Let_def split: prod.splits if_splits)

lemma iq_balancer_configure_wf:
  assumes "iq_wf b" and "iq_parameters_ok skip integration overlap correlation"
    and "iq_balancer_configure E skip integration overlap correlation (q, b) w = Some ((q', b'), w')"
  shows "iq_wf b'"
  using assms
  by (auto simp: iq_balancer_configure_def iq_wf_unfold iq_parameters_ok_def Let_def split: prod.splits if_splits)

section \<open>The sample loops\<close>

text \<open>A loop that replaces entries of a list one by one keeps its length.\<close>

lemma for_loop_keeps_length:
  assumes "length b = n" and "\<And>i b. i \<in> set is \<Longrightarrow> length b = n \<Longrightarrow> \<exists>b'. body i b = Some b' \<and> length b' = n"
  shows "\<exists>b'. for_loop is body b = Some b' \<and> length b' = n"
  using for_loop_inv [where P = "\<lambda>b. length b = n", of b "is" body] assms by blast

lemma cancel_dc_defined:
  assumes "length iq = len"
  shows "\<exists>iq' ia qa. cancel_dc iq len skip b = Some (iq', b\<lparr>iavg := ia, qavg := qa\<rparr>) \<and> length iq' = len"
proof (cases skip)
  case True
  have "\<exists>iq'. for_loop [0..<len] (\<lambda>i iq. do { x \<leftarrow> rd iq i;
          wr iq i \<lparr>re = sub32 (re x) (iavg b), im = sub32 (im x) (qavg b)\<rparr> }) iq = Some iq' \<and> length iq' = len"
    using assms by (intro for_loop_keeps_length) auto
  then obtain iq' where "cancel_dc iq len skip b = Some (iq', b)" "length iq' = len"
    using True by (auto simp: cancel_dc_def)
  moreover have "b = b\<lparr>iavg := iavg b, qavg := qavg b\<rparr>" by simp
  ultimately show ?thesis by metis
next
  case False
  have "\<exists>s. for_loop [0..<len] cancel_dc_body (iq, iavg b, qavg b) = Some s \<and> length (fst s) = len"
    using assms by (intro for_loop_inv) (auto simp: cancel_dc_body_def Let_def)
  then obtain iq' ia qa where "for_loop [0..<len] cancel_dc_body (iq, iavg b, qavg b) = Some (iq', ia, qa)"
    "length iq' = len" by auto
  then have "cancel_dc iq len skip b = Some (iq', b\<lparr>iavg := ia, qavg := qa\<rparr>)"
    using False by (simp add: cancel_dc_def)
  with \<open>length iq' = len\<close> show ?thesis by blast
qed

lemma adjust_benchmark_defined:
  assumes "length iq = FFTBins"
  shows "\<exists>iq' pw. adjust_benchmark iq ph am skip = Some (iq', pw) \<and> length iq' = FFTBins"
proof -
  have "\<exists>s. adjust_benchmark iq ph am skip = Some s \<and> length (fst s) = FFTBins"
    unfolding adjust_benchmark_def using assms by (intro for_loop_inv) auto
  then show ?thesis by auto
qed

lemma window_defined:
  assumes "iq_lib_wf L" "length b = FFTBins"
  shows "\<exists>b'. window L b FFTBins = Some b' \<and> length b' = FFTBins"
  unfolding window_def using assms by (intro for_loop_keeps_length) (auto simp: iq_lib_wf_def)

lemma adjust_phase_amplitude_defined:
  assumes "length iq = len"
  shows "\<exists>iq'. adjust_phase_amplitude iq len b =
           Some (iq', b\<lparr>last_phase := phase b, last_amplitude := amplitude b\<rparr>) \<and> length iq' = len"
proof -
  let ?mix = "\<lambda>i last cur. mul32 (add32 (mul32 (int32f (int i)) last)
     (mul32 (int32f (int len - 1 - int i)) cur)) (div32 (f32 1) (int32f (int len - 1)))"
  have "\<exists>iq'. for_loop [0..<len] (\<lambda>i iq. do { x \<leftarrow> rd iq i;
          wr iq i (rotate_scale (?mix i (last_phase b) (phase b)) (?mix i (last_amplitude b) (amplitude b)) x) }) iq
        = Some iq' \<and> length iq' = len"
    using assms by (intro for_loop_keeps_length) auto
  then show ?thesis by (auto simp: adjust_phase_amplitude_def Let_def)
qed

lemma fft_defined:
  assumes "length b = FFTBins"
  shows "\<exists>b'. fft A b FFTBins = Some b' \<and> length b' = FFTBins"
  using fft_eq_recursive_raw [of b 12 A] assms by (simp add: FFTBins_def)

section \<open>Correlation\<close>

text \<open>What a block of \<open>compute_corr\<close> may change of the balancer.\<close>

definition corr_frame :: "iq_balancer_t \<Rightarrow> iq_balancer_t \<Rightarrow> bool" where
  "corr_frame b b' \<longleftrightarrow> length (power_flag b') = length (power_flag b) \<and> length (boost b') = length (boost b) \<and>
     b' = b\<lparr>power_flag := power_flag b', boost := boost b',
            integrated_total_power := integrated_total_power b',
            integrated_image_power := integrated_image_power b'\<rparr>"

lemma corr_frame_refl [simp]: "corr_frame b b"
  by (simp add: corr_frame_def)

lemma corr_frameE:
  assumes "corr_frame b b'"
  obtains pf bo tp ip where "b' = b\<lparr>power_flag := pf, boost := bo, integrated_total_power := tp,
      integrated_image_power := ip\<rparr>" "length pf = length (power_flag b)" "length bo = length (boost b)"
  using assms unfolding corr_frame_def by metis

lemma corr_frameI:
  "length pf = length (power_flag b) \<Longrightarrow> length bo = length (boost b) \<Longrightarrow>
   corr_frame b (b\<lparr>power_flag := pf, boost := bo, integrated_total_power := tp, integrated_image_power := ip\<rparr>)"
  by (simp add: corr_frame_def)

lemma corr_frame_trans [trans]:
  assumes "corr_frame a b" and "corr_frame b c"
  shows "corr_frame a c"
  using assms by (elim corr_frameE) (simp add: corr_frame_def)

lemma corr_frame_fields:
  assumes "corr_frame b b'"
  shows "fft_overlap b' = fft_overlap b" "optimal_bin b' = optimal_bin b" "no_of_avg b' = no_of_avg b"
    "fft_integration b' = fft_integration b" "correlation_integration b' = correlation_integration b"
    "length (boost b') = length (boost b)" "length (power_flag b') = length (power_flag b)"
    "phase b' = phase b" "amplitude b' = amplitude b" "reset_flag b' = reset_flag b"
    "corr_plus b' = corr_plus b" "corr b' = corr b"
  using assms by (elim corr_frameE; simp)+

lemma corr_frame_shape: "corr_frame b b' \<Longrightarrow> iq_shape b \<Longrightarrow> iq_shape b'"
  by (elim corr_frameE) (simp add: iq_shape_def)

lemma corr_bins_iff: "i \<in> set corr_bins \<longleftrightarrow> 186 \<le> i \<and> i \<le> 3910"
  unfolding corr_bins_def set_upt by (auto simp: EdgeBinsToSkip_def FFTBins_def)

lemma corr_body_defined:
  assumes "length fftPtr = FFTBins" "length ccorr = FFTBins"
  shows "\<exists>c. for_loop corr_bins (corr_body fftPtr) ccorr = Some c \<and> length c = FFTBins"
proof (rule for_loop_keeps_length [OF assms(2)])
  fix i and c :: "complex_t list"
  assume "i \<in> set corr_bins" and c: "length c = FFTBins"
  then have "i < FFTBins" "FFTBins - i < FFTBins" by (simp_all add: corr_bins_iff FFTBins_def)
  then show "\<exists>c'. corr_body fftPtr i c = Some c' \<and> length c' = FFTBins"
    using c assms(1) by (simp add: corr_body_def Let_def)
qed

lemma boost_body_defined:
  assumes "iq_lib_wf L" "length fftPtr = FFTBins" "iq_shape b"
  shows "\<exists>b'. for_loop corr_bins (boost_body L fftPtr) b = Some b' \<and> corr_frame b b'"
proof (rule for_loop_inv)
  fix i c assume i: "i \<in> set corr_bins" and c: "corr_frame b c"
  have wf: "iq_shape c" using corr_frame_shape [OF c assms(3)] .
  have ix: "nat \<bar>int FFTBins - int i - optimal_bin c\<bar> < FFTBins"
    using i wf by (auto simp: corr_bins_iff iq_shape_def FFTBins_def)
  have "i < FFTBins" using i by (simp add: corr_bins_iff FFTBins_def)
  moreover have "length (boost c) = FFTBins" "length (boost_window L) = FFTBins"
    using wf assms(1) by (simp_all add: iq_shape_def iq_lib_wf_def)
  ultimately have "\<exists>w. boost_body L fftPtr i c = Some (c\<lparr>boost := (boost c)[i := add32 (boost c ! i) (sample_power (fftPtr ! i))],
      integrated_image_power := w\<rparr>)"
    using ix assms(2) by (auto simp: boost_body_def Let_def)
  then have "\<exists>c'. boost_body L fftPtr i c = Some c' \<and> corr_frame c c'"
    by (auto simp: corr_frame_def)
  then show "\<exists>c'. boost_body L fftPtr i c = Some c' \<and> corr_frame b c'"
    using corr_frame_trans [OF c] by blast
qed simp

lemma power_gate_defined:
  assumes "m < length (power_flag b)"
  shows "\<exists>b'. power_gate pw step m b = Some b' \<and> corr_frame b b'"
  using assms by (auto simp: power_gate_def corr_frame_def)

lemma corr_block_defined:
  assumes L: "iq_lib_wf L" and wf: "iq_shape b" and c: "length c = FFTBins"
    and n: "0 \<le> n" "n + int FFTBins \<le> int (length iq)" and m: "m < nat (fft_integration b)"
  shows "\<exists>b' c' k. corr_block M L iq step ph am n m (b, c, cnt) = Some (b', c', k) \<and>
           corr_frame b b' \<and> length c' = FFTBins \<and> cnt \<le> k \<and> k \<le> cnt + 1"
proof -
  have "length (take FFTBins (drop (nat n) iq)) = FFTBins" using n by simp
  then obtain f pw where f: "adjust_benchmark (take FFTBins (drop (nat n) iq)) ph am (step \<noteq> 0) = Some (f, pw)"
    "length f = FFTBins" using adjust_benchmark_defined by blast
  have m': "m < length (power_flag b)" using m wf by (auto simp: iq_shape_def)
  obtain b1 where b1: "power_gate pw step m b = Some b1" "corr_frame b b1"
    using power_gate_defined [OF m'] by blast
  have wf1: "iq_shape b1" by (rule corr_frame_shape [OF b1(2) wf])
  have m1: "m < length (power_flag b1)" using m' corr_frame_fields(7) [OF b1(2)] by simp
  obtain g where g: "window L f FFTBins = Some g" "length g = FFTBins" using window_defined [OF L f(2)] by blast
  obtain h where h: "fft (f32_arith M) g FFTBins = Some h" "length h = FFTBins" using fft_defined [OF g(2)] by blast
  obtain c' where c': "for_loop corr_bins (corr_body h) c = Some c'" "length c' = FFTBins"
    using corr_body_defined [OF h(2) c] by blast
  obtain b2 where b2: "for_loop corr_bins (boost_body L h) b1 = Some b2" "corr_frame b1 b2"
    using boost_body_defined [OF L h(2) wf1] by blast
  show ?thesis
    using n f b1 m1 g h c' b2 c corr_frame_trans [OF b1(2) b2(2)]
    by (auto simp: corr_block_def copy_block_def)
qed

lemma corr_blocks_defined:
  assumes "iq_lib_wf L" and "iq_shape b" and "length c = FFTBins" and "0 \<le> n" and "len \<le> int (length iq)"
    and "m + left = nat (fft_integration b)"
  shows "\<exists>b' c' k. corr_blocks M L iq len ph am step left n m (b, c, cnt) = Some (b', c', k) \<and>
           corr_frame b b' \<and> length c' = FFTBins \<and> cnt \<le> k \<and> k \<le> cnt + int left"
  using assms
proof (induction left arbitrary: n m b c cnt)
  case 0
  then show ?case by simp
next
  case (Suc left)
  show ?case
  proof (cases "n \<le> len - int FFTBins")
    case True
    obtain b1 c1 k1 where s1: "corr_block M L iq step ph am n m (b, c, cnt) = Some (b1, c1, k1)"
      "corr_frame b b1" "length c1 = FFTBins" "cnt \<le> k1" "k1 \<le> cnt + 1"
      using corr_block_defined [OF Suc.prems(1-4), where iq = iq and m = m] Suc.prems(5,6) True by fastforce
    have wf1: "iq_shape b1" by (rule corr_frame_shape [OF s1(2) Suc.prems(2)])
    then have "0 < fft_overlap b1" by (simp add: iq_shape_def iq_parameters_ok_def)
    then have q: "quot_int (int FFTBins) (fft_overlap b1) = Some (int FFTBins div fft_overlap b1)"
      "0 \<le> int FFTBins div fft_overlap b1"
      by (simp_all add: quot_int_def pos_imp_zdiv_nonneg_iff) (simp add: FFTBins_def)
    have left: "Suc m + left = nat (fft_integration b1)"
      using Suc.prems(6) corr_frame_fields(4) [OF s1(2)] by simp
    from q(2) Suc.prems(4) have n: "0 \<le> n + int FFTBins div fft_overlap b1" by simp
    obtain b2 c2 k2 where s2: "corr_blocks M L iq len ph am step left (n + int FFTBins div fft_overlap b1) (Suc m)
        (b1, c1, k1) = Some (b2, c2, k2)" "corr_frame b1 b2" "length c2 = FFTBins" "k1 \<le> k2" "k2 \<le> k1 + int left"
      using Suc.IH [OF Suc.prems(1) wf1 s1(3) n Suc.prems(5) left] by blast
    then show ?thesis using True s1 q(1) corr_frame_trans [OF s1(2) s2(2)] by simp
  next
    case False
    then show ?thesis using Suc.prems by simp
  qed
qed

lemma compute_corr_defined:
  assumes "iq_lib_wf L" and "iq_shape b" and "length c = FFTBins" and "len \<le> int (length iq)"
  shows "\<exists>b' c' k. compute_corr M L iq c len step b = Some (b', c', k) \<and> corr_frame b b' \<and>
           length c' = FFTBins \<and> 0 \<le> k \<and> k \<le> fft_integration b"
proof -
  have i: "0 \<le> fft_integration b" using assms(2) by (simp add: iq_shape_def iq_parameters_ok_def)
  show ?thesis
    using corr_blocks_defined [OF assms(1-3), of 0 len iq 0 "nat (fft_integration b)" M _ _ step 0] assms(4) i
    unfolding compute_corr_def by fastforce
qed

section \<open>Estimation\<close>

lemma utility_body_defined:
  assumes "iq_lib_wf L" and "iq_shape b" and "length c = FFTBins" and "i \<in> set corr_bins"
  shows "\<exists>acc'. utility_body L b c i acc = Some acc'"
proof -
  have i: "i < FFTBins" "FFTBins - i < FFTBins" using assms(4) by (simp_all add: corr_bins_iff FFTBins_def)
  have "nat \<bar>optimal_bin b - int i\<bar> < FFTBins"
    using assms(2,4) by (auto simp: corr_bins_iff iq_shape_def FFTBins_def)
  moreover have "length (boost b) = FFTBins" "length (boost_window L) = FFTBins"
    using assms(1,2) by (simp_all add: iq_shape_def iq_lib_wf_def)
  ultimately show ?thesis using i assms(3) by (auto simp: utility_body_def Let_def)
qed

lemma utility_defined:
  assumes "iq_lib_wf L" and "iq_shape b" and "length c = FFTBins"
  shows "\<exists>acc. utility L b c = Some acc"
  unfolding utility_def
  using for_loop_inv [of "\<lambda>_. True" c_zero corr_bins "utility_body L b c"]
    utility_body_defined [OF assms] by blast

lemma ring_next_eq: "ring_next i = (i + 1) mod MaxLookback"
  using take_bit_eq_mask [of 2 "i + 1"]
  by (simp add: ring_next_def MaxLookback_def take_bit_eq_mod mask_eq_exp_minus_1)

lemma ring_prev_eq: "ring_prev i = (i + MaxLookback - 1) mod MaxLookback"
  using take_bit_eq_mask [of 2 "i + 3"]
  by (simp add: ring_prev_def MaxLookback_def take_bit_eq_mod mask_eq_exp_minus_1 add.commute)

lemma ring_less: "ring_next i < MaxLookback" "ring_prev i < MaxLookback"
  by (simp_all add: ring_next_eq ring_prev_eq MaxLookback_def)

lemma lookback_less: "j \<in> set (lookback n i) \<Longrightarrow> j < MaxLookback"
  by (induction n arbitrary: i) (auto simp: ring_less)

text \<open>What the end of an estimation changes.\<close>

lemma store_estimate_defined:
  assumes "iq_wf b"
  shows "\<exists>b'. store_estimate ph am b = Some b' \<and> iq_wf b'"
proof -
  define cnt where "cnt = (if no_of_raw b < MaxLookback then Suc (no_of_raw b) else no_of_raw b)"
  have cnt: "cnt \<le> MaxLookback" using assms by (simp add: cnt_def iq_wf_unfold)
  have w: "raw_ptr b < MaxLookback" "length (raw_amplitudes b) = MaxLookback" "length (raw_phases b) = MaxLookback"
    using assms by (simp_all add: iq_wf_unfold)
  define ra rp where "ra = (raw_amplitudes b)[raw_ptr b := am]" and "rp = (raw_phases b)[raw_ptr b := ph]"
  have "\<exists>s. for_loop (lookback (cnt - 1) (raw_ptr b)) (\<lambda>i (ph, am). do {
            p \<leftarrow> rd rp i; a \<leftarrow> rd ra i; Some (add32 ph p, add32 am a) }) (ph, am) = Some s \<and> True"
    using w by (intro for_loop_inv) (auto simp: ra_def rp_def dest: lookback_less)
  then obtain ph' am' where "for_loop (lookback (cnt - 1) (raw_ptr b)) (\<lambda>i (ph, am). do {
            p \<leftarrow> rd rp i; a \<leftarrow> rd ra i; Some (add32 ph p, add32 am a) }) (ph, am) = Some (ph', am')"
    by auto
  then have "store_estimate ph am b = Some (b\<lparr>no_of_raw := cnt, raw_amplitudes := ra, raw_phases := rp,
      raw_ptr := ring_next (raw_ptr b), phase := div32 ph' (int32f (int cnt)),
      amplitude := div32 am' (int32f (int cnt))\<rparr>)"
    using w by (simp add: store_estimate_def cnt_def [symmetric] ra_def rp_def)
  then show ?thesis using assms cnt by (simp add: iq_wf_unfold ra_def rp_def ring_less)
qed

lemma accept_power_wf: "accept_power b = Some b' \<Longrightarrow> iq_wf b \<Longrightarrow> iq_wf b'"
  by (auto simp: accept_power_def Let_def iq_wf_unfold split: if_splits)

lemma update_estimate_defined:
  assumes "iq_lib_wf L" and "iq_wf b"
  shows "\<exists>b'. update_estimate L b = Some b' \<and> iq_wf b'"
proof (cases "accept_power b")
  case (Some c)
  have c: "iq_wf c" by (rule accept_power_wf [OF Some assms(2)])
  then have sh: "iq_shape c" by (simp add: iq_wf_def)
  then have len: "length (corr c) = FFTBins" "length (corr_plus c) = FFTBins" by (simp_all add: iq_shape_def)
  obtain u v where "utility L c (corr c) = Some u" "utility L c (corr_plus c) = Some v"
    using utility_defined [OF assms(1) sh len(1)] utility_defined [OF assms(1) sh len(2)] by blast
  with Some show ?thesis using store_estimate_defined [OF c] by (simp add: update_estimate_def)
qed (use assms in \<open>simp add: update_estimate_def\<close>)

lemma apply_reset_wf:
  assumes "iq_wf b"
  shows "iq_wf (apply_reset b)"
    "- (2 ^ 31) \<le> no_of_avg (apply_reset b)"
    "no_of_avg (apply_reset b) \<le> correlation_integration (apply_reset b) * fft_integration (apply_reset b)"
proof -
  have "0 \<le> correlation_integration b * fft_integration b"
    using assms by (simp add: iq_wf_unfold iq_parameters_ok_def)
  then show "iq_wf (apply_reset b)" "- (2 ^ 31) \<le> no_of_avg (apply_reset b)"
    "no_of_avg (apply_reset b) \<le> correlation_integration (apply_reset b) * fft_integration (apply_reset b)"
    using assms by (auto simp: apply_reset_def iq_wf_unfold BuffersToSkipOnReset_def)
qed

text \<open>The accumulation phase, up to the test whether enough blocks were averaged.\<close>

text \<open>The second correlation and what follows it, for a first one over \<open>i\<close> blocks.\<close>

lemma second_correlation_defined:
  assumes L: "iq_lib_wf L" and b: "iq_shape b" and len: "len \<le> int (length iq)"
    and avg: "0 \<le> no_of_avg b" "no_of_avg b \<le> correlation_integration b * fft_integration b"
    and i: "0 \<le> i" "i \<le> fft_integration b"
  shows "\<exists>b'. (do {
           avg \<leftarrow> int_add (no_of_avg b) i;
           let b = b\<lparr>no_of_avg := avg\<rparr>;
           (b, c, k) \<leftarrow> compute_corr M L iq (corr_plus b) len 1 b;
           let b = b\<lparr>corr_plus := c\<rparr>;
           limit \<leftarrow> int_mul (correlation_integration b) (fft_integration b);
           if no_of_avg b \<le> limit then Some b
           else update_estimate L (b\<lparr>no_of_avg := 0\<rparr>)
         }) = Some b' \<and> iq_wf b'"
proof -
  let ?limit = "correlation_integration b * fft_integration b"
  have par: "0 \<le> ?limit" "?limit + fft_integration b < 2 ^ 31" "0 \<le> fft_integration b"
    using b by (simp_all add: iq_wf_unfold iq_parameters_ok_def)
  then have add: "int_add (no_of_avg b) i = Some (no_of_avg b + i)" using avg i by (simp add: int_add_def)
  define b1 where "b1 = b\<lparr>no_of_avg := no_of_avg b + i\<rparr>"
  have b1: "iq_shape b1" using b by (simp add: b1_def iq_shape_def)
  obtain b2 c k where cp: "compute_corr M L iq (corr_plus b1) len 1 b1 = Some (b2, c, k)"
    "corr_frame b1 b2" "length c = FFTBins"
    using compute_corr_defined [OF L b1, of "corr_plus b1" len iq M 1] b1 len by (auto simp: iq_shape_def)
  define b3 where "b3 = b2\<lparr>corr_plus := c\<rparr>"
  have b3: "iq_shape b3" using corr_frame_shape [OF cp(2) b1] cp(3) by (simp add: b3_def iq_shape_def)
  have f: "correlation_integration b3 * fft_integration b3 = ?limit" "no_of_avg b3 = no_of_avg b + i"
    using corr_frame_fields [OF cp(2)] by (simp_all add: b3_def b1_def)
  then have mul: "int_mul (correlation_integration b3) (fft_integration b3) = Some ?limit"
    using par by (simp add: int_mul_def)
  have "iq_wf b3" if "no_of_avg b3 \<le> ?limit" using that b3 f avg i by (simp add: iq_wf_def)
  moreover have "iq_wf (b3\<lparr>no_of_avg := 0\<rparr>)" using b3 f par by (simp add: iq_wf_unfold)
  ultimately show ?thesis
    using add cp(1) mul update_estimate_defined [OF L, of "b3\<lparr>no_of_avg := 0\<rparr>"]
    by (simp add: b1_def b3_def Let_def)
qed

lemma estimate_imbalance_defined:
  assumes L: "iq_lib_wf L" and wf: "iq_wf b0" and len: "len \<le> int (length iq)"
  shows "\<exists>b'. estimate_imbalance M L iq len b0 = Some b' \<and> iq_wf b'"
proof -
  let ?b = "apply_reset b0"
  note r = apply_reset_wf [OF wf]
  show ?thesis
  proof (cases "no_of_avg ?b < 0")
    case True
    have "0 \<le> correlation_integration ?b * fft_integration ?b"
      using r(1) by (simp add: iq_wf_unfold iq_parameters_ok_def)
    then have "iq_wf (?b\<lparr>no_of_avg := no_of_avg ?b + 1\<rparr>)"
      using True r by (auto simp: iq_wf_unfold)
    with True show ?thesis by (simp add: estimate_imbalance_def Let_def)
  next
    case False
    define b1 where "b1 = (let b = (if no_of_avg ?b = 0 then clear_sums ?b else ?b)
                           in b\<lparr>maximum_image_power := mul32 (maximum_image_power b) MaxPowerDecay\<rparr>)"
    have b1: "iq_shape b1" using r(1) by (simp add: b1_def Let_def iq_wf_unfold clear_sums_def)
    have same: "no_of_avg b1 = no_of_avg ?b" "correlation_integration b1 = correlation_integration ?b"
      "fft_integration b1 = fft_integration ?b" by (simp_all add: b1_def Let_def clear_sums_def)
    obtain b2 c i where cc: "compute_corr M L iq (corr b1) len 0 b1 = Some (b2, c, i)" "corr_frame b1 b2"
      "length c = FFTBins" "0 \<le> i" "i \<le> fft_integration b1"
      using compute_corr_defined [OF L b1, of "corr b1" len iq M 0] b1 len by (auto simp: iq_shape_def)
    define b3 where "b3 = b2\<lparr>corr := c\<rparr>"
    have b3: "iq_shape b3" using corr_frame_shape [OF cc(2) b1] cc(3) by (simp add: b3_def iq_shape_def)
    have f: "no_of_avg b3 = no_of_avg ?b" "correlation_integration b3 = correlation_integration ?b"
      "fft_integration b3 = fft_integration ?b" using corr_frame_fields [OF cc(2)] same by (simp_all add: b3_def)
    have avg: "0 \<le> no_of_avg b3" "no_of_avg b3 \<le> correlation_integration b3 * fft_integration b3"
      using False r f by simp_all
    have "i \<le> fft_integration b3" using cc(5) f same by simp
    note second = second_correlation_defined [OF L b3 len avg cc(4) this, of M]
    have "iq_wf b3" using b3 avg by (simp add: iq_wf_def)
    then show ?thesis
      using False cc(1) second by (cases "i = 0") (simp_all add: estimate_imbalance_def b1_def b3_def Let_def)
  qed
qed

section \<open>Blocks of samples\<close>

lemma evaluate_block_defined:
  assumes L: "iq_lib_wf L" and wf: "iq_wf b" and len: "length iq = len"
  shows "\<exists>b'. evaluate_block M L iq len b = Some b' \<and> iq_wf b'"
proof -
  define cnt where "cnt = (if len \<le> WorkingBufferLength - working_buffer_pos b then len
                           else WorkingBufferLength - working_buffer_pos b)"
  have pos: "working_buffer_pos b + cnt \<le> WorkingBufferLength" "cnt \<le> length iq"
    "length (working_buffer b) = WorkingBufferLength" "working_buffer_pos b < WorkingBufferLength"
    using wf len by (auto simp: cnt_def iq_wf_unfold)
  define b1 where "b1 = b\<lparr>working_buffer := take (working_buffer_pos b) (working_buffer b)
                       @ take cnt iq @ drop (working_buffer_pos b + cnt) (working_buffer b),
                   working_buffer_pos := working_buffer_pos b + cnt\<rparr>"
  have fill: "fill_working_buffer iq cnt b = Some b1" using pos by (simp add: fill_working_buffer_def b1_def)
  have wlen: "length (working_buffer b1) = WorkingBufferLength" using pos by (simp add: b1_def)
  have sk: "int_add (skipped_buffers b) 1 = Some (skipped_buffers b + 1)" "0 \<le> skipped_buffers b"
    "buffers_to_skip b < 2 ^ 31 - 1" "0 \<le> 2 ^ 31 - (1 :: int)"
    using wf by (simp_all add: iq_wf_unfold int_add_def iq_parameters_ok_def)
  show ?thesis
  proof (cases "WorkingBufferLength \<le> working_buffer_pos b1")
    case False
    have "iq_wf b1" using wf wlen False by (simp add: b1_def iq_wf_unfold)
    with False fill show ?thesis by (simp add: evaluate_block_def cnt_def Let_def)
  next
    case True
    define b2 where "b2 = b1\<lparr>working_buffer_pos := 0, skipped_buffers := skipped_buffers b + 1\<rparr>"
    have e: "evaluate_block M L iq len b =
        (if buffers_to_skip b2 < skipped_buffers b2
         then estimate_imbalance M L (working_buffer b2) (int WorkingBufferLength) (b2\<lparr>skipped_buffers := 0\<rparr>)
         else Some b2)"
      using True fill sk(1) by (simp add: evaluate_block_def cnt_def b2_def b1_def Let_def)
    have "iq_wf (b2\<lparr>skipped_buffers := 0\<rparr>)"
      using wf wlen pos by (simp add: b2_def b1_def iq_wf_unfold)
    moreover have "iq_wf b2" if "\<not> buffers_to_skip b2 < skipped_buffers b2"
      using wf wlen pos sk that by (simp add: b2_def b1_def iq_wf_unfold)
    moreover have "int WorkingBufferLength \<le> int (length (working_buffer b2))"
      using wlen by (simp add: b2_def)
    ultimately show ?thesis using estimate_imbalance_defined [OF L] e by simp
  qed
qed

lemma iq_balancer_process_wf:
  assumes L: "iq_lib_wf L" and wf: "iq_wf b" and len: "length iq = len"
  shows "\<exists>iq' b'. iq_balancer_process M L iq len skip b = Some (iq', b') \<and> length iq' = len \<and> iq_wf b'"
proof -
  obtain iq1 ia qa where dc: "cancel_dc iq len skip b = Some (iq1, b\<lparr>iavg := ia, qavg := qa\<rparr>)" "length iq1 = len"
    using cancel_dc_defined [OF len] by blast
  have "iq_wf (b\<lparr>iavg := ia, qavg := qa\<rparr>)" using wf by (simp add: iq_wf_unfold)
  then obtain b1 where b1: "(if skip then Some (b\<lparr>iavg := ia, qavg := qa\<rparr>)
       else evaluate_block M L iq1 len (b\<lparr>iavg := ia, qavg := qa\<rparr>)) = Some b1" "iq_wf b1"
    using evaluate_block_defined [OF L _ dc(2)] by (cases skip) auto
  obtain iq2 where "adjust_phase_amplitude iq1 len b1 =
      Some (iq2, b1\<lparr>last_phase := phase b1, last_amplitude := amplitude b1\<rparr>)" "length iq2 = len"
    using adjust_phase_amplitude_defined [OF dc(2)] by blast
  with dc b1 show ?thesis by (simp add: iq_balancer_process_def iq_wf_unfold)
qed

end
