(* ===== verification/Iq_Properties.thy ===== *)
theory Iq_Properties
  imports Control_Properties Iq_Safety
begin

text \<open>
  Properties of the IQ balancer: every sequence of its operations stays defined, the
  optimal bin and the correction steps are bounded, a reset discards measurements, the ring
  of raw estimates is a sliding window, and the conversion of a received block is defined.
\<close>

section \<open>The optimal bin\<close>

lemma f32_half: "f32 (1 / 2) = Fin (1 / 2)" "f32 (- 1 / 2) = Fin (- 1 / 2)" "f64 (1 / 2) = Fin (1 / 2)"
  by (simp_all add: flt_eval)

lemma clamp_half_range:
  assumes "w \<noteq> NaN"
  shows "finite_flt (clamp_half w) \<and> - 1 / 2 \<le> val (clamp_half w) \<and> val (clamp_half w) \<le> 1 / 2"
  unfolding clamp_half_def f32_half using assms by (cases w) (auto simp: not_less)

lemma fadd_finite:
  assumes "finite_flt b" and "x \<noteq> 0"
  shows "fadd F (Fin x) b = rnd F False (x + val b)"
  using assms by (cases b) (auto simp: fadd_def)

lemma fmul_finite:
  assumes "finite_flt b"
  shows "\<exists>s. fmul F (Fin x) b = rnd F s (x * val b)"
  using assms by (cases b) (auto simp: fmul_def Let_def)

lemma optimal_bin_range:
  assumes "w \<noteq> NaN"
  shows "\<exists>k. floor_to_int (mul64 (int64f (int FFTBins)) (add64 (f64 (1 / 2)) (clamp_half w))) = Some k \<and>
           0 \<le> k \<and> k \<le> int FFTBins"
proof -
  let ?w = "clamp_half w" and ?s = "add64 (f64 (1 / 2)) (clamp_half w)"
  note c = clamp_half_range [OF assms]
  have "?s = rnd binary64 False (1 / 2 + val ?w)" using c by (simp add: f32_half fadd_finite)
  moreover have "0 \<le> 1 / 2 + val ?w" "1 / 2 + val ?w \<le> 2 powi 0" using c by simp_all
  ultimately have s: "finite_flt ?s" "0 \<le> val ?s" "val ?s \<le> 1"
    using rnd_bounds [of "1 / 2 + val ?w" 0 binary64 False] by (simp_all add: binary64_def)
  have "int64f (int FFTBins) = Fin 4096" by (simp add: FFTBins_def flt_eval)
  then obtain sg where m: "mul64 (int64f (int FFTBins)) ?s = rnd binary64 sg (4096 * val ?s)"
    using fmul_finite [OF s(1), of binary64 4096] by auto
  have "4096 * val ?s \<le> 2 powi 12" using s(3) by simp
  then have "finite_flt (rnd binary64 sg (4096 * val ?s))" "0 \<le> val (rnd binary64 sg (4096 * val ?s))"
    "val (rnd binary64 sg (4096 * val ?s)) \<le> 4096"
    using rnd_bounds [of "4096 * val ?s" 12 binary64 sg] s(2) by (simp_all add: binary64_def)
  moreover have "\<lfloor>v\<rfloor> \<le> 4096 \<and> 0 \<le> \<lfloor>v\<rfloor>" if "0 \<le> v" "v \<le> 4096" for v :: rat
    using that by (simp add: floor_le_iff)
  ultimately show ?thesis unfolding m by (simp add: floor_to_int_def FFTBins_def)
qed

text \<open>
  \<open>iq_balancer_set_optimal_point\<close> is undefined exactly for a NaN; for every other
  \<open>float\<close>, infinities included, the optimal bin is within the spectrum, which keeps every
  index into the boost window in range, and the estimator is told to start over.
\<close>

lemma optimal_point_bounds:
  "case iq_balancer_set_optimal_point w b of
     None \<Rightarrow> w = NaN
   | Some b' \<Rightarrow> w \<noteq> NaN \<and> 0 \<le> optimal_bin b' \<and> optimal_bin b' \<le> int FFTBins \<and> reset_flag b' \<and>
       b' = b\<lparr>optimal_bin := optimal_bin b', reset_flag := True\<rparr>"
proof (cases "w = NaN")
  case True
  then show ?thesis
    by (simp add: iq_balancer_set_optimal_point_def clamp_half_def fadd_def fmul_def floor_to_int_def f32_half
        flt_of_int_def FFTBins_def flt_eval)
next
  case False
  with optimal_bin_range [OF False] show ?thesis
    by (auto simp: iq_balancer_set_optimal_point_def)
qed

lemma demo_balancer_wf: "iq_wf demo_balancer"
  unfolding demo_balancer_def by (rule iq_balancer_fields_wf) (simp add: iq_allocated_def demo_ptrs_def)

section \<open>Correction steps\<close>

text \<open>
  Whatever the correlations are, a step of the phase or amplitude estimate is at
  most \<open>MaxMu\<close> in magnitude unless it is a NaN, and it is zero while the two correlations
  differ by no more than \<open>MinDeltaMu\<close>.
\<close>

lemma mu_step_bounds:
  "(mu_step x y = NaN \<or> finite_flt (mu_step x y) \<and> \<bar>val (mu_step x y)\<bar> \<le> val MaxMu) \<and>
   (flt_lt MinDeltaMu (fabs (sub32 x y)) \<or> mu_step x y = Zero False)"
proof -
  have m: "MaxMu = Fin 50" by (simp add: MaxMu_def flt_eval)
  let ?q = "div32 x (sub32 x y)"
  have "(if flt_lt ?q (fneg MaxMu) then fneg MaxMu else if flt_lt MaxMu ?q then MaxMu else ?q) = NaN \<or>
        finite_flt (if flt_lt ?q (fneg MaxMu) then fneg MaxMu else if flt_lt MaxMu ?q then MaxMu else ?q) \<and>
        \<bar>val (if flt_lt ?q (fneg MaxMu) then fneg MaxMu else if flt_lt MaxMu ?q then MaxMu else ?q)\<bar> \<le> 50"
    unfolding m by (cases ?q) auto
  then show ?thesis by (auto simp: mu_step_def m Let_def)
qed

text \<open>
  The raw estimates kept by the ring, the newest first: those the next averaging will use.
\<close>

definition recent :: "'a list \<Rightarrow> iq_balancer_t \<Rightarrow> 'a list" where
  "recent xs b = map (\<lambda>k. xs ! ((raw_ptr b + 2 * MaxLookback - 1 - k) mod MaxLookback)) [0..<no_of_raw b]"

definition average32 :: "cflt list \<Rightarrow> cflt" where
  "average32 xs = div32 (foldl add32 (hd xs) (tl xs)) (int32f (int (length xs)))"

lemma less_4D: "i < 4 \<Longrightarrow> i = 0 \<or> i = 1 \<or> i = 2 \<or> i = (3 :: nat)"
  by auto

lemma less_3D: "i < 3 \<Longrightarrow> i = 0 \<or> i = 1 \<or> i = (2 :: nat)"
  by auto

text \<open>The walk through the ring, from the newest entry backwards.\<close>

lemma ring_walk:
  assumes "i < 4" and "k < 3"
  shows "((i + 7) mod 4 + 7 - k) mod 4 = (i + 7 - Suc k) mod (4 :: nat)"
    and "((i + 1) mod 4 + 7 - Suc k) mod 4 = (i + 7 - k) mod (4 :: nat)"
    and "(i + 7 - k) mod 4 \<noteq> i"
  using less_4D [OF assms(1)] less_3D [OF assms(2)] by (elim disjE; simp)+

lemma lookback_eq:
  "i < 4 \<Longrightarrow> n \<le> 3 \<Longrightarrow> lookback n i = map (\<lambda>k. (i + 7 - k) mod 4) [0..<n]"
proof (induction n arbitrary: i)
  case (Suc n)
  have p: "ring_prev i = (i + 7) mod 4"
    using less_4D [OF Suc.prems(1)] by (auto simp: ring_prev_eq MaxLookback_def)
  have "lookback n (ring_prev i) = map (\<lambda>k. ((i + 7) mod 4 + 7 - k) mod 4) [0..<n]"
    using Suc.IH [of "ring_prev i"] Suc.prems by (simp add: p)
  also have "\<dots> = map (\<lambda>k. (i + 7 - Suc k) mod 4) [0..<n]"
    using ring_walk(1) [OF Suc.prems(1)] Suc.prems(2) by (intro map_cong refl) simp
  finally have "lookback n (ring_prev i) = map (\<lambda>k. (i + 7 - Suc k) mod 4) [0..<n]" .
  then show ?case using p by (simp add: map_upt_Suc_shift del: upt_Suc)
qed simp

lemma length_lookback [simp]: "length (lookback n i) = n"
  by (induction n arbitrary: i) auto

lemma sum_loop:
  assumes "\<forall>i \<in> set js. i < length rp \<and> i < length ra"
  shows "for_loop js (\<lambda>i (ph, am). do { p \<leftarrow> rd rp i; a \<leftarrow> rd ra i; Some (add32 ph p, add32 am a) }) (ph, am) =
         Some (foldl add32 ph (map ((!) rp) js), foldl add32 am (map ((!) ra) js))"
  using assms by (induction js arbitrary: ph am) auto

text \<open>The window after one more estimate.\<close>

lemma recent_store:
  assumes "i < 4" and "length xs = 4" and "n \<le> 4"
    and "raw_ptr b = i" and "no_of_raw b = n" and "raw_ptr b' = ring_next i" and "no_of_raw b' = Suc (min 3 n)"
  shows "recent (xs[i := x]) b' = x # map ((!) (xs[i := x])) (lookback (min 3 n) i)"
    and "recent (xs[i := x]) b' = take MaxLookback (x # recent xs b)"
proof -
  have new: "((i + 1) mod 4 + 7 - 0) mod 4 = i" using less_4D [OF assms(1)] by auto
  note old = ring_walk(2,3) [OF assms(1)]
  have l: "lookback (min 3 n) i = map (\<lambda>k. (i + 7 - k) mod 4) [0..<min 3 n]"
    using assms(1) by (intro lookback_eq) auto
  have r: "recent (xs[i := x]) b' =
      (xs[i := x]) ! (((i + 1) mod 4 + 7 - 0) mod 4) #
      map (\<lambda>k. (xs[i := x]) ! (((i + 1) mod 4 + 7 - Suc k) mod 4)) [0..<min 3 n]"
    unfolding recent_def assms(6,7) map_upt_Suc_shift by (simp add: ring_next_eq MaxLookback_def add.commute)
  have m: "map (\<lambda>k. (xs[i := x]) ! (((i + 1) mod 4 + 7 - Suc k) mod 4)) [0..<min 3 n] =
           map (\<lambda>k. (xs[i := x]) ! ((i + 7 - k) mod 4)) [0..<min 3 n]"
    using old(1) by (intro map_cong refl) simp
  have m': "map (\<lambda>k. (xs[i := x]) ! ((i + 7 - k) mod 4)) [0..<min 3 n] =
           map (\<lambda>k. xs ! ((i + 7 - k) mod 4)) [0..<min 3 n]"
    using old(2) [THEN not_sym] by (intro map_cong refl) simp
  show "recent (xs[i := x]) b' = x # map ((!) (xs[i := x])) (lookback (min 3 n) i)"
    unfolding r m new l using assms(1,2) by simp
  have "take MaxLookback (x # recent xs b) = x # map (\<lambda>k. xs ! ((i + 7 - k) mod 4)) [0..<min 3 n]"
  proof -
    have "take 3 [0..<n] = [0..<min 3 n]" using assms(3) by (cases "n \<le> 3") (simp_all add: min_def)
    then show ?thesis using assms(4,5) by (simp add: recent_def MaxLookback_def take_map add.commute)
  qed
  then show "recent (xs[i := x]) b' = take MaxLookback (x # recent xs b)"
    unfolding r m m' new using assms(1,2) by simp
qed

text \<open>
  C30 (refinement). The ring of raw estimates implements a sliding window: storing an estimate
  puts it in front of the window, forgets the one before the last \<open>MaxLookback\<close>, and sets
  phase and amplitude to the averages over the window.
\<close>

theorem store_estimate_sliding_window:
  assumes "iq_wf b"
  shows "\<exists>b'. store_estimate ph am b = Some b' \<and>
           recent (raw_phases b') b' = take MaxLookback (ph # recent (raw_phases b) b) \<and>
           recent (raw_amplitudes b') b' = take MaxLookback (am # recent (raw_amplitudes b) b) \<and>
           phase b' = average32 (recent (raw_phases b') b') \<and>
           amplitude b' = average32 (recent (raw_amplitudes b') b')"
proof -
  have w: "length (raw_phases b) = 4" "length (raw_amplitudes b) = 4" "raw_ptr b < 4" "no_of_raw b \<le> 4"
    using assms by (simp_all add: iq_wf_unfold MaxLookback_def)
  let ?i = "raw_ptr b" and ?n = "no_of_raw b"
  let ?rp = "(raw_phases b)[?i := ph]" and ?ra = "(raw_amplitudes b)[?i := am]"
  let ?js = "lookback (min 3 ?n) ?i"
  have cnt: "(if ?n < MaxLookback then Suc ?n else ?n) = Suc (min 3 ?n)"
    using w(4) by (auto simp: MaxLookback_def)
  have js: "\<forall>i \<in> set ?js. i < length ?rp \<and> i < length ?ra"
    using w lookback_less by (auto simp: MaxLookback_def)
  define b' where "b' = b\<lparr>no_of_raw := Suc (min 3 ?n), raw_amplitudes := ?ra, raw_phases := ?rp,
      raw_ptr := ring_next ?i,
      phase := div32 (foldl add32 ph (map ((!) ?rp) ?js)) (int32f (int (Suc (min 3 ?n)))),
      amplitude := div32 (foldl add32 am (map ((!) ?ra) ?js)) (int32f (int (Suc (min 3 ?n))))\<rparr>"
  have st: "store_estimate ph am b = Some b'"
    using w by (simp add: store_estimate_def cnt sum_loop [OF js] b'_def del: of_nat_Suc)
  have f: "raw_phases b' = ?rp" "raw_amplitudes b' = ?ra" "raw_ptr b' = ring_next ?i"
    "no_of_raw b' = Suc (min 3 ?n)" by (simp_all add: b'_def)
  note P = recent_store [OF w(3,1,4) refl refl f(3,4), of ph] and A = recent_store [OF w(3,2,4) refl refl f(3,4), of am]
  have "phase b' = average32 (recent ?rp b')" "amplitude b' = average32 (recent ?ra b')"
    unfolding P(1) A(1) by (simp_all add: b'_def average32_def del: of_nat_Suc)
  with st P(2) A(2) show ?thesis unfolding f(1,2) [symmetric] by blast
qed

theorem store_estimate_sliding_window_witness:
  "\<exists>b'. store_estimate (f32 1) (f32 2) demo_balancer = Some b' \<and>
         recent (raw_phases b') b' = [f32 1]"
  using store_estimate_sliding_window [OF demo_balancer_wf, of "f32 1" "f32 2"]
  by (auto simp: recent_def demo_balancer_def iq_balancer_fields_def MaxLookback_def)

section \<open>Resets\<close>

text \<open>
  After a configuration or retuning the estimator discards exactly two
  evaluations: whatever they were given, they leave correction, correlations and the ring of
  estimates alone, and only the third accumulates again.
\<close>

lemma reset_discards_two:
  assumes "reset_flag b"
  shows "\<exists>b1 b2. estimate_imbalance M L iq len b = Some b1 \<and> estimate_imbalance M L iq' len' b1 = Some b2 \<and>
           no_of_avg b1 \<noteq> 0 \<and> no_of_avg b2 = 0 \<and>
           b2 = b\<lparr>reset_flag := False, no_of_avg := 0, maximum_image_power := Zero False\<rparr>"
  using assms by (simp add: estimate_imbalance_def apply_reset_def BuffersToSkipOnReset_def Let_def)

section \<open>Sessions\<close>

text \<open>
  The states a balancer can get into: created in memory that was there, then configured with
  parameters in range, retuned to any point but NaN, and fed with blocks of any size and
  content.
\<close>

inductive iq_session :: "libm \<Rightarrow> iq_lib \<Rightarrow> iq_balancer_t \<Rightarrow> bool" for M L where
  created: "iq_balancer_create M J E iq_lib0 ph am w = Some (q, b, L, w') \<Longrightarrow> iq_allocated q \<Longrightarrow> iq_session M L b"
| configured: "iq_session M L b \<Longrightarrow> iq_parameters_ok skip integration overlap correlation \<Longrightarrow>
    iq_balancer_configure E skip integration overlap correlation (q, b) w = Some ((q', b'), w') \<Longrightarrow>
    iq_session M L b'"
| retuned: "iq_session M L b \<Longrightarrow> iq_balancer_set_optimal_point w b = Some b' \<Longrightarrow> iq_session M L b'"
| processed: "iq_session M L b \<Longrightarrow> iq_balancer_process M L iq (length iq) skip_eval b = Some (iq', b') \<Longrightarrow>
    iq_session M L b'"

lemma iq_lib_wf_create: "iq_lib_wf (init_library M iq_lib0)"
  by (auto simp: init_library_def iq_lib0_def iq_lib_wf_def)

lemma demo_create:
  "iq_balancer_create demo_libm \<lparr>junk_flag = (\<lambda>_. 0), junk_float = (\<lambda>_. Zero False)\<rparr> demo_env iq_lib0
     INITIAL_PHASE INITIAL_AMPLITUDE [] = Some (demo_ptrs, demo_balancer, init_library demo_libm iq_lib0,
     [Malloc 256 1, Malloc (FFTBins * 8) 2, Malloc (FFTBins * 8) 3, Malloc (WorkingBufferLength * 8) 4,
      Malloc (FFTBins * 4) 5, Malloc 16 6])"
  by (simp add: iq_balancer_create_def malloc_def demo_env_def demo_ptrs_def demo_balancer_def FFTIntegration_def Let_def
      numeral_eq_Suc)

lemma set_optimal_point_wf:
  assumes "iq_balancer_set_optimal_point w b = Some b'" and "iq_wf b"
  shows "iq_wf b'"
proof -
  have w: "w \<noteq> NaN"
    using assms(1) by (auto simp: iq_balancer_set_optimal_point_def clamp_half_def fadd_def fmul_def
        floor_to_int_def f32_half flt_of_int_def FFTBins_def flt_eval)
  show ?thesis
    using optimal_bin_range [OF w] assms by (auto simp: iq_balancer_set_optimal_point_def iq_wf_unfold)
qed

lemma iq_session_wf: "iq_session M L b \<Longrightarrow> iq_wf b \<and> iq_lib_wf L"
proof (induction rule: iq_session.induct)
  case (created J E ph am w q b w')
  then show ?case using iq_balancer_create_fields iq_balancer_fields_wf iq_lib_wf_create by blast
next
  case configured
  then show ?case using iq_balancer_configure_wf by blast
next
  case (retuned b w b')
  then show ?case using set_optimal_point_wf by blast
next
  case (processed b iq skip_eval iq' b')
  then show ?case using iq_balancer_process_wf [of L b iq "length iq" M skip_eval] by auto
qed

text \<open>
  C8 (type). In every state a session can reach, processing a block of any content is
  defined: all accesses are inside their arrays, no division by zero and no \<open>int\<close> overflow
  occurs, the transforms end, the block keeps its length, and the session goes on.
\<close>

theorem iq_session_defined:
  assumes "iq_session M L b"
  shows "\<exists>iq' b'. iq_balancer_process M L iq (length iq) skip_eval b = Some (iq', b') \<and>
           length iq' = length iq \<and> iq_session M L b' \<and> iq_wf b'"
proof -
  obtain iq' b' where "iq_balancer_process M L iq (length iq) skip_eval b = Some (iq', b')"
    "length iq' = length iq" "iq_wf b'"
    using iq_session_wf [OF assms] iq_balancer_process_wf [of L b iq "length iq" M skip_eval] by auto
  with processed [OF assms] show ?thesis by blast
qed

theorem iq_session_defined_witness:
  "\<exists>iq' b'. iq_balancer_process demo_libm (init_library demo_libm iq_lib0) [c_zero, c_zero] (length [c_zero, c_zero]) False
      demo_balancer = Some (iq', b') \<and> length iq' = 2"
proof -
  have "iq_session demo_libm (init_library demo_libm iq_lib0) demo_balancer"
    by (rule created [OF demo_create]) (simp add: iq_allocated_def demo_ptrs_def)
  from iq_session_defined [OF this, of "[c_zero, c_zero]" False] show ?thesis by auto
qed

lemma for_loop_frame:
  assumes "for_loop js body s = Some s'" and "\<And>i s s'. body i s = Some s' \<Longrightarrow> f s' = f s"
  shows "f s' = f s"
  using assms(1) by (induction js arbitrary: s) (auto dest: assms(2) split: bind_splits)

lemma corr_block_overlap:
  assumes "corr_block M L iq step ph am n m (b, c, cnt) = Some (b', c', k)"
  shows "fft_overlap b' = fft_overlap b"
proof -
  have g: "fft_overlap y = fft_overlap x" if "power_gate pw step m x = Some y" for pw x y
    using that by (auto simp: power_gate_def split: if_splits bind_splits)
  have "fft_overlap y = fft_overlap x" if "boost_body L f i x = Some y" for f i x y
    using that by (auto simp: boost_body_def Let_def split: if_splits bind_splits)
  then have "fft_overlap y = fft_overlap x" if "for_loop corr_bins (boost_body L f) x = Some y" for f x y
    using for_loop_frame [OF that, of fft_overlap] by blast
  with assms g show ?thesis
    by (fastforce simp: corr_block_def split: if_splits bind_splits prod.splits)
qed

text \<open>
  C39 (error). An overlap of 0, which \<open>airspyhf_iq_balancer_configure\<close> accepts without
  complaint, leaves the balancer in a state in which every correlation over the working buffer
  is undefined: the step to the next block divides by zero.
\<close>

theorem zero_overlap_undefined:
  assumes "iq_balancer d = Some b" and "0 < integration" and "\<And>v n. alloc_ok E v n"
  shows "\<exists>d' b' w'. airspyhf_iq_balancer_configure E skip integration 0 correlation d w = Some (AIRSPYHF_SUCCESS, d', w') \<and>
           iq_balancer d' = Some b' \<and>
           compute_corr M L iq c (int WorkingBufferLength) step b' = None"
proof -
  define b' where "b' = b\<lparr>buffers_to_skip := skip, fft_integration := integration, fft_overlap := 0,
    correlation_integration := correlation, power_flag := replicate (nat integration) 0, reset_flag := True\<rparr>"
  obtain n where n: "nat integration = Suc n" using assms(2) by (metis gr0_implies_Suc zero_less_nat_eq)
  have "corr_blocks M L iq (int WorkingBufferLength) ph am step (Suc n) 0 0 (b', c, 0) = None" for ph am
  proof (cases "corr_block M L iq step ph am 0 0 (b', c, 0)")
    case (Some s)
    obtain b2 c2 k2 where s: "s = (b2, c2, k2)" by (cases s)
    then have "fft_overlap b2 = 0" using corr_block_overlap [of M L iq step ph am 0 0 b' c 0] Some by (simp add: b'_def)
    then show ?thesis using Some s by (simp add: quot_int_def layout_simps)
  qed (simp add: layout_simps)
  then have "compute_corr M L iq c (int WorkingBufferLength) step b' = None"
    using n by (simp add: compute_corr_def b'_def del: corr_blocks.simps)
  then show ?thesis
    using assms by (simp add: airspyhf_iq_balancer_configure_def iq_balancer_configure_def malloc_def b'_def Let_def)
qed

theorem zero_overlap_undefined_witness:
  "\<exists>d' b' w'. airspyhf_iq_balancer_configure demo_env 2 4 0 16 demo_tuner [] = Some (AIRSPYHF_SUCCESS, d', w') \<and>
           iq_balancer d' = Some b' \<and>
           compute_corr demo_libm iq_lib0 [] [] (int WorkingBufferLength) 0 b' = None"
  by (rule zero_overlap_undefined) (simp_all add: demo_tuner_def demo_env_def)

section \<open>Conversion of a block\<close>

text \<open>
  With an output buffer, a block of the size the transfers use and a well-formed
  balancer, \<open>convert_samples\<close> is defined for every content of the block, yields exactly one
  output per input sample, and leaves the balancer well formed for the next block.
\<close>

lemma conversion_defined:
  assumes "output_buffer d \<noteq> NULL" and "cnt \<le> length src"
    and "iq_balancer d = Some b" and "iq_wf b" and "iq_lib_wf L"
  shows "\<exists>out d' b'. convert_samples M L d src cnt = Some (out, d') \<and> length out = cnt \<and>
           iq_balancer d' = Some b' \<and> iq_wf b' \<and> output_buffer d' = output_buffer d"
proof -
  let ?in = "map (convert_sample (conversion_gain (filter_gain d))) (take cnt src)"
  have len: "length ?in = cnt" using assms(2) by simp
  obtain iq b' where p: "iq_balancer_process M L ?in cnt False b = Some (iq, b')" "length iq = cnt" "iq_wf b'"
    using iq_balancer_process_wf [OF assms(5,4) len] by blast
  have "length (fst (fine_tune r v xs)) = length xs" for r v xs by simp
  then have ft: "fine_tune r v xs = (ys, w) \<Longrightarrow> length ys = length xs" for r v xs ys w by (metis fst_conv)
  show ?thesis
    using assms p len
    by (auto simp: convert_samples_def Let_def split: prod.splits dest!: ft)
qed

lemma conversion_defined_example:
  "\<exists>out d' b'. convert_samples demo_libm (init_library demo_libm iq_lib0)
       (demo_device\<lparr>iq_balancer := Some demo_balancer, enable_dsp := 1\<rparr>) demo_block 1 = Some (out, d') \<and>
     length out = 1 \<and> iq_balancer d' = Some b'"
proof -
  have L: "iq_lib_wf (init_library demo_libm iq_lib0)"
    by (rule init_library_wf) (simp add: iq_lib0_def)
  have "output_buffer (demo_device\<lparr>iq_balancer := Some demo_balancer, enable_dsp := 1\<rparr>) \<noteq> NULL"
    "1 \<le> length demo_block" by (simp_all add: demo_device_def demo_block_def)
  from conversion_defined [OF this _ demo_balancer_wf L, of demo_libm] show ?thesis by fastforce
qed

end
