(* ===== verification/Getopt.thy ===== *)
theory Getopt
  imports Prelude
begin

text \<open>
  \<open>src/tools/getopt/getopt.c\<close> and \<open>getopt.h\<close>, the option parser the programs are linked with
  where the C library has none. A C string is the list of its bytes before the terminator;
  since no string is ever written, a pointer into a string is the rest of its contents.
  \<open>argv\<close> is the list of its strings: any access at or beyond its end is undefined. The \<open>_LIBC\<close>
  branches (\<open>USE_NONOPTION_FLAGS\<close>) are not compiled.
\<close>

section \<open>Strings and options\<close>

type_synonym cstr = "u8 list"

text \<open>The byte at an offset of a string: the terminator is 0, what follows it is out of reach.\<close>

definition char_at :: "cstr \<Rightarrow> nat \<Rightarrow> u8 option" where
  "char_at s i = rd (s @ [0]) i"

text \<open>A plain \<open>char\<close> is signed where the programs are built.\<close>

definition char_int :: "u8 \<Rightarrow> int" where
  "char_int c = sint c"

fun my_index :: "cstr \<Rightarrow> u8 \<Rightarrow> cstr option" where
  "my_index [] chr = None"
| "my_index (c # str) chr = (if c = chr then Some (c # str) else my_index str chr)"

text \<open>A row of the table of long options, without the row that ends it.\<close>

record long_option =
  lo_name :: cstr
  lo_has_arg :: int
  lo_flag :: ptr
  lo_val :: int

definition no_argument :: int where "no_argument = 0"
definition required_argument :: int where "required_argument = 1"
definition optional_argument :: int where "optional_argument = 2"

section \<open>State\<close>

datatype getopt_ordering = REQUIRE_ORDER | PERMUTE | RETURN_IN_ORDER

text \<open>The messages on \<open>stderr\<close>, each with the values it prints, \<open>argv[0]\<close> first.\<close>

datatype getopt_message =
    Msg_ambiguous cstr cstr
  | Msg_long_takes_no_argument cstr cstr
  | Msg_takes_no_argument cstr u8 cstr
  | Msg_long_requires_argument cstr cstr
  | Msg_unrecognized_long cstr cstr
  | Msg_unrecognized cstr u8 cstr
  | Msg_illegal_option cstr u8
  | Msg_invalid_option cstr u8
  | Msg_requires_argument cstr u8
  | Msg_W_ambiguous cstr cstr
  | Msg_W_takes_no_argument cstr cstr

text \<open>
  The global and static variables, and what a call can write through pointers: the messages,
  the \<open>int\<close> variables the table of long options points to, and \<open>*longind\<close> (\<open>None\<close> when
  \<open>longind\<close> is null).
\<close>

record getopt_globals =
  optarg :: "cstr option"
  optind :: int
  getopt_initialized :: bool
  nextchar :: "cstr option"
  opterr :: int
  optopt :: int
  arg_ordering :: getopt_ordering
  posixly_correct :: "cstr option"
  first_nonopt :: int
  last_nonopt :: int
  getopt_stderr :: "getopt_message list"
  getopt_flags :: "ptr \<Rightarrow> int"
  getopt_longind :: "int option"

text \<open>The values before the first call; static variables without an initial value are zero.\<close>

definition getopt_globals0 :: getopt_globals where
  "getopt_globals0 = \<lparr>optarg = None, optind = 1, getopt_initialized = False, nextchar = None,
     opterr = 1, optopt = 63, arg_ordering = REQUIRE_ORDER, posixly_correct = None,
     first_nonopt = 0, last_nonopt = 0, getopt_stderr = [], getopt_flags = (\<lambda>_. 0),
     getopt_longind = None\<rparr>"

definition print_message :: "cstr list \<Rightarrow> (cstr \<Rightarrow> getopt_message) \<Rightarrow> getopt_globals \<Rightarrow> getopt_globals option" where
  "print_message argv msg g = do {
     prog \<leftarrow> rdi argv 0;
     Some (g\<lparr>getopt_stderr := getopt_stderr g @ [msg prog]\<rparr>)
   }"

section \<open>\<open>exchange\<close>\<close>

definition swap_args :: "int \<Rightarrow> int \<Rightarrow> cstr list \<Rightarrow> cstr list option" where
  "swap_args i j argv = do {
     tem \<leftarrow> rdi argv i;
     x \<leftarrow> rdi argv j;
     argv \<leftarrow> wri argv i x;
     wri argv j tem
   }"

text \<open>The loops that swap the shorter segment with a part of the longer one.\<close>

definition swap_segments :: "int \<Rightarrow> int \<Rightarrow> int \<Rightarrow> cstr list \<Rightarrow> cstr list option" where
  "swap_segments a b len argv =
     for_loop [0..<nat len] (\<lambda>i argv. swap_args (a + int i) (b + int i) argv) argv"

function exchange_loop :: "int \<Rightarrow> int \<Rightarrow> int \<Rightarrow> cstr list \<Rightarrow> cstr list option" where
  "exchange_loop bottom middle upper argv =
     (if upper > middle \<and> middle > bottom then
        (if upper - middle > middle - bottom then
           (case swap_segments bottom (upper - (middle - bottom)) (middle - bottom) argv of
              None \<Rightarrow> None
            | Some argv' \<Rightarrow> exchange_loop bottom middle (upper - (middle - bottom)) argv')
         else
           (case swap_segments bottom middle (upper - middle) argv of
              None \<Rightarrow> None
            | Some argv' \<Rightarrow> exchange_loop (bottom + (upper - middle)) middle upper argv'))
      else Some argv)"
  by pat_completeness auto
termination
  by (relation "measure (\<lambda>(bottom, middle, upper, argv). nat (upper - bottom))") auto

declare exchange_loop.simps [simp del]

definition exchange :: "cstr list \<Rightarrow> getopt_globals \<Rightarrow> (cstr list \<times> getopt_globals) option" where
  "exchange argv g = do {
     argv \<leftarrow> exchange_loop (first_nonopt g) (last_nonopt g) (optind g) argv;
     Some (argv, g\<lparr>first_nonopt := first_nonopt g + (optind g - last_nonopt g), last_nonopt := optind g\<rparr>)
   }"

section \<open>Initialisation\<close>

text \<open>\<open>posix\<close> is the value of the environment variable \<open>POSIXLY_CORRECT\<close>.\<close>

definition getopt_initialize ::
  "cstr option \<Rightarrow> cstr \<Rightarrow> getopt_globals \<Rightarrow> cstr \<times> getopt_globals" where
  "getopt_initialize posix optstring g =
     (let g = g\<lparr>first_nonopt := optind g, last_nonopt := optind g, nextchar := None, posixly_correct := posix\<rparr>
      in if take 1 optstring = [45] then (tl optstring, g\<lparr>arg_ordering := RETURN_IN_ORDER\<rparr>)
         else if take 1 optstring = [43] then (tl optstring, g\<lparr>arg_ordering := REQUIRE_ORDER\<rparr>)
         else (optstring, g\<lparr>arg_ordering := if posix \<noteq> None then REQUIRE_ORDER else PERMUTE\<rparr>))"

section \<open>The next element of \<open>argv\<close>\<close>

text \<open>A part of the function either returns a value or goes on.\<close>

datatype getopt_flow = Return int | Continue

type_synonym getopt_result = "(getopt_flow \<times> cstr list \<times> getopt_globals) option"

text \<open>\<open>argv[optind][0] != '-' || argv[optind][1] == 0\<close>.\<close>

fun NONOPTION_P :: "cstr \<Rightarrow> bool" where
  "NONOPTION_P (c # _ # _) = (c \<noteq> 45)"
| "NONOPTION_P _ = True"

function skip_nonoptions :: "int \<Rightarrow> cstr list \<Rightarrow> int \<Rightarrow> int option" where
  "skip_nonoptions argc argv i =
     (if i < argc then
        (case rdi argv i of
           None \<Rightarrow> None
         | Some s \<Rightarrow> if NONOPTION_P s then skip_nonoptions argc argv (i + 1) else Some i)
      else Some i)"
  by pat_completeness auto
termination
  by (relation "measure (\<lambda>(argc, argv, i). nat (argc - i))") auto

declare skip_nonoptions.simps [simp del]

text \<open>With \<open>PERMUTE\<close>: put the options just processed first, then skip the non-options.\<close>

definition getopt_permute :: "int \<Rightarrow> cstr list \<Rightarrow> getopt_globals \<Rightarrow> (cstr list \<times> getopt_globals) option" where
  "getopt_permute argc argv g = do {
     (argv, g) \<leftarrow>
       (if first_nonopt g \<noteq> last_nonopt g \<and> last_nonopt g \<noteq> optind g then exchange argv g
        else if last_nonopt g \<noteq> optind g then Some (argv, g\<lparr>first_nonopt := optind g\<rparr>)
        else Some (argv, g));
     i \<leftarrow> skip_nonoptions argc argv (optind g);
     Some (argv, g\<lparr>optind := i, last_nonopt := i\<rparr>)
   }"

text \<open>The element \<open>--\<close> ends the options.\<close>

definition str_dashdash :: cstr where "str_dashdash = [45, 45]"

definition getopt_dashdash :: "int \<Rightarrow> cstr list \<Rightarrow> getopt_globals \<Rightarrow> (cstr list \<times> getopt_globals) option" where
  "getopt_dashdash argc argv g =
     (if optind g = argc then Some (argv, g)
      else do {
        s \<leftarrow> rdi argv (optind g);
        if s \<noteq> str_dashdash then Some (argv, g)
        else do {
          let g = g\<lparr>optind := optind g + 1\<rparr>;
          (argv, g) \<leftarrow>
            (if first_nonopt g \<noteq> last_nonopt g \<and> last_nonopt g \<noteq> optind g then exchange argv g
             else if first_nonopt g = last_nonopt g then Some (argv, g\<lparr>first_nonopt := optind g\<rparr>)
             else Some (argv, g));
          Some (argv, g\<lparr>last_nonopt := argc, optind := argc\<rparr>)
        }
      })"

text \<open>The end of the arguments, a non-option, or the next element with options.\<close>

definition getopt_element ::
  "long_option list option \<Rightarrow> int \<Rightarrow> cstr list \<Rightarrow> getopt_globals \<Rightarrow> getopt_result" where
  "getopt_element longopts argc argv g =
     (if optind g = argc then
        Some (Return (- 1), argv,
              if first_nonopt g \<noteq> last_nonopt g then g\<lparr>optind := first_nonopt g\<rparr> else g)
      else do {
        s \<leftarrow> rdi argv (optind g);
        if NONOPTION_P s then
          (if arg_ordering g = REQUIRE_ORDER then Some (Return (- 1), argv, g)
           else Some (Return 1, argv, g\<lparr>optarg := Some s, optind := optind g + 1\<rparr>))
        else do {
          c1 \<leftarrow> char_at s 1;
          Some (Continue, argv, g\<lparr>nextchar := Some (drop (if longopts \<noteq> None \<and> c1 = 45 then 2 else 1) s)\<rparr>)
        }
      })"

definition getopt_advance ::
  "long_option list option \<Rightarrow> int \<Rightarrow> cstr list \<Rightarrow> getopt_globals \<Rightarrow> getopt_result" where
  "getopt_advance longopts argc argv g =
     (if nextchar g = None \<or> nextchar g = Some [] then do {
        let g = (if last_nonopt g > optind g then g\<lparr>last_nonopt := optind g\<rparr> else g);
        let g = (if first_nonopt g > optind g then g\<lparr>first_nonopt := optind g\<rparr> else g);
        (argv, g) \<leftarrow> (if arg_ordering g = PERMUTE then getopt_permute argc argv g else Some (argv, g));
        (argv, g) \<leftarrow> getopt_dashdash argc argv g;
        getopt_element longopts argc argv g
      }
      else Some (Continue, argv, g))"

section \<open>Long options\<close>

text \<open>
  The search in the table: the row found with its index, whether it matches exactly, whether
  the abbreviation is ambiguous. \<open>nm\<close> is the name given, which is compared as a prefix; the
  lengths are compared as \<open>unsigned int\<close>.
\<close>

fun long_scan ::
  "bool \<Rightarrow> cstr \<Rightarrow> int \<Rightarrow> long_option list \<Rightarrow> (long_option \<times> int) option \<Rightarrow> bool \<Rightarrow>
   (long_option \<times> int) option \<times> bool \<times> bool" where
  "long_scan long_only nm i [] pfound ambig = (pfound, False, ambig)"
| "long_scan long_only nm i (p # ps) pfound ambig =
     (if take (length nm) (lo_name p) = nm then
        (if (of_nat (length nm) :: u32) = of_nat (length (lo_name p)) then (Some (p, i), True, ambig)
         else (case pfound of
                 None \<Rightarrow> long_scan long_only nm (i + 1) ps (Some (p, i)) ambig
               | Some (q, _) \<Rightarrow>
                   long_scan long_only nm (i + 1) ps pfound
                     (if long_only \<or> lo_has_arg q \<noteq> lo_has_arg p \<or> lo_flag q \<noteq> lo_flag p \<or> lo_val q \<noteq> lo_val p
                      then True else ambig)))
      else long_scan long_only nm (i + 1) ps pfound ambig)"

text \<open>The name ends before \<open>=\<close>; what follows is empty or starts with it.\<close>

definition long_name :: "cstr \<Rightarrow> cstr" where
  "long_name nc = takeWhile (\<lambda>c. c \<noteq> 61) nc"

definition name_rest :: "cstr \<Rightarrow> cstr" where
  "name_rest nc = dropWhile (\<lambda>c. c \<noteq> 61) nc"

text \<open>The end of a recognised long option.\<close>

definition getopt_long_finish :: "long_option \<Rightarrow> int \<Rightarrow> getopt_globals \<Rightarrow> int \<times> getopt_globals" where
  "getopt_long_finish p option_index g =
     (let g = g\<lparr>nextchar := Some [], getopt_longind := map_option (\<lambda>_. option_index) (getopt_longind g)\<rparr>
      in if lo_flag p \<noteq> NULL then (0, g\<lparr>getopt_flags := (getopt_flags g)(lo_flag p := lo_val p)\<rparr>)
         else (lo_val p, g))"

text \<open>\<open>optstring[0] == ':' ? ':' : '?'\<close>.\<close>

definition missing_argument :: "cstr \<Rightarrow> int" where
  "missing_argument optstring = (if take 1 optstring = [58] then 58 else 63)"

text \<open>A row has been found: its argument.\<close>

definition getopt_long_found ::
  "bool \<Rightarrow> cstr \<Rightarrow> long_option \<Rightarrow> int \<Rightarrow> cstr \<Rightarrow> int \<Rightarrow> cstr list \<Rightarrow> getopt_globals \<Rightarrow>
   (int \<times> getopt_globals) option" where
  "getopt_long_found print_errors optstring p option_index rest argc argv g = do {
     let g = g\<lparr>optind := optind g + 1\<rparr>;
     if rest \<noteq> [] then
       (if lo_has_arg p \<noteq> 0 then Some (getopt_long_finish p option_index (g\<lparr>optarg := Some (tl rest)\<rparr>))
        else do {
          g \<leftarrow> (if print_errors then do {
                   s \<leftarrow> rdi argv (optind g - 1);
                   c1 \<leftarrow> char_at s 1;
                   if c1 = 45 then print_message argv (\<lambda>prog. Msg_long_takes_no_argument prog (lo_name p)) g
                   else do {
                     c0 \<leftarrow> char_at s 0;
                     print_message argv (\<lambda>prog. Msg_takes_no_argument prog c0 (lo_name p)) g
                   }
                 } else Some g);
          Some (63, g\<lparr>nextchar := Some [], optopt := lo_val p\<rparr>)
        })
     else if lo_has_arg p = 1 then
       (if optind g < argc then do {
          arg \<leftarrow> rdi argv (optind g);
          Some (getopt_long_finish p option_index (g\<lparr>optarg := Some arg, optind := optind g + 1\<rparr>))
        }
        else do {
          g \<leftarrow> (if print_errors then do {
                   s \<leftarrow> rdi argv (optind g - 1);
                   print_message argv (\<lambda>prog. Msg_long_requires_argument prog s) g
                 } else Some g);
          Some (missing_argument optstring, g\<lparr>nextchar := Some [], optopt := lo_val p\<rparr>)
        })
     else Some (getopt_long_finish p option_index g)
   }"

text \<open>No row has been found: an error, unless it can be a short option.\<close>

definition getopt_long_unknown ::
  "bool \<Rightarrow> cstr \<Rightarrow> bool \<Rightarrow> cstr \<Rightarrow> cstr list \<Rightarrow> getopt_globals \<Rightarrow> getopt_result" where
  "getopt_long_unknown print_errors optstring long_only nc argv g = do {
     unrecognized \<leftarrow>
       (if \<not> long_only then Some True
        else do {
          s \<leftarrow> rdi argv (optind g);
          c1 \<leftarrow> char_at s 1;
          if c1 = 45 then Some True
          else do { c \<leftarrow> char_at nc 0; Some (my_index optstring c = None) }
        });
     if unrecognized then do {
       g \<leftarrow> (if print_errors then do {
                s \<leftarrow> rdi argv (optind g);
                c1 \<leftarrow> char_at s 1;
                if c1 = 45 then print_message argv (\<lambda>prog. Msg_unrecognized_long prog nc) g
                else do {
                  c0 \<leftarrow> char_at s 0;
                  print_message argv (\<lambda>prog. Msg_unrecognized prog c0 nc) g
                }
              } else Some g);
       Some (Return 63, argv, g\<lparr>nextchar := Some [], optind := optind g + 1, optopt := 0\<rparr>)
     } else Some (Continue, argv, g)
   }"

definition getopt_long_option ::
  "bool \<Rightarrow> cstr \<Rightarrow> long_option list \<Rightarrow> bool \<Rightarrow> int \<Rightarrow> cstr list \<Rightarrow> getopt_globals \<Rightarrow> getopt_result" where
  "getopt_long_option print_errors optstring longopts long_only argc argv g = do {
     nc \<leftarrow> nextchar g;
     let (pfound, exact, ambig) = long_scan long_only (long_name nc) 0 longopts None False;
     if ambig \<and> \<not> exact then do {
       g \<leftarrow> (if print_errors then do {
                s \<leftarrow> rdi argv (optind g);
                print_message argv (\<lambda>prog. Msg_ambiguous prog s) g
              } else Some g);
       Some (Return 63, argv, g\<lparr>nextchar := Some [], optind := optind g + 1, optopt := 0\<rparr>)
     } else (case pfound of
       Some (p, option_index) \<Rightarrow> do {
         (r, g) \<leftarrow> getopt_long_found print_errors optstring p option_index (name_rest nc) argc argv g;
         Some (Return r, argv, g)
       }
     | None \<Rightarrow> getopt_long_unknown print_errors optstring long_only nc argv g)
   }"

text \<open>Whether the element is to be decoded as a long option.\<close>

definition getopt_is_long :: "cstr \<Rightarrow> bool \<Rightarrow> cstr list \<Rightarrow> getopt_globals \<Rightarrow> bool option" where
  "getopt_is_long optstring long_only argv g = do {
     s \<leftarrow> rdi argv (optind g);
     c1 \<leftarrow> char_at s 1;
     if c1 = 45 then Some True
     else if \<not> long_only then Some False
     else do {
       c2 \<leftarrow> char_at s 2;
       Some (c2 \<noteq> 0 \<or> my_index optstring c1 = None)
     }
   }"

section \<open>Short options\<close>

text \<open>The search for the argument of \<open>-W\<close>, in which two abbreviations are always ambiguous.\<close>

fun W_scan ::
  "cstr \<Rightarrow> int \<Rightarrow> long_option list \<Rightarrow> (long_option \<times> int) option \<Rightarrow> bool \<Rightarrow>
   (long_option \<times> int) option \<times> bool \<times> bool" where
  "W_scan nm i [] pfound ambig = (pfound, False, ambig)"
| "W_scan nm i (p # ps) pfound ambig =
     (if take (length nm) (lo_name p) = nm then
        (if (ucast (of_nat (length nm) :: u32) :: u64) = of_nat (length (lo_name p)) then (Some (p, i), True, ambig)
         else (case pfound of
                 None \<Rightarrow> W_scan nm (i + 1) ps (Some (p, i)) ambig
               | Some _ \<Rightarrow> W_scan nm (i + 1) ps pfound True))
      else W_scan nm (i + 1) ps pfound ambig)"

definition getopt_W_found ::
  "bool \<Rightarrow> cstr \<Rightarrow> long_option \<Rightarrow> int \<Rightarrow> cstr \<Rightarrow> int \<Rightarrow> cstr list \<Rightarrow> getopt_globals \<Rightarrow>
   (int \<times> getopt_globals) option" where
  "getopt_W_found print_errors optstring p option_index rest argc argv g =
     (if rest \<noteq> [] then
        (if lo_has_arg p \<noteq> 0 then Some (getopt_long_finish p option_index (g\<lparr>optarg := Some (tl rest)\<rparr>))
         else do {
           g \<leftarrow> (if print_errors then print_message argv (\<lambda>prog. Msg_W_takes_no_argument prog (lo_name p)) g
                 else Some g);
           Some (63, g\<lparr>nextchar := Some []\<rparr>)
         })
      else if lo_has_arg p = 1 then
        (if optind g < argc then do {
           arg \<leftarrow> rdi argv (optind g);
           Some (getopt_long_finish p option_index (g\<lparr>optarg := Some arg, optind := optind g + 1\<rparr>))
         }
         else do {
           g \<leftarrow> (if print_errors then do {
                    s \<leftarrow> rdi argv (optind g - 1);
                    print_message argv (\<lambda>prog. Msg_long_requires_argument prog s) g
                  } else Some g);
           Some (missing_argument optstring, g\<lparr>nextchar := Some []\<rparr>)
         })
      else Some (getopt_long_finish p option_index g))"

text \<open>\<open>arg\<close> is the argument of \<open>-W\<close>; without a table the search would follow a null pointer.\<close>

definition getopt_W_lookup ::
  "bool \<Rightarrow> cstr \<Rightarrow> long_option list option \<Rightarrow> cstr \<Rightarrow> int \<Rightarrow> cstr list \<Rightarrow> getopt_globals \<Rightarrow>
   (int \<times> cstr list \<times> getopt_globals) option" where
  "getopt_W_lookup print_errors optstring longopts arg argc argv g = do {
     let g = g\<lparr>optarg := Some arg, nextchar := Some arg\<rparr>;
     table \<leftarrow> longopts;
     let (pfound, exact, ambig) = W_scan (long_name arg) 0 table None False;
     if ambig \<and> \<not> exact then do {
       g \<leftarrow> (if print_errors then do {
                s \<leftarrow> rdi argv (optind g);
                print_message argv (\<lambda>prog. Msg_W_ambiguous prog s) g
              } else Some g);
       Some (63, argv, g\<lparr>nextchar := Some [], optind := optind g + 1\<rparr>)
     } else (case pfound of
       Some (p, option_index) \<Rightarrow> do {
         (r, g) \<leftarrow> getopt_W_found print_errors optstring p option_index (name_rest arg) argc argv g;
         Some (r, argv, g)
       }
     | None \<Rightarrow> Some (87, argv, g\<lparr>nextchar := None\<rparr>))
   }"

text \<open>
  A required argument: the rest of the element, or the next element. \<open>Inl\<close> is the error when
  there is none, with the value to return.
\<close>

definition required_arg ::
  "bool \<Rightarrow> cstr \<Rightarrow> u8 \<Rightarrow> cstr \<Rightarrow> int \<Rightarrow> cstr list \<Rightarrow> getopt_globals \<Rightarrow>
   ((int \<times> getopt_globals) + (cstr \<times> getopt_globals)) option" where
  "required_arg print_errors optstring c cs argc argv g =
     (if cs \<noteq> [] then Some (Inr (cs, g\<lparr>optarg := Some cs, optind := optind g + 1\<rparr>))
      else if optind g = argc then do {
        g \<leftarrow> (if print_errors then print_message argv (\<lambda>prog. Msg_requires_argument prog c) g else Some g);
        Some (Inl (missing_argument optstring, g\<lparr>optopt := char_int c\<rparr>))
      }
      else do {
        arg \<leftarrow> rdi argv (optind g);
        Some (Inr (arg, g\<lparr>optarg := Some arg, optind := optind g + 1\<rparr>))
      })"

text \<open>An option character that is not in \<open>optstring\<close>.\<close>

definition invalid_option ::
  "bool \<Rightarrow> u8 \<Rightarrow> cstr list \<Rightarrow> getopt_globals \<Rightarrow> (int \<times> cstr list \<times> getopt_globals) option" where
  "invalid_option print_errors c argv g = do {
     g \<leftarrow> (if print_errors then
             print_message argv (\<lambda>prog. if posixly_correct g \<noteq> None then Msg_illegal_option prog c
                                        else Msg_invalid_option prog c) g
           else Some g);
     Some (63, argv, g\<lparr>optopt := char_int c\<rparr>)
   }"

definition getopt_short_option ::
  "bool \<Rightarrow> cstr \<Rightarrow> long_option list option \<Rightarrow> int \<Rightarrow> cstr list \<Rightarrow> getopt_globals \<Rightarrow>
   (int \<times> cstr list \<times> getopt_globals) option" where
  "getopt_short_option print_errors optstring longopts argc argv g = do {
     nc \<leftarrow> nextchar g;
     (case nc of
        [] \<Rightarrow> None
      | c # cs \<Rightarrow> do {
          let g = g\<lparr>nextchar := Some cs, optind := if cs = [] then optind g + 1 else optind g\<rparr>;
          (case my_index optstring c of
             None \<Rightarrow> invalid_option print_errors c argv g
           | Some temp \<Rightarrow>
               if c = 58 then invalid_option print_errors c argv g
               else if take 2 temp = [87, 59] then do {
                 arg \<leftarrow> required_arg print_errors optstring c cs argc argv g;
                 (case arg of
                    Inl (r, g) \<Rightarrow> Some (r, argv, g)
                  | Inr (arg, g) \<Rightarrow> getopt_W_lookup print_errors optstring longopts arg argc argv g)
               }
               else if take 2 (tl temp) = [58, 58] then
                 (if cs \<noteq> [] then
                    Some (char_int c, argv, g\<lparr>optarg := Some cs, optind := optind g + 1, nextchar := None\<rparr>)
                  else Some (char_int c, argv, g\<lparr>optarg := None, nextchar := None\<rparr>))
               else if take 1 (tl temp) = [58] then do {
                 arg \<leftarrow> required_arg print_errors optstring c cs argc argv g;
                 (case arg of
                    Inl (r, g) \<Rightarrow> Some (r, argv, g\<lparr>nextchar := None\<rparr>)
                  | Inr (_, g) \<Rightarrow> Some (char_int c, argv, g\<lparr>nextchar := None\<rparr>))
               }
               else Some (char_int c, argv, g))
        })
   }"

section \<open>The functions\<close>

definition getopt_internal ::
  "cstr option \<Rightarrow> int \<Rightarrow> cstr list \<Rightarrow> cstr \<Rightarrow> long_option list option \<Rightarrow> bool \<Rightarrow> getopt_globals \<Rightarrow>
   (int \<times> cstr list \<times> getopt_globals) option" where
  "getopt_internal posix argc argv optstring longopts long_only g = do {
     let print_errors = (opterr g \<noteq> 0 \<and> take 1 optstring \<noteq> [58]);
     if argc < 1 then Some (- 1, argv, g)
     else do {
       let g = g\<lparr>optarg := None\<rparr>;
       let (optstring, g) =
         (if optind g = 0 \<or> \<not> getopt_initialized g then
            (let g = (if optind g = 0 then g\<lparr>optind := 1\<rparr> else g);
                 (optstring, g) = getopt_initialize posix optstring g
             in (optstring, g\<lparr>getopt_initialized := True\<rparr>))
          else (optstring, g));
       (flow, argv, g) \<leftarrow> getopt_advance longopts argc argv g;
       (case flow of
          Return r \<Rightarrow> Some (r, argv, g)
        | Continue \<Rightarrow> do {
            (flow, argv, g) \<leftarrow>
              (case longopts of
                 None \<Rightarrow> Some (Continue, argv, g)
               | Some table \<Rightarrow> do {
                   long \<leftarrow> getopt_is_long optstring long_only argv g;
                   if long then getopt_long_option print_errors optstring table long_only argc argv g
                   else Some (Continue, argv, g)
                 });
            (case flow of
               Return r \<Rightarrow> Some (r, argv, g)
             | Continue \<Rightarrow> getopt_short_option print_errors optstring longopts argc argv g)
          })
     }
   }"

text \<open>
  The three entry points; \<open>getopt\<close> passes a null \<open>longind\<close>, and \<open>opt_index\<close> is the value
  \<open>*opt_index\<close> has before the call, when the pointer is not null.
\<close>

definition getopt_long ::
  "cstr option \<Rightarrow> int \<Rightarrow> cstr list \<Rightarrow> cstr \<Rightarrow> long_option list option \<Rightarrow> int option \<Rightarrow> getopt_globals \<Rightarrow>
   (int \<times> cstr list \<times> getopt_globals) option" where
  "getopt_long posix argc argv options longopts opt_index g =
     getopt_internal posix argc argv options longopts False (g\<lparr>getopt_longind := opt_index\<rparr>)"

definition getopt_long_only ::
  "cstr option \<Rightarrow> int \<Rightarrow> cstr list \<Rightarrow> cstr \<Rightarrow> long_option list option \<Rightarrow> int option \<Rightarrow> getopt_globals \<Rightarrow>
   (int \<times> cstr list \<times> getopt_globals) option" where
  "getopt_long_only posix argc argv options longopts opt_index g =
     getopt_internal posix argc argv options longopts True (g\<lparr>getopt_longind := opt_index\<rparr>)"

definition getopt ::
  "cstr option \<Rightarrow> int \<Rightarrow> cstr list \<Rightarrow> cstr \<Rightarrow> getopt_globals \<Rightarrow>
   (int \<times> cstr list \<times> getopt_globals) option" where
  "getopt posix argc argv optstring g =
     getopt_internal posix argc argv optstring None False (g\<lparr>getopt_longind := None\<rparr>)"

section \<open>The loop of the programs\<close>

text \<open>
  \<open>while ((opt = getopt(argc, argv, optstring)) != EOF) switch (opt) \<dots>\<close>. The body gets the
  option and \<open>optarg\<close>; \<open>Inl\<close> is an exit from the loop, and \<open>None\<close> would be a loop that does
  not end, too.
\<close>

partial_function (option) getopt_loop ::
  "cstr option \<Rightarrow> cstr \<Rightarrow> (int \<Rightarrow> cstr option \<Rightarrow> 's \<Rightarrow> ('e + 's) option) \<Rightarrow> int \<Rightarrow> cstr list \<Rightarrow>
   getopt_globals \<Rightarrow> 's \<Rightarrow> (('e + 's) \<times> cstr list \<times> getopt_globals) option" where
  "getopt_loop posix optstring body argc argv g s = do {
     (opt, argv, g) \<leftarrow> getopt posix argc argv optstring g;
     if opt = - 1 then Some (Inr s, argv, g)
     else do {
       res \<leftarrow> body opt (optarg g) s;
       (case res of
          Inl e \<Rightarrow> Some (Inl e, argv, g)
        | Inr s \<Rightarrow> getopt_loop posix optstring body argc argv g s)
     }
   }"

end
