(* ===== verification/Getopt_Correct.thy ===== *)
theory Getopt_Correct
  imports Getopt
begin

text \<open>
  \<open>getopt\<close> against a reference parser: \<open>exchange\<close> is a rotation, and the sequence of calls that
  a program makes yields the options the reference parser reads off the command line from
  left to right, with the operands moved behind them in their order.
\<close>

section \<open>The rotation\<close>

lemma rdi_append [simp]: "rdi (xs @ y # ys) (int (length xs)) = Some y"
  by (simp add: rdi_def)

lemma wri_append [simp]: "wri (xs @ y # ys) (int (length xs)) z = Some (xs @ z # ys)"
  by (simp add: wri_def)

lemma swap_args_append:
  assumes "i = int (length P)" and "j = int (length (P @ a # M))"
  shows "swap_args i j (P @ a # M @ b # S) = Some (P @ b # M @ a # S)"
proof -
  have "rdi (P @ a # M @ b # S) j = Some b" "wri (P @ b # M @ b # S) j a = Some (P @ b # M @ a # S)"
    using rdi_append [of "P @ a # M"] wri_append [of "P @ b # M"] assms(2) by simp_all
  then show ?thesis by (simp add: swap_args_def assms(1))
qed

lemma swap_segments_Suc:
  "swap_segments a b (1 + int n) argv = swap_args a b argv \<bind> swap_segments (a + 1) (b + 1) (int n)"
proof -
  have *: "for_loop (map Suc is) f = for_loop is (\<lambda>i. f (Suc i))" for "is" and f :: "nat \<Rightarrow> cstr list \<Rightarrow> cstr list option"
  proof
    show "for_loop (map Suc is) f s = for_loop is (\<lambda>i. f (Suc i)) s" for s
      by (induction "is" arbitrary: s) (auto split: bind_splits)
  qed
  have "[0..<Suc n] = 0 # map Suc [0..<n]" by (simp add: map_Suc_upt upt_conv_Cons del: upt_Suc)
  moreover have "nat (1 + int n) = Suc n" by simp
  moreover have "swap_segments (a + 1) (b + 1) (int n) =
      for_loop [0..<n] (\<lambda>i. swap_args (a + int (Suc i)) (b + int (Suc i)))"
    by (simp add: swap_segments_def fun_eq_iff add_ac)
  ultimately show ?thesis
    by (simp add: swap_segments_def * del: upt_Suc)
qed

lemma swap_segments_append:
  assumes "length A = length B" and "a = int (length P)" and "b = int (length (P @ A @ M))"
  shows "swap_segments a b (int (length A)) (P @ A @ M @ B @ S) = Some (P @ B @ M @ A @ S)"
  using assms
proof (induction A B arbitrary: P M S a b rule: list_induct2)
  case Nil
  then show ?case by (simp add: swap_segments_def)
next
  case (Cons x A y B)
  have "swap_segments (a + 1) (b + 1) (int (length A)) ((P @ [y]) @ A @ (M @ [x]) @ B @ S)
      = Some ((P @ [y]) @ B @ (M @ [x]) @ A @ S)"
    using Cons.hyps Cons.prems by (intro Cons.IH) simp_all
  moreover have "swap_args a b (P @ x # (A @ M) @ y # (B @ S)) = Some (P @ y # (A @ M) @ x # (B @ S))"
    using Cons.prems by (intro swap_args_append) simp_all
  ultimately show ?case by (simp add: swap_segments_Suc)
qed

lemma exchange_loop_append:
  assumes "bottom = int (length P)" and "middle = bottom + int (length A)" and "upper = middle + int (length B)"
    and "argv = P @ A @ B @ S"
  shows "exchange_loop bottom middle upper argv = Some (P @ B @ A @ S)"
  using assms
proof (induction bottom middle upper argv arbitrary: P A B S rule: exchange_loop.induct)
  case (1 bottom middle upper argv)
  show ?case
  proof (cases "A = [] \<or> B = []")
    case True
    with 1 show ?thesis by (auto simp: exchange_loop.simps)
  next
    case False
    then have go: "upper > middle \<and> middle > bottom" using "1.prems" by simp
    show ?thesis
    proof (cases "upper - middle > middle - bottom")
      case True
      define k where "k = length B - length A"
      have k: "length (drop k B) = length A" "k + length A = length B" using True "1.prems" by (simp_all add: k_def)
      have B: "B = take k B @ drop k B" by simp
      have swap: "swap_segments bottom (upper - (middle - bottom)) (middle - bottom) argv
          = Some (P @ drop k B @ take k B @ A @ S)"
      proof -
        have "middle - bottom = int (length A)" "upper - (middle - bottom) = int (length (P @ A @ take k B))"
          "argv = P @ A @ take k B @ drop k B @ S"
          using k "1.prems" by simp_all
        moreover have "swap_segments bottom (int (length (P @ A @ take k B))) (int (length A))
            (P @ A @ take k B @ drop k B @ S) = Some (P @ drop k B @ take k B @ A @ S)"
          using k "1.prems" by (intro swap_segments_append) simp_all
        ultimately show ?thesis by (simp only:)
      qed
      have "exchange_loop bottom middle (upper - (middle - bottom)) (P @ drop k B @ take k B @ A @ S)
          = Some (P @ take k B @ drop k B @ A @ S)"
        using k "1.prems" by (intro "1.IH"(1) [OF go True swap]) simp_all
      with go True swap show ?thesis
        by (simp add: exchange_loop.simps [of bottom middle upper])
    next
      case le: False
      define k where "k = length B"
      have k: "length (take k A) = length B" using le "1.prems" by (simp add: k_def)
      have swap: "swap_segments bottom middle (upper - middle) argv = Some (P @ B @ drop k A @ take k A @ S)"
      proof -
        have "argv = P @ take k A @ drop k A @ B @ S" "upper - middle = int (length (take k A))"
          using k "1.prems" by simp_all
        moreover have "swap_segments bottom middle (int (length (take k A))) (P @ take k A @ drop k A @ B @ S)
            = Some (P @ B @ drop k A @ take k A @ S)"
          using k "1.prems" by (intro swap_segments_append) simp_all
        ultimately show ?thesis by (simp only:)
      qed
      have "exchange_loop (bottom + (upper - middle)) middle upper (P @ B @ drop k A @ take k A @ S)
          = Some ((P @ B) @ take k A @ drop k A @ S)"
        using k "1.prems" by (intro "1.IH"(2) [OF go le swap]) (simp_all add: k_def)
      with go le swap show ?thesis
        by (simp add: exchange_loop.simps [of bottom middle upper])
    qed
  qed
qed

lemma exchange_append:
  assumes "first_nonopt g = int (length P)" and "last_nonopt g = int (length (P @ A))"
    and "optind g = int (length (P @ A @ B))"
  shows "exchange (P @ A @ B @ S) g =
     Some (P @ B @ A @ S, g\<lparr>first_nonopt := int (length (P @ B)), last_nonopt := optind g\<rparr>)"
  using assms by (simp add: exchange_def exchange_loop_append [of _ P _ A _ B])

lemma exchange_split:
  assumes "0 \<le> first_nonopt g" and "first_nonopt g \<le> last_nonopt g" and "last_nonopt g \<le> optind g"
    and "optind g \<le> int (length argv)"
  shows "exchange argv g =
     (let f = nat (first_nonopt g); l = nat (last_nonopt g); k = nat (optind g)
      in Some (take f argv @ drop l (take k argv) @ drop f (take l argv) @ drop k argv,
               g\<lparr>first_nonopt := first_nonopt g + (optind g - last_nonopt g), last_nonopt := optind g\<rparr>))"
proof -
  define f l k where "f = nat (first_nonopt g)" and "l = nat (last_nonopt g)" and "k = nat (optind g)"
  have le: "f \<le> l" "l \<le> k" "k \<le> length argv" and
    g: "first_nonopt g = int f" "last_nonopt g = int l" "optind g = int k"
    using assms by (simp_all add: f_def l_def k_def)
  have "take f argv @ drop f (take l argv) = take l argv"
    using append_take_drop_id [of f "take l argv"] le by (simp add: min_def)
  moreover have "take l argv @ drop l (take k argv) = take k argv"
    using append_take_drop_id [of l "take k argv"] le by (simp add: min_def)
  ultimately have argv: "take f argv @ drop f (take l argv) @ drop l (take k argv) @ drop k argv = argv"
    by (metis append.assoc append_take_drop_id)
  have "exchange (take f argv @ drop f (take l argv) @ drop l (take k argv) @ drop k argv) g =
     Some (take f argv @ drop l (take k argv) @ drop f (take l argv) @ drop k argv,
           g\<lparr>first_nonopt := int (length (take f argv @ drop l (take k argv))), last_nonopt := optind g\<rparr>)"
    using le g by (intro exchange_append) simp_all
  moreover have "int (length (take f argv @ drop l (take k argv))) = first_nonopt g + (optind g - last_nonopt g)"
    using le g by simp
  ultimately have "exchange argv g =
     Some (take f argv @ drop l (take k argv) @ drop f (take l argv) @ drop k argv,
           g\<lparr>first_nonopt := first_nonopt g + (optind g - last_nonopt g), last_nonopt := optind g\<rparr>)"
    unfolding argv by simp
  then show ?thesis by (simp add: f_def l_def k_def Let_def)
qed

text \<open>
  C25 (equivalence). \<open>exchange\<close> moves the options processed last in front of the non-options
  skipped before them: the two segments of \<open>argv\<close> change places, each in its order and with
  every other element where it was, and \<open>first_nonopt\<close>, \<open>last_nonopt\<close> describe the place the
  non-options have then. It is the rotation that a copy of the segments would give.
\<close>

theorem exchange_rotates:
  assumes "0 \<le> first_nonopt g" and "first_nonopt g \<le> last_nonopt g" and "last_nonopt g \<le> optind g"
    and "optind g \<le> int (length argv)"
  shows "exchange argv g =
     (let f = nat (first_nonopt g); l = nat (last_nonopt g); k = nat (optind g)
      in Some (take f argv @ drop l (take k argv) @ drop f (take l argv) @ drop k argv,
               g\<lparr>first_nonopt := first_nonopt g + (optind g - last_nonopt g), last_nonopt := optind g\<rparr>))"
  using assms by (rule exchange_split)

theorem exchange_rotates_witness:
  "exchange [[112], [120], [121], [45, 97]]
     (getopt_globals0\<lparr>first_nonopt := 1, last_nonopt := 3, optind := 4\<rparr>) =
   Some ([[112], [45, 97], [120], [121]],
     getopt_globals0\<lparr>first_nonopt := 2, last_nonopt := 4, optind := 4\<rparr>)"
  using exchange_rotates [of "getopt_globals0\<lparr>first_nonopt := 1, last_nonopt := 3, optind := 4\<rparr>"
    "[[112], [120], [121], [45, 97]]"]
  by (simp add: getopt_globals0_def eval_nat_numeral)

section \<open>The reference parser\<close>

text \<open>What \<open>optstring\<close> says of an option character.\<close>

datatype arity = No_Argument | Optional_Argument | Required_Argument

definition option_arity :: "cstr \<Rightarrow> u8 \<Rightarrow> arity option" where
  "option_arity os c =
     (if c = 58 then None
      else case dropWhile (\<lambda>x. x \<noteq> c) os of
        [] \<Rightarrow> None
      | _ # t \<Rightarrow> Some (if take 2 t = [58, 58] then Optional_Argument
                       else if take 1 t = [58] then Required_Argument else No_Argument))"

text \<open>An option as a program sees it: the value of \<open>getopt\<close> and \<open>optarg\<close>.\<close>

type_synonym option_event = "int \<times> cstr option"

text \<open>The options in the rest of one element, and the elements left after them.\<close>

fun ref_cluster :: "cstr \<Rightarrow> cstr \<Rightarrow> cstr list \<Rightarrow> option_event list \<times> cstr list" where
  "ref_cluster os [] rest = ([], rest)"
| "ref_cluster os (c # cs) rest =
     (case option_arity os c of
        None \<Rightarrow> apfst (Cons (63, None)) (ref_cluster os cs rest)
      | Some No_Argument \<Rightarrow> apfst (Cons (char_int c, None)) (ref_cluster os cs rest)
      | Some Optional_Argument \<Rightarrow> ([(char_int c, if cs = [] then None else Some cs)], rest)
      | Some Required_Argument \<Rightarrow>
          if cs \<noteq> [] then ([(char_int c, Some cs)], rest)
          else (case rest of [] \<Rightarrow> ([(missing_argument os, None)], [])
                | x # rest' \<Rightarrow> ([(char_int c, Some x)], rest')))"

lemma ref_cluster_length: "length (snd (ref_cluster os cs rest)) \<le> length rest"
  by (induction os cs rest rule: ref_cluster.induct)
    (auto split: option.splits arity.splits list.splits)

text \<open>
  The options, the elements they were read from (with \<open>--\<close>), and the operands. With \<open>posix\<close>
  the first operand ends the options.
\<close>

function ref_parse :: "bool \<Rightarrow> cstr \<Rightarrow> cstr list \<Rightarrow> option_event list \<times> cstr list \<times> cstr list" where
  "ref_parse posix os [] = ([], [], [])"
| "ref_parse posix os (e # rest) =
     (if e = str_dashdash then ([], [e], rest)
      else if NONOPTION_P e then
        (if posix then ([], [], e # rest)
         else case ref_parse posix os rest of (evs, front, back) \<Rightarrow> (evs, front, e # back))
      else case ref_cluster os (tl e) rest of (evs, rest') \<Rightarrow>
        (case ref_parse posix os rest' of (evs', front, back) \<Rightarrow>
           (evs @ evs', e # take (length rest - length rest') rest @ front, back)))"
  by pat_completeness auto
termination
proof (relation "measure (\<lambda>(posix, os, rest). length rest)", goal_cases)
  case (3 posix os e rest evs rest')
  then show ?case using ref_cluster_length [of os "tl e" rest] by (simp flip: 3(3))
qed simp_all

section \<open>States of the scan\<close>

text \<open>
  \<open>argv\<close> between two calls: what has been put in its place, the operands skipped, the options
  read since then, and the rest. With \<open>REQUIRE_ORDER\<close> nothing is ever skipped.
\<close>

definition scan_at ::
  "bool \<Rightarrow> cstr list \<Rightarrow> cstr list \<Rightarrow> cstr list \<Rightarrow> cstr list \<Rightarrow> cstr list \<Rightarrow> getopt_globals \<Rightarrow> bool" where
  "scan_at posix pre skipped recent rest argv g \<longleftrightarrow>
     pre \<noteq> [] \<and> argv = pre @ skipped @ recent @ rest \<and> getopt_initialized g \<and>
     first_nonopt g = int (length pre) \<and> last_nonopt g = int (length (pre @ skipped)) \<and>
     optind g = int (length (pre @ skipped @ recent)) \<and>
     arg_ordering g = (if posix then REQUIRE_ORDER else PERMUTE) \<and> (posix \<longrightarrow> skipped = [])"

text \<open>Between two elements, with the events, the front and the back of \<open>argv\<close> still to come.\<close>

definition at_element ::
  "bool \<Rightarrow> cstr \<Rightarrow> option_event list \<Rightarrow> cstr list \<Rightarrow> cstr list \<Rightarrow> cstr list \<Rightarrow> getopt_globals \<Rightarrow> bool" where
  "at_element posix os evs front back argv g \<longleftrightarrow>
     (\<exists>pre skipped recent rest fr bk.
        scan_at posix pre skipped recent rest argv g \<and> (nextchar g = None \<or> nextchar g = Some []) \<and>
        ref_parse posix os rest = (evs, fr, bk) \<and> front = pre @ recent @ fr \<and> back = skipped @ bk)"

text \<open>Inside an element.\<close>

definition in_element ::
  "bool \<Rightarrow> cstr \<Rightarrow> option_event list \<Rightarrow> cstr list \<Rightarrow> cstr list \<Rightarrow> cstr list \<Rightarrow> getopt_globals \<Rightarrow> bool" where
  "in_element posix os evs front back argv g \<longleftrightarrow>
     (\<exists>pre skipped recent e rest c cs evs1 rest' evs2 fr bk.
        scan_at posix pre skipped recent (e # rest) argv g \<and> nextchar g = Some (c # cs) \<and>
        ref_cluster os (c # cs) rest = (evs1, rest') \<and> ref_parse posix os rest' = (evs2, fr, bk) \<and>
        evs = evs1 @ evs2 \<and> front = pre @ recent @ e # take (length rest - length rest') rest @ fr \<and>
        back = skipped @ bk)"

definition scanning ::
  "bool \<Rightarrow> cstr \<Rightarrow> option_event list \<Rightarrow> cstr list \<Rightarrow> cstr list \<Rightarrow> cstr list \<Rightarrow> getopt_globals \<Rightarrow> bool" where
  "scanning posix os evs front back argv g \<longleftrightarrow>
     at_element posix os evs front back argv g \<or> in_element posix os evs front back argv g"

section \<open>One call\<close>

lemma skip_nonoptions_append:
  assumes "argc = int (length (P @ rest))" and "i = int (length P)"
  shows "skip_nonoptions argc (P @ rest) i = Some (i + int (length (takeWhile NONOPTION_P rest)))"
  using assms
proof (induction rest arbitrary: P i)
  case Nil
  then show ?case by (simp add: skip_nonoptions.simps)
next
  case (Cons e rest)
  then have "skip_nonoptions argc ((P @ [e]) @ rest) (i + 1) = Some (i + 1 + int (length (takeWhile NONOPTION_P rest)))"
    by (intro Cons.IH) simp_all
  with Cons.prems(1,2) show ?case
    unfolding skip_nonoptions.simps [of argc "P @ e # rest" i] by simp
qed

lemma permute_at:
  assumes "scan_at False pre skipped recent rest argv g"
  shows "\<exists>g'. getopt_permute (int (length argv)) argv g = Some (pre @ recent @ skipped @ rest, g') \<and>
    scan_at False (pre @ recent) (skipped @ takeWhile NONOPTION_P rest) [] (dropWhile NONOPTION_P rest)
      (pre @ recent @ skipped @ rest) g' \<and> optarg g' = optarg g \<and> nextchar g' = nextchar g"
proof -
  have skip: "skip_nonoptions (int (length argv)) (pre @ recent @ skipped @ rest) (optind g)
     = Some (optind g + int (length (takeWhile NONOPTION_P rest)))"
    using assms skip_nonoptions_append [of "int (length argv)" "pre @ recent @ skipped" rest "optind g"]
    by (simp add: scan_at_def)
  have rest: "takeWhile NONOPTION_P rest @ dropWhile NONOPTION_P rest = rest" by simp
  show ?thesis
  proof (cases "skipped = [] \<or> recent = []")
    case True
    with assms skip rest show ?thesis by (auto simp: getopt_permute_def scan_at_def)
  next
    case False
    with assms have "exchange argv g = Some (pre @ recent @ skipped @ rest,
        g\<lparr>first_nonopt := int (length (pre @ recent)), last_nonopt := optind g\<rparr>)"
      using exchange_append [of g pre skipped recent rest] by (simp add: scan_at_def)
    with False assms skip rest show ?thesis by (auto simp: getopt_permute_def scan_at_def)
  qed
qed

text \<open>The cases of the next element, once the options have been put in front of the non-options.\<close>

lemma rdi_at:
  "scan_at posix pre skipped recent (e # rest) argv g \<Longrightarrow> rdi argv (optind g) = Some e"
  using rdi_append [of "pre @ skipped @ recent" e rest] by (simp add: scan_at_def)

lemma NONOPTION_not_dashdash: "NONOPTION_P e \<Longrightarrow> e \<noteq> str_dashdash"
  by (auto simp: str_dashdash_def)

lemma option_element: "\<not> NONOPTION_P e \<Longrightarrow> \<exists>c cs. e = 45 # c # cs"
  by (cases e rule: NONOPTION_P.cases) auto

lemma end_at:
  assumes "scan_at posix pre skipped recent [] argv g" and "skipped = [] \<or> recent = []"
  shows "\<exists>g'. (getopt_dashdash (int (length argv)) argv g \<bind> (\<lambda>(a, g). getopt_element None (int (length argv)) a g))
      = Some (Return (- 1), (pre @ recent) @ skipped, g') \<and> optind g' = int (length (pre @ recent))"
  using assms by (auto simp: scan_at_def getopt_dashdash_def getopt_element_def)

lemma dashdash_at:
  assumes "scan_at posix pre skipped recent (str_dashdash # rest) argv g" and "skipped = [] \<or> recent = []"
  shows "\<exists>g'. (getopt_dashdash (int (length argv)) argv g \<bind> (\<lambda>(a, g). getopt_element None (int (length argv)) a g))
      = Some (Return (- 1), (pre @ recent @ [str_dashdash]) @ skipped @ rest, g') \<and>
    optind g' = int (length (pre @ recent @ [str_dashdash]))"
proof (cases "skipped = []")
  case True
  with assms rdi_at [OF assms(1)] show ?thesis
    by (auto simp: scan_at_def getopt_dashdash_def getopt_element_def)
next
  case False
  let ?g = "g\<lparr>optind := optind g + 1\<rparr>"
  have "exchange argv ?g = Some (pre @ [str_dashdash] @ skipped @ rest,
      ?g\<lparr>first_nonopt := int (length (pre @ [str_dashdash])), last_nonopt := optind ?g\<rparr>)"
    using exchange_append [of ?g pre skipped "[str_dashdash]" rest] assms False by (simp add: scan_at_def)
  with False assms rdi_at [OF assms(1)] show ?thesis
    by (auto simp: scan_at_def getopt_dashdash_def getopt_element_def)
qed

lemma operand_at:
  assumes "scan_at True pre skipped recent (e # rest) argv g" and "NONOPTION_P e"
  shows "\<exists>g'. (getopt_dashdash (int (length argv)) argv g \<bind> (\<lambda>(a, g). getopt_element None (int (length argv)) a g))
      = Some (Return (- 1), (pre @ recent) @ skipped @ e # rest, g') \<and> optind g' = int (length (pre @ recent))"
  using assms rdi_at [OF assms(1)] NONOPTION_not_dashdash [OF assms(2)]
  by (auto simp: scan_at_def getopt_dashdash_def getopt_element_def)

lemma option_at:
  assumes "scan_at posix pre skipped recent (e # rest) argv g" and "e \<noteq> str_dashdash" and "\<not> NONOPTION_P e"
  shows "(getopt_dashdash (int (length argv)) argv g \<bind> (\<lambda>(a, g). getopt_element None (int (length argv)) a g))
      = Some (Continue, argv, g\<lparr>nextchar := Some (tl e)\<rparr>)"
proof -
  obtain c cs where "e = 45 # c # cs" using option_element [OF assms(3)] by blast
  then have "char_at e 1 = Some c" "drop 1 e = tl e" by (simp_all add: char_at_def)
  moreover have "optind g \<noteq> int (length argv)" using assms(1) by (auto simp: scan_at_def)
  ultimately show ?thesis
    using assms rdi_at [OF assms(1)] by (simp add: getopt_dashdash_def getopt_element_def)
qed

lemma ref_cluster_nonempty: "cs \<noteq> [] \<Longrightarrow> fst (ref_cluster os cs rest) \<noteq> []"
  by (cases cs) (auto split: option.splits arity.splits list.splits)

lemma in_elementI:
  assumes "scan_at posix pre skipped recent (e # rest) argv g" and "nextchar g = Some (c # cs)"
    and "ref_cluster os (c # cs) rest = (evs1, rest')" and "ref_parse posix os rest' = (evs2, fr, bk)"
    and "evs = evs1 @ evs2" and "front = pre @ recent @ e # take (length rest - length rest') rest @ fr"
    and "back = skipped @ bk"
  shows "in_element posix os evs front back argv g"
  using assms unfolding in_element_def by blast

lemma element_at:
  assumes at: "scan_at posix pre skipped recent rest argv g" and "skipped = [] \<or> recent = []"
    and "posix \<or> rest = [] \<or> \<not> NONOPTION_P (hd rest)"
    and ref: "ref_parse posix os rest = (evs, fr, bk)" and fb: "front = pre @ recent @ fr" "back = skipped @ bk"
  shows "\<exists>flow argv' g'. (getopt_dashdash (int (length argv)) argv g \<bind> (\<lambda>(a, g). getopt_element None (int (length argv)) a g))
      = Some (flow, argv', g') \<and>
    (case flow of
       Return r \<Rightarrow> r = - 1 \<and> evs = [] \<and> argv' = front @ back \<and> optind g' = int (length front)
     | Continue \<Rightarrow> in_element posix os evs front back argv' g' \<and> optarg g' = optarg g)"
proof (cases rest)
  case Nil
  with end_at [of posix pre skipped recent argv g] assms show ?thesis by fastforce
next
  case (Cons e r)
  consider (dd) "e = str_dashdash" | (non) "e \<noteq> str_dashdash" "NONOPTION_P e" | (opt) "e \<noteq> str_dashdash" "\<not> NONOPTION_P e"
    by blast
  then show ?thesis
  proof cases
    case dd
    with dashdash_at [of posix pre skipped recent r argv g] assms Cons show ?thesis by fastforce
  next
    case non
    with assms Cons have posix by auto
    with operand_at [of pre skipped recent e r argv g] non assms Cons show ?thesis by fastforce
  next
    case opt
    obtain evs1 rest' where cl: "ref_cluster os (tl e) r = (evs1, rest')" by (meson surj_pair)
    obtain evs2 fr2 bk2 where p: "ref_parse posix os rest' = (evs2, fr2, bk2)" by (rule prod_cases3)
    obtain c cs where e: "e = 45 # c # cs" using option_element [OF opt(2)] by blast
    have evs: "evs = evs1 @ evs2" "fr = e # take (length r - length rest') r @ fr2" "bk = bk2"
      using ref Cons opt cl p by auto
    have "scan_at posix pre skipped recent (e # r) argv (g\<lparr>nextchar := Some (tl e)\<rparr>)"
      using at Cons by (simp add: scan_at_def)
    then have "in_element posix os evs front back argv (g\<lparr>nextchar := Some (tl e)\<rparr>)"
      using cl p evs e fb by (intro in_elementI [where cs = cs and c = c]) auto
    with option_at [OF at [unfolded Cons] opt] show ?thesis by simp
  qed
qed

lemma ref_parse_skip:
  "ref_parse False os rest =
     (case ref_parse False os (dropWhile NONOPTION_P rest) of
        (evs, fr, bk) \<Rightarrow> (evs, fr, takeWhile NONOPTION_P rest @ bk))"
proof (induction rest)
  case Nil
  then show ?case by simp
next
  case (Cons e rest)
  then show ?case
    by (cases "NONOPTION_P e") (auto simp: NONOPTION_not_dashdash split: prod.split)
qed

lemma advance_at:
  assumes "at_element posix os evs front back argv g"
  shows "\<exists>flow argv' g'. getopt_advance None (int (length argv)) argv g = Some (flow, argv', g') \<and>
    (case flow of
       Return r \<Rightarrow> r = - 1 \<and> evs = [] \<and> argv' = front @ back \<and> optind g' = int (length front)
     | Continue \<Rightarrow> in_element posix os evs front back argv' g' \<and> optarg g' = optarg g)"
proof -
  obtain pre skipped recent rest fr bk where
    at: "scan_at posix pre skipped recent rest argv g" and nc: "nextchar g = None \<or> nextchar g = Some []"
    and ref: "ref_parse posix os rest = (evs, fr, bk)" and fb: "front = pre @ recent @ fr" "back = skipped @ bk"
    using assms unfolding at_element_def by blast
  have clamp: "\<not> last_nonopt g > optind g" "\<not> first_nonopt g > optind g" using at by (simp_all add: scan_at_def)
  show ?thesis
  proof (cases posix)
    case True
    then have "skipped = []" "arg_ordering g = REQUIRE_ORDER" using at by (simp_all add: scan_at_def)
    with True element_at [OF at _ _ ref fb] nc clamp show ?thesis by (simp add: getopt_advance_def)
  next
    case False
    then have posix: "posix = False" by simp
    obtain g' where perm: "getopt_permute (int (length argv)) argv g = Some (pre @ recent @ skipped @ rest, g')"
      and at': "scan_at False (pre @ recent) (skipped @ takeWhile NONOPTION_P rest) [] (dropWhile NONOPTION_P rest)
        (pre @ recent @ skipped @ rest) g'" and arg: "optarg g' = optarg g"
      using permute_at [of pre skipped recent rest argv g] at [unfolded posix] by blast
    obtain evs' fr' bk' where "ref_parse False os (dropWhile NONOPTION_P rest) = (evs', fr', bk')" by (rule prod_cases3)
    moreover from this have "evs' = evs" "fr' = fr" "bk = takeWhile NONOPTION_P rest @ bk'"
      using ref_parse_skip [of os rest] ref False by simp_all
    ultimately have ref': "ref_parse False os (dropWhile NONOPTION_P rest) = (evs, fr, bk')"
      and bk: "bk = takeWhile NONOPTION_P rest @ bk'" by simp_all
    have fb': "front = (pre @ recent) @ [] @ fr" "back = (skipped @ takeWhile NONOPTION_P rest) @ bk'"
      using fb bk by simp_all
    have len: "int (length (pre @ recent @ skipped @ rest)) = int (length argv)"
      using at by (simp add: scan_at_def)
    have hd: "dropWhile NONOPTION_P rest = [] \<or> \<not> NONOPTION_P (hd (dropWhile NONOPTION_P rest))"
      using hd_dropWhile by blast
    have "arg_ordering g = PERMUTE" using at False by (simp add: scan_at_def)
    with element_at [OF at' _ _ ref' fb'] hd perm nc clamp
    show ?thesis unfolding posix len arg [symmetric] by (simp add: getopt_advance_def)
  qed
qed

section \<open>Short options\<close>

text \<open>Option strings that use neither \<open>W;\<close> nor a leading \<open>+\<close> or \<open>-\<close>.\<close>

definition plain_optstring :: "cstr \<Rightarrow> bool" where
  "plain_optstring os \<longleftrightarrow> 59 \<notin> set os \<and> 255 \<notin> set os \<and> take 1 os \<noteq> [43] \<and> take 1 os \<noteq> [45]"

lemma my_index_dropWhile:
  "my_index os c = (case dropWhile (\<lambda>x. x \<noteq> c) os of [] \<Rightarrow> None | t \<Rightarrow> Some t)"
  by (induction os) simp_all

lemma dropWhile_hd: "dropWhile (\<lambda>x. x \<noteq> c) os = y # t \<Longrightarrow> y = c"
  using hd_dropWhile [of "\<lambda>x. x \<noteq> c" os] by simp

lemma not_W:
  assumes "plain_optstring os" and "dropWhile (\<lambda>x. x \<noteq> c) os = y # t"
  shows "take 2 (y # t) \<noteq> [87, 59]"
proof
  assume "take 2 (y # t) = [87, 59]"
  then have "59 \<in> set (take 2 (y # t))" by simp
  then have "59 \<in> set os" using assms(2) by (metis in_set_takeD set_dropWhileD)
  with assms(1) show False by (simp add: plain_optstring_def)
qed

lemma after_element:
  assumes "scan_at posix pre skipped recent (e # used @ rest) argv g" and "nextchar g' = None \<or> nextchar g' = Some []"
    and "optind g' = optind g + 1 + int (length used)" and "first_nonopt g' = first_nonopt g"
    and "last_nonopt g' = last_nonopt g" and "getopt_initialized g' = getopt_initialized g"
    and "arg_ordering g' = arg_ordering g" and "ref_parse posix os rest = (evs, fr, bk)"
    and "front = pre @ recent @ e # used @ fr" and "back = skipped @ bk"
  shows "scanning posix os evs front back argv g'"
proof -
  have "scan_at posix pre skipped (recent @ e # used) rest argv g'"
    using assms by (simp add: scan_at_def)
  then show ?thesis using assms unfolding scanning_def at_element_def by fastforce
qed

lemma same_element:
  assumes "scan_at posix pre skipped recent (e # rest) argv g" and "nextchar g' = Some cs"
    and "optind g' = (if cs = [] then optind g + 1 else optind g)" and "first_nonopt g' = first_nonopt g"
    and "last_nonopt g' = last_nonopt g" and "getopt_initialized g' = getopt_initialized g"
    and "arg_ordering g' = arg_ordering g" and "ref_cluster os cs rest = (evs1, rest')"
    and "ref_parse posix os rest' = (evs2, fr, bk)" and "evs = evs1 @ evs2"
    and "front = pre @ recent @ e # take (length rest - length rest') rest @ fr" and "back = skipped @ bk"
  shows "scanning posix os evs front back argv g'"
proof (cases cs)
  case Nil
  with assms after_element [of posix pre skipped recent e "[]" rest argv g g' os evs2 fr bk] show ?thesis by simp
next
  case (Cons c cs')
  with assms have "scan_at posix pre skipped recent (e # rest) argv g'" by (simp add: scan_at_def)
  with Cons assms show ?thesis
    unfolding scanning_def by (auto intro: in_elementI)
qed

text \<open>A message changes nothing but \<open>stderr\<close>.\<close>

lemma print_message_defined:
  "argv \<noteq> [] \<Longrightarrow> print_message argv msg g = Some (g\<lparr>getopt_stderr := getopt_stderr g @ [msg (hd argv)]\<rparr>)"
  by (simp add: print_message_def rdi_def hd_conv_nth)

lemma short_option_at:
  assumes os: "plain_optstring os" and el: "in_element posix os evs front back argv g" and "optarg g = None"
  shows "\<exists>r g' evs'. getopt_short_option pe os None (int (length argv)) argv g = Some (r, argv, g') \<and>
    evs = (r, optarg g') # evs' \<and> scanning posix os evs' front back argv g'"
proof -
  obtain pre skipped recent e rest c cs evs1 rest' evs2 fr bk where
    at: "scan_at posix pre skipped recent (e # rest) argv g" and nc: "nextchar g = Some (c # cs)"
    and cl: "ref_cluster os (c # cs) rest = (evs1, rest')" and ref: "ref_parse posix os rest' = (evs2, fr, bk)"
    and ev: "evs = evs1 @ evs2" and fb: "front = pre @ recent @ e # take (length rest - length rest') rest @ fr"
      "back = skipped @ bk"
    using el unfolding in_element_def by blast
  obtain evs1' rest'' where cl': "ref_cluster os cs rest = (evs1', rest'')" by (meson surj_pair)
  have argv: "argv \<noteq> []" using at by (auto simp: scan_at_def)
  let ?g = "g\<lparr>nextchar := Some cs, optind := if cs = [] then optind g + 1 else optind g\<rparr>"
  note defs = getopt_short_option_def nc my_index_dropWhile Let_def
  show ?thesis
  proof (cases "option_arity os c")
    case None
    then have "c = 58 \<or> dropWhile (\<lambda>x. x \<noteq> c) os = []"
      by (auto simp: option_arity_def split: list.splits if_splits)
    then have short: "getopt_short_option pe os None (int (length argv)) argv g = invalid_option pe c argv ?g"
      by (elim disjE) (simp_all add: defs del: dropWhile_eq_Nil_conv split: list.split)
    obtain g' where inv: "invalid_option pe c argv ?g = Some (63, argv, g')" "optarg g' = None"
      and g': "nextchar g' = Some cs" "optind g' = optind ?g" "first_nonopt g' = first_nonopt g"
        "last_nonopt g' = last_nonopt g" "getopt_initialized g' = getopt_initialized g" "arg_ordering g' = arg_ordering g"
      using argv \<open>optarg g = None\<close> by (cases pe) (auto simp: invalid_option_def print_message_defined)
    have evs: "evs1 = (63, None) # evs1'" "rest'' = rest'" using None cl cl' by auto
    have "scanning posix os (evs1' @ evs2) front back argv g'"
      using cl' g' fb ref evs by (intro same_element [OF at]) simp_all
    with short inv ev evs show ?thesis by simp
  next
    case (Some a)
    then obtain t where c: "c \<noteq> 58" and drop: "dropWhile (\<lambda>x. x \<noteq> c) os = c # t"
      by (auto simp: option_arity_def dest: dropWhile_hd split: list.splits if_splits)
    note noW = not_W [OF os drop]
    show ?thesis
    proof (cases a)
      case No_Argument
      then have "take 1 t \<noteq> [58]" "take 2 t \<noteq> [58, 58]"
        using Some c drop by (auto simp: option_arity_def split: if_splits)
      with c drop noW have short: "getopt_short_option pe os None (int (length argv)) argv g = Some (char_int c, argv, ?g)"
        by (cases "c = 87") (simp_all add: defs)
      have evs: "evs1 = (char_int c, None) # evs1'" "rest'' = rest'" using Some No_Argument cl cl' by auto
      have "scanning posix os (evs1' @ evs2) front back argv ?g"
        using cl' fb ref evs by (intro same_element [OF at]) simp_all
      with short ev evs \<open>optarg g = None\<close> show ?thesis by simp
    next
      case Optional_Argument
      then have t: "take 2 t = [58, 58]" using Some c drop by (auto simp: option_arity_def split: if_splits)
      let ?h = "g\<lparr>optarg := if cs = [] then None else Some cs, optind := optind g + 1, nextchar := None\<rparr>"
      have short: "getopt_short_option pe os None (int (length argv)) argv g = Some (char_int c, argv, ?h)"
        using t c drop noW by (cases "c = 87") (simp_all add: defs)
      have evs: "evs1 = [(char_int c, if cs = [] then None else Some cs)]" "rest' = rest"
        using Some Optional_Argument cl by auto
      have "scanning posix os evs2 front back argv ?h"
        using at fb ref evs by (intro after_element [where used = "[]"]) simp_all
      with short ev evs show ?thesis by simp
    next
      case Required_Argument
      then have t: "take 1 t = [58]" "take 2 t \<noteq> [58, 58]"
        using Some c drop by (auto simp: option_arity_def split: if_splits)
      then have short: "getopt_short_option pe os None (int (length argv)) argv g =
          required_arg pe os c cs (int (length argv)) argv ?g \<bind>
            (\<lambda>arg. case arg of Inl (r, g) \<Rightarrow> Some (r, argv, g\<lparr>nextchar := None\<rparr>)
                        | Inr (_, g) \<Rightarrow> Some (char_int c, argv, g\<lparr>nextchar := None\<rparr>))"
        using c drop noW by (cases "c = 87") (simp_all add: defs)
      consider (rest) "cs \<noteq> []" | (missing) "cs = []" "rest = []" | (taken) x r where "cs = []" "rest = x # r"
        by (cases rest) auto
      then show ?thesis
      proof cases
        case rest
        let ?h = "g\<lparr>optarg := Some cs, optind := optind g + 1, nextchar := None\<rparr>"
        have evs: "evs1 = [(char_int c, Some cs)]" "rest' = rest" using Some Required_Argument cl rest by auto
        have "scanning posix os evs2 front back argv ?h"
          using at fb ref evs by (intro after_element [where used = "[]"]) simp_all
        with short ev evs rest show ?thesis by (simp add: required_arg_def)
      next
        case missing
        then have end_of: "optind g + 1 = int (length argv)" using at by (simp add: scan_at_def)
        obtain g' where req: "required_arg pe os c cs (int (length argv)) argv ?g = Some (Inl (missing_argument os, g'))"
          and g': "optarg g' = None" "optind g' = optind g + 1" "first_nonopt g' = first_nonopt g"
            "last_nonopt g' = last_nonopt g" "getopt_initialized g' = getopt_initialized g" "arg_ordering g' = arg_ordering g"
          using missing end_of argv \<open>optarg g = None\<close>
          by (cases pe) (auto simp: required_arg_def print_message_defined)
        have evs: "evs1 = [(missing_argument os, None)]" "rest' = []" using Some Required_Argument cl missing by auto
        have nil: "evs2 = []" "fr = []" "bk = []" using ref evs by auto
        have "scanning posix os evs2 front back argv (g'\<lparr>nextchar := None\<rparr>)"
          using at fb evs g' missing nil by (intro after_element [where used = "[]" and rest = "[]" and fr = fr and bk = bk]) simp_all
        with short req ev evs g' show ?thesis by simp
      next
        case taken
        let ?h = "g\<lparr>optarg := Some x, optind := optind g + 2, nextchar := None\<rparr>"
        have i: "optind g + 1 = int (length (pre @ skipped @ recent @ [e]))" and a: "argv = (pre @ skipped @ recent @ [e]) @ x # r"
          using at taken by (simp_all add: scan_at_def)
        have "rdi argv (optind g + 1) = Some x" unfolding i a by (rule rdi_append)
        moreover have "optind g + 1 \<noteq> int (length argv)" using i a by simp
        ultimately have req: "required_arg pe os c cs (int (length argv)) argv ?g =
            Some (Inr (x, ?g\<lparr>optarg := Some x, optind := optind g + 2\<rparr>))"
          using taken by (simp add: required_arg_def)
        have evs: "evs1 = [(char_int c, Some x)]" "rest' = r" using Some Required_Argument cl taken by auto
        have "scanning posix os evs2 front back argv ?h"
          using at fb ref evs taken by (intro after_element [where used = "[x]"]) simp_all
        with short req ev evs taken show ?thesis by simp
      qed
    qed
  qed
qed

section \<open>The sequence of calls\<close>

text \<open>No element is lost or duplicated.\<close>

lemma ref_cluster_drop: "snd (ref_cluster os cs rest) = drop (length rest - length (snd (ref_cluster os cs rest))) rest"
proof (induction os cs rest rule: ref_cluster.induct)
  case (2 os c cs rest)
  then show ?case by (cases rest) (auto split: option.split arity.split)
qed simp

lemma ref_cluster_mset:
  assumes "ref_cluster os cs rest = (evs, rest')"
  shows "mset (take (length rest - length rest') rest) + mset rest' = mset rest"
  using ref_cluster_drop [of os cs rest] assms by (metis append_take_drop_id mset_append snd_conv)

lemma ref_parse_mset: "ref_parse posix os rest = (evs, fr, bk) \<Longrightarrow> mset fr + mset bk = mset rest"
proof (induction posix os rest arbitrary: evs fr bk rule: ref_parse.induct)
  case (1 posix os)
  then show ?case by simp
next
  case (2 posix os e rest)
  obtain evs1 rest' where cl: "ref_cluster os (tl e) rest = (evs1, rest')" by (meson surj_pair)
  note rest = ref_cluster_mset [OF cl]
  obtain evs2 fr2 bk2 where p2: "ref_parse posix os rest' = (evs2, fr2, bk2)" by (rule prod_cases3)
  obtain evs3 fr3 bk3 where p3: "ref_parse posix os rest = (evs3, fr3, bk3)" by (rule prod_cases3)
  show ?case
  proof (cases "e = str_dashdash \<or> NONOPTION_P e")
    case True
    then show ?thesis using "2.IH"(1) [OF _ _ _ p3] "2.prems" p3 by (auto split: if_splits)
  next
    case False
    then have "mset fr2 + mset bk2 = mset rest'" using "2.IH"(2) [OF _ _ cl [symmetric] p2] by auto
    then show ?thesis using "2.prems" False cl p2 rest by (auto simp: add.assoc)
  qed
qed

lemma scanning_mset:
  assumes "scanning posix os evs front back argv g"
  shows "mset argv = mset (front @ back)"
proof (cases "at_element posix os evs front back argv g")
  case True
  then show ?thesis by (auto simp: at_element_def scan_at_def dest: ref_parse_mset)
next
  case False
  then obtain pre skipped recent e rest c cs evs1 rest' evs2 fr bk where
    "argv = pre @ skipped @ recent @ e # rest" "ref_cluster os (c # cs) rest = (evs1, rest')"
    "ref_parse posix os rest' = (evs2, fr, bk)"
    "front = pre @ recent @ e # take (length rest - length rest') rest @ fr" "back = skipped @ bk"
    using assms unfolding scanning_def in_element_def scan_at_def by blast
  moreover from this have "mset (take (length rest - length rest') rest) + mset rest' = mset rest"
    "mset fr + mset bk = mset rest'"
    using ref_cluster_mset ref_parse_mset by blast+
  ultimately show ?thesis by simp
qed

lemma scan_at_started: "scan_at posix pre skipped recent rest argv g \<Longrightarrow> optind g \<noteq> 0 \<and> getopt_initialized g \<and> argv \<noteq> []"
  by (cases pre) (auto simp: scan_at_def)

lemma getopt_step:
  assumes os: "plain_optstring os" and at: "scanning posix os evs front back argv g"
  shows "\<exists>r argv' g'. getopt env (int (length argv)) argv os g = Some (r, argv', g') \<and>
    (case evs of
       [] \<Rightarrow> r = - 1 \<and> argv' = front @ back \<and> optind g' = int (length front)
     | (v, a) # evs' \<Rightarrow> r = v \<and> optarg g' = a \<and> scanning posix os evs' front back argv' g')"
proof -
  let ?g = "g\<lparr>getopt_longind := None, optarg := None\<rparr>"
  have at': "scanning posix os evs front back argv ?g"
    using at by (auto simp: scanning_def at_element_def in_element_def scan_at_def)
  have init: "optind g \<noteq> 0" "getopt_initialized g" "argv \<noteq> []"
    using at unfolding scanning_def at_element_def in_element_def by (blast dest: scan_at_started)+
  then have "\<not> int (length argv) < 1" by (cases argv) simp_all
  with init have call: "getopt env (int (length argv)) argv os g =
    getopt_advance None (int (length argv)) argv ?g \<bind>
      (\<lambda>(flow, argv', g). case flow of Return r \<Rightarrow> Some (r, argv', g)
         | Continue \<Rightarrow> getopt_short_option (opterr ?g \<noteq> 0 \<and> take 1 os \<noteq> [58]) os None (int (length argv)) argv' g)"
    by (simp add: getopt_def getopt_internal_def Let_def cong: getopt_flow.case_cong)
  have short: "\<exists>r g' evs'. getopt_short_option pe os None (int (length argv)) argv' h = Some (r, argv', g') \<and>
      evs = (r, optarg g') # evs' \<and> scanning posix os evs' front back argv' g'"
    if "in_element posix os evs front back argv' h" "optarg h = None" for argv' h pe
  proof -
    have "mset argv' = mset argv"
      using that(1) scanning_mset [OF at] scanning_mset [where argv = argv' and g = h and evs = evs]
      unfolding scanning_def by metis
    then have "length argv' = length argv" by (metis size_mset)
    with short_option_at [OF os that] show ?thesis by metis
  qed
  show ?thesis
  proof (cases "in_element posix os evs front back argv ?g")
    case True
    then have "getopt_advance None (int (length argv)) argv ?g = Some (Continue, argv, ?g)"
      by (auto simp: in_element_def getopt_advance_def)
    with call short [OF True] show ?thesis by fastforce
  next
    case False
    then have "at_element posix os evs front back argv ?g" using at' by (simp add: scanning_def)
    from advance_at [OF this] obtain flow argv' g' where
      adv: "getopt_advance None (int (length argv)) argv ?g = Some (flow, argv', g')" and
      "case flow of Return r \<Rightarrow> r = - 1 \<and> evs = [] \<and> argv' = front @ back \<and> optind g' = int (length front)
        | Continue \<Rightarrow> in_element posix os evs front back argv' g' \<and> optarg g' = optarg ?g"
      by blast
    with call short [of argv' g'] show ?thesis by (cases flow) fastforce+
  qed
qed

section \<open>The loop of a program\<close>

text \<open>What the body of the loop does with a list of options.\<close>

fun run_events :: "(int \<Rightarrow> cstr option \<Rightarrow> 's \<Rightarrow> ('e + 's) option) \<Rightarrow> option_event list \<Rightarrow> 's \<Rightarrow> ('e + 's) option" where
  "run_events body [] s = Some (Inr s)"
| "run_events body ((v, a) # evs) s =
     (case body v a s of
        None \<Rightarrow> None
      | Some (Inl e) \<Rightarrow> Some (Inl e)
      | Some (Inr s') \<Rightarrow> run_events body evs s')"

text \<open>No option can be mistaken for the end.\<close>

lemma option_arity_member:
  assumes "option_arity os c = Some a"
  shows "c \<in> set os"
proof (rule ccontr)
  assume "c \<notin> set os"
  then have "dropWhile (\<lambda>x. x \<noteq> c) os = []" unfolding dropWhile_eq_Nil_conv by blast
  with assms show False
    by (simp add: option_arity_def del: dropWhile_eq_Nil_conv split: if_splits)
qed

lemma char_int_neq:
  assumes "plain_optstring os" and "option_arity os c = Some a"
  shows "char_int c \<noteq> - 1"
proof
  assume "char_int c = - 1"
  then have "word_of_int (sint c) = (- 1 :: u8)" by (simp add: char_int_def)
  then have "c = 255" by simp
  with option_arity_member [OF assms(2)] assms(1) show False by (simp add: plain_optstring_def)
qed

lemma ref_cluster_values:
  assumes "plain_optstring os"
  shows "(v, a) \<in> set (fst (ref_cluster os cs rest)) \<Longrightarrow> v \<noteq> - 1"
  using assms
  by (induction os cs rest rule: ref_cluster.induct)
    (auto simp: missing_argument_def dest: char_int_neq split: option.splits arity.splits list.splits if_splits)

lemma ref_parse_events:
  "(\<And>cs rest ev. ev \<in> set (fst (ref_cluster os cs rest)) \<Longrightarrow> P ev) \<Longrightarrow>
   ref_parse posix os rest = (evs, fr, bk) \<Longrightarrow> ev \<in> set evs \<Longrightarrow> P ev"
proof (induction posix os rest arbitrary: evs fr bk rule: ref_parse.induct)
  case (1 posix os)
  then show ?case by simp
next
  case (2 posix os e rest)
  obtain evs1 rest' where cl: "ref_cluster os (tl e) rest = (evs1, rest')" by (meson surj_pair)
  obtain evs2 fr2 bk2 where p2: "ref_parse posix os rest' = (evs2, fr2, bk2)" by (rule prod_cases3)
  obtain evs3 fr3 bk3 where p3: "ref_parse posix os rest = (evs3, fr3, bk3)" by (rule prod_cases3)
  show ?case
  proof (cases "e = str_dashdash \<or> NONOPTION_P e")
    case True
    then show ?thesis using "2.IH"(1) [OF _ _ _ "2.prems"(1) p3] "2.prems" p3 by (auto split: if_splits)
  next
    case False
    then have "ev \<in> set evs1 \<or> ev \<in> set evs2" using "2.prems" cl p2 by auto
    moreover have "ev \<in> set evs2 \<Longrightarrow> P ev" using "2.IH"(2) [OF _ _ cl [symmetric] "2.prems"(1) p2] False by auto
    moreover have "ev \<in> set evs1 \<Longrightarrow> P ev" using "2.prems"(1) [of ev "tl e" rest] cl by simp
    ultimately show ?thesis by blast
  qed
qed

lemma ref_parse_values:
  assumes "plain_optstring os" and "ref_parse posix os rest = (evs, fr, bk)" and "(v, a) \<in> set evs"
  shows "v \<noteq> - 1"
  using ref_parse_events [where P = "\<lambda>(v, a). v \<noteq> - 1", OF _ assms(2,3)] ref_cluster_values [OF assms(1)] by fast

text \<open>The options a program is given: an error, or an option with an argument where it takes one.\<close>

definition valid_event :: "cstr \<Rightarrow> option_event \<Rightarrow> bool" where
  "valid_event os ev \<longleftrightarrow> ev = (63, None) \<or> ev = (missing_argument os, None) \<or>
     (\<exists>c. c \<in> set os \<and> option_arity os c = Some No_Argument \<and> ev = (char_int c, None)) \<or>
     (\<exists>c a. c \<in> set os \<and> option_arity os c = Some Optional_Argument \<and> ev = (char_int c, a)) \<or>
     (\<exists>c x. c \<in> set os \<and> option_arity os c = Some Required_Argument \<and> ev = (char_int c, Some x))"

lemma ref_cluster_valid: "ev \<in> set (fst (ref_cluster os cs rest)) \<Longrightarrow> valid_event os ev"
  by (induction os cs rest rule: ref_cluster.induct)
    (auto simp: valid_event_def dest: option_arity_member split: option.splits arity.splits list.splits if_splits)

lemma ref_parse_valid:
  assumes "ref_parse posix os rest = (evs, fr, bk)" and "ev \<in> set evs"
  shows "valid_event os ev"
  using ref_cluster_valid by (rule ref_parse_events [OF _ assms])

lemma getopt_loop_scanning:
  fixes body :: "int \<Rightarrow> cstr option \<Rightarrow> 's \<Rightarrow> ('e + 's) option"
  assumes os: "plain_optstring os" and "scanning posix os evs front back argv g"
    and "\<And>v a. (v, a) \<in> set evs \<Longrightarrow> v \<noteq> - 1" and "argc = int (length argv)"
  shows "map_option fst (getopt_loop env os body argc argv g s) = run_events body evs s \<and>
    (\<forall>res argv' g'. getopt_loop env os body argc argv g s = Some (res, argv', g') \<longrightarrow>
       mset argv' = mset argv \<and>
       (\<forall>s'. res = Inr s' \<longrightarrow> argv' = front @ back \<and> optind g' = int (length front)))"
  using assms
proof (induction evs arbitrary: argv g s)
  case Nil
  from getopt_step [OF os Nil(2)] obtain g' where
    "getopt env argc argv os g = Some (- 1, front @ back, g')" "optind g' = int (length front)"
    using Nil by auto
  then show ?case using scanning_mset [OF Nil(2)] by (simp add: getopt_loop.simps)
next
  case (Cons ev evs)
  obtain v a where ev: "ev = (v, a)" by (cases ev)
  from getopt_step [OF os Cons.prems(2), of env] obtain argv' g' where
    call: "getopt env argc argv os g = Some (v, argv', g')" and "optarg g' = a"
    and sc: "scanning posix os evs front back argv' g'"
    unfolding Cons.prems(4) ev by auto
  have "v \<noteq> - 1" using Cons.prems ev by auto
  have m: "mset argv' = mset argv"
    using scanning_mset [OF sc] scanning_mset [OF Cons.prems(2)] by simp
  then have "argc = int (length argv')" using Cons.prems(4) by (metis size_mset)
  note IH = Cons.IH [OF os sc _ this]
  show ?case
  proof (cases "body v a s")
    case None
    with call \<open>v \<noteq> - 1\<close> \<open>optarg g' = a\<close> ev show ?thesis by (subst getopt_loop.simps) (simp add: getopt_loop.simps)
  next
    case (Some res)
    show ?thesis
    proof (cases res)
      case (Inl e)
      with Some call \<open>v \<noteq> - 1\<close> \<open>optarg g' = a\<close> ev m show ?thesis
        by (simp add: getopt_loop.simps [of _ _ _ _ argv])
    next
      case (Inr s')
      then have "getopt_loop env os body argc argv g s = getopt_loop env os body argc argv' g' s'"
        using Some call \<open>v \<noteq> - 1\<close> \<open>optarg g' = a\<close> by (simp add: getopt_loop.simps [of _ _ _ _ argv g])
      with IH [of s'] Cons.prems(3) Some Inr ev m show ?thesis by auto
    qed
  qed
qed

text \<open>The first call only initialises more.\<close>

definition getopt_started :: "cstr option \<Rightarrow> getopt_globals" where
  "getopt_started env = getopt_globals0\<lparr>first_nonopt := 1, last_nonopt := 1, posixly_correct := env,
     arg_ordering := if env \<noteq> None then REQUIRE_ORDER else PERMUTE, getopt_initialized := True\<rparr>"

lemma getopt_first_call:
  assumes "plain_optstring os" and "1 \<le> argc"
  shows "getopt env argc argv os getopt_globals0 = getopt env argc argv os (getopt_started env)"
  using assms
  by (simp add: getopt_def getopt_internal_def getopt_initialize_def getopt_started_def getopt_globals0_def
      plain_optstring_def Let_def)

lemma getopt_loop_first_call:
  assumes "plain_optstring os" and "1 \<le> argc"
  shows "getopt_loop env os body argc argv getopt_globals0 s = getopt_loop env os body argc argv (getopt_started env) s"
  by (simp only: getopt_loop.simps [of _ _ _ _ _ getopt_globals0] getopt_loop.simps [of _ _ _ _ _ "getopt_started env"]
      getopt_first_call [OF assms])

lemma getopt_loop_reference:
  fixes body :: "int \<Rightarrow> cstr option \<Rightarrow> 's \<Rightarrow> ('e + 's) option"
  assumes os: "plain_optstring os" and ref: "ref_parse (env \<noteq> None) os args = (evs, front, back)"
  shows "map_option fst (getopt_loop env os body (int (length (p # args))) (p # args) getopt_globals0 s)
      = run_events body evs s \<and>
    (\<forall>res argv' g'. getopt_loop env os body (int (length (p # args))) (p # args) getopt_globals0 s = Some (res, argv', g') \<longrightarrow>
       mset argv' = mset (p # args) \<and>
       (\<forall>s'. res = Inr s' \<longrightarrow> argv' = p # front @ back \<and> optind g' = int (length (p # front))))"
proof -
  let ?g = "getopt_started env"
  have "scanning (env \<noteq> None) os evs (p # front) back (p # args) ?g"
    unfolding scanning_def at_element_def
  proof (intro disjI1 exI conjI)
    show "scan_at (env \<noteq> None) [p] [] [] args (p # args) ?g"
      by (simp add: scan_at_def getopt_started_def getopt_globals0_def)
    show "nextchar ?g = None" by (simp add: getopt_started_def getopt_globals0_def)
    show "ref_parse (env \<noteq> None) os args = (evs, front, back)" by (rule ref)
  qed simp_all
  from getopt_loop_scanning [OF os this _ refl, where env = env and body = body and s = s]
    ref_parse_values [OF os ref]
  show ?thesis using getopt_loop_first_call [OF os, where argc = "int (length (p # args))" and env = env
        and body = body and argv = "p # args" and s = s] by simp
qed

end
