(* ===== verification/Tools_Argv.thy ===== *)
theory Tools_Argv
  imports Small_Tools Getopt_Correct
begin

text \<open>
  The programs from their command line: the loops over \<open>getopt\<close> at the start of each \<open>main\<close>,
  with the option string of the program and what its \<open>switch\<close> makes of the value of \<open>getopt\<close>
  and of \<open>optarg\<close>. \<open>posix\<close> is the value of \<open>POSIXLY_CORRECT\<close> in the environment.
\<close>

section \<open>The loops\<close>

text \<open>
  One round of a loop: the cases of the \<open>switch\<close>, then what the program does with the option.
  An option whose argument is dereferenced has no meaning with a null \<open>optarg\<close>.
\<close>

definition switch_body ::
  "(int \<Rightarrow> cstr option \<Rightarrow> 'opt option) \<Rightarrow> ('opt list \<Rightarrow> 's \<Rightarrow> (unit + 's) option) \<Rightarrow>
   int \<Rightarrow> cstr option \<Rightarrow> 's \<Rightarrow> (unit + 's) option" where
  "switch_body option_of handle opt arg s = option_of opt arg \<bind> (\<lambda>x. handle [x] s)"

text \<open>\<open>r:ws:f:a:n:g:l:t:m:dhz\<close>\<close>

definition rx_optstring :: cstr where
  "rx_optstring = [114, 58, 119, 115, 58, 102, 58, 97, 58, 110, 58, 103, 58, 108, 58, 116, 58, 109, 58, 100, 104, 122]"

definition rx_option_of :: "int \<Rightarrow> cstr option \<Rightarrow> rx_option option" where
  "rx_option_of opt arg =
     (if opt = 114 then map_option Opt_r arg
      else if opt = 119 then Some Opt_w
      else if opt = 115 then map_option Opt_s arg
      else if opt = 102 then map_option Opt_f arg
      else if opt = 97 then map_option Opt_a arg
      else if opt = 110 then map_option Opt_n arg
      else if opt = 103 then map_option Opt_g arg
      else if opt = 108 then map_option Opt_l arg
      else if opt = 116 then map_option Opt_t arg
      else if opt = 109 then map_option Opt_m arg
      else if opt = 100 then Some Opt_d
      else if opt = 104 then Some Opt_h
      else if opt = 122 then Some Opt_z
      else Some Opt_unknown)"

definition rx_main_argv ::
  "rx_world \<Rightarrow> cstr option \<Rightarrow> cstr list \<Rightarrow> trace \<Rightarrow> (rx_exit \<times> u8 list option \<times> trace) option" where
  "rx_main_argv W posix argv w = do {
     (res, _, _) \<leftarrow> getopt_loop posix rx_optstring (switch_body rx_option_of (rx_options_loop (w_scan W)))
                     (int (length argv)) argv getopt_globals0 (rx_options0 (w_serial W));
     rx_run W res w
   }"

text \<open>\<open>?hs:c:\<close>\<close>

definition calibrate_optstring :: cstr where
  "calibrate_optstring = [63, 104, 115, 58, 99, 58]"

definition calibrate_option_of :: "int \<Rightarrow> cstr option \<Rightarrow> calibrate_option option" where
  "calibrate_option_of opt arg =
     (if opt = 115 then map_option Cal_s arg
      else if opt = 99 then map_option Cal_c arg
      else Some Cal_usage)"

definition calibrate_main_argv ::
  "libm \<Rightarrow> iq_junk \<Rightarrow> env \<Rightarrow> cstr option \<Rightarrow> cstr list \<Rightarrow> trace \<Rightarrow> (rx_exit \<times> calibrate_report \<times> trace) option" where
  "calibrate_main_argv M J E posix argv w = do {
     (res, _, _) \<leftarrow> getopt_loop posix calibrate_optstring (switch_body calibrate_option_of calibrate_options)
                     (int (length argv)) argv getopt_globals0 \<lparr>cal_sn = None, cal_ppb = None\<rparr>;
     calibrate_run M J E res w
   }"

text \<open>\<open>s:0:1:2:3:h?\<close>\<close>

definition gpio_optstring :: cstr where
  "gpio_optstring = [115, 58, 48, 58, 49, 58, 50, 58, 51, 58, 104, 63]"

definition gpio_option_of :: "int \<Rightarrow> cstr option \<Rightarrow> gpio_option option" where
  "gpio_option_of opt arg =
     (if 48 \<le> opt \<and> opt \<le> 51 then map_option (Gpio_level (nat (opt - 48))) arg
      else if opt = 115 then map_option Gpio_s arg
      else Some Gpio_usage)"

definition gpio_main_argv ::
  "libm \<Rightarrow> iq_junk \<Rightarrow> env \<Rightarrow> cstr option \<Rightarrow> cstr list \<Rightarrow> trace \<Rightarrow> (rx_exit \<times> trace) option" where
  "gpio_main_argv M J E posix argv w = do {
     (res, _, _) \<leftarrow> getopt_loop posix gpio_optstring (switch_body gpio_option_of gpio_options)
                     (int (length argv)) argv getopt_globals0 (gpio0, None);
     gpio_run M J E res w
   }"

text \<open>\<open>?hs:\<close>\<close>

definition info_optstring :: cstr where
  "info_optstring = [63, 104, 115, 58]"

definition info_option_of :: "int \<Rightarrow> cstr option \<Rightarrow> info_option option" where
  "info_option_of opt arg = (if opt = 115 then map_option Info_s arg else Some Info_usage)"

definition info_main_argv ::
  "libm \<Rightarrow> iq_junk \<Rightarrow> env \<Rightarrow> cstr option \<Rightarrow> cstr list \<Rightarrow> trace \<Rightarrow> (rx_exit \<times> info_report list \<times> trace) option" where
  "info_main_argv M J E posix argv w = do {
     (res, _, _) \<leftarrow> getopt_loop posix info_optstring (switch_body info_option_of info_options)
                     (int (length argv)) argv getopt_globals0 None;
     info_run M J E res w
   }"

section \<open>What the programs are given\<close>

text \<open>The options of a command line, read from left to right, as the program takes them.\<close>

definition command_line ::
  "(int \<Rightarrow> cstr option \<Rightarrow> 'opt option) \<Rightarrow> cstr \<Rightarrow> cstr option \<Rightarrow> cstr list \<Rightarrow> 'opt list" where
  "command_line option_of os posix args =
     List.map_filter (\<lambda>(v, a). option_of v a) (fst (ref_parse (posix \<noteq> None) os args))"

text \<open>
  An option handler that takes a list one by one, and an option string that lets \<open>getopt\<close> give
  an argument to every option that needs one, is all that the loop relies on.
\<close>

locale option_program =
  fixes option_of :: "int \<Rightarrow> cstr option \<Rightarrow> 'opt option"
    and handle :: "'opt list \<Rightarrow> 's \<Rightarrow> (unit + 's) option"
    and os :: cstr
  assumes handle_Nil: "handle [] s = Some (Inr s)"
    and handle_Cons: "handle (x # xs) s =
      (case handle [x] s of None \<Rightarrow> None | Some (Inl u) \<Rightarrow> Some (Inl u) | Some (Inr s') \<Rightarrow> handle xs s')"
    and plain: "plain_optstring os"
    and given: "option_of v (Some arg) \<noteq> None"
    and error: "option_of 63 None \<noteq> None" "option_of (missing_argument os) None \<noteq> None"
    and without: "\<forall>c \<in> set os. option_arity os c \<noteq> Some Required_Argument \<longrightarrow> option_of (char_int c) None \<noteq> None"
begin

lemma argument: "valid_event os (v, a) \<Longrightarrow> option_of v a \<noteq> None"
  using given error without by (cases a) (auto simp: valid_event_def)

lemma run_events_handle:
  assumes "\<And>v a. (v, a) \<in> set evs \<Longrightarrow> option_of v a \<noteq> None"
  shows "run_events (switch_body option_of handle) evs s = handle (List.map_filter (\<lambda>(v, a). option_of v a) evs) s"
  using assms
proof (induction evs arbitrary: s)
  case Nil
  then show ?case by (simp add: handle_Nil map_filter_simps)
next
  case (Cons ev evs)
  obtain v a where ev: "ev = (v, a)" by (cases ev)
  then obtain x where x: "option_of v a = Some x" using Cons.prems [of v a] by auto
  have IH: "run_events (switch_body option_of handle) evs s' = handle (List.map_filter (\<lambda>(v, a). option_of v a) evs) s'" for s'
    using Cons by simp
  have "switch_body option_of handle v a s = handle [x] s" by (simp add: switch_body_def x)
  then show ?case
    by (simp add: ev x map_filter_simps IH
        handle_Cons [of x "List.map_filter (\<lambda>(v, a). option_of v a) evs"]
        split: option.split sum.split)
qed

lemma loop_handles_command_line:
  fixes finish :: "unit + 's \<Rightarrow> 'r option"
  shows "(getopt_loop posix os (switch_body option_of handle) (int (length (p # args))) (p # args) getopt_globals0 s
      \<bind> (\<lambda>(res, _, _). finish res))
    = handle (command_line option_of os posix args) s \<bind> finish"
proof -
  let ?loop = "getopt_loop posix os (switch_body option_of handle) (int (length (p # args))) (p # args) getopt_globals0 s"
  obtain evs fr bk where ref: "ref_parse (posix \<noteq> None) os args = (evs, fr, bk)" by (rule prod_cases3)
  have "map_option fst ?loop = run_events (switch_body option_of handle) evs s"
    by (rule getopt_loop_reference [OF plain ref, THEN conjunct1])
  also have "\<dots> = handle (command_line option_of os posix args) s"
    unfolding command_line_def ref fst_conv
    by (rule run_events_handle) (rule argument [OF ref_parse_valid [OF ref]])
  finally have "map_option fst ?loop = handle (command_line option_of os posix args) s" .
  then have "handle (command_line option_of os posix args) s \<bind> finish = map_option fst ?loop \<bind> finish" by simp
  also have "\<dots> = ?loop \<bind> (\<lambda>(res, _, _). finish res)" by (cases ?loop) (auto split: prod.split)
  finally show ?thesis by simp
qed

end

lemma rx_options_Cons:
  "rx_options_loop S (x # xs) s =
     (case rx_options_loop S [x] s of None \<Rightarrow> None | Some (Inl u) \<Rightarrow> Some (Inl u) | Some (Inr s') \<Rightarrow> rx_options_loop S xs s')"
proof (cases "rx_option_step S x s")
  case (Some r)
  then show ?thesis by (cases r) (simp_all split: unit.split)
qed simp

lemma calibrate_options_Cons:
  "calibrate_options (x # xs) s =
     (case calibrate_options [x] s of None \<Rightarrow> None | Some (Inl u) \<Rightarrow> Some (Inl u) | Some (Inr s') \<Rightarrow> calibrate_options xs s')"
  by (cases x) (auto split: option.split)

lemma gpio_options_Cons:
  "gpio_options (x # xs) s =
     (case gpio_options [x] s of None \<Rightarrow> None | Some (Inl u) \<Rightarrow> Some (Inl u) | Some (Inr s') \<Rightarrow> gpio_options xs s')"
  by (cases s; cases x) (auto simp: Let_def split: option.split bind_split)

lemma info_options_Cons:
  "info_options (x # xs) s =
     (case info_options [x] s of None \<Rightarrow> None | Some (Inl u) \<Rightarrow> Some (Inl u) | Some (Inr s') \<Rightarrow> info_options xs s')"
  by (cases x) (auto split: option.split)

interpretation rx: option_program rx_option_of "rx_options_loop S" rx_optstring for S
proof (unfold_locales, goal_cases)
  case 2
  show ?case by (rule rx_options_Cons)
next
  case 7
  show ?case by (simp add: rx_optstring_def option_arity_def rx_option_of_def char_int_def)
qed (simp_all add: plain_optstring_def rx_optstring_def rx_option_of_def missing_argument_def)

interpretation calibrate: option_program calibrate_option_of calibrate_options calibrate_optstring
proof (unfold_locales, goal_cases)
  case 2
  show ?case by (rule calibrate_options_Cons)
next
  case 7
  show ?case by (simp add: calibrate_optstring_def option_arity_def calibrate_option_of_def char_int_def)
qed (simp_all add: plain_optstring_def calibrate_optstring_def calibrate_option_of_def missing_argument_def)

interpretation gpio: option_program gpio_option_of gpio_options gpio_optstring
proof (unfold_locales, goal_cases)
  case 2
  show ?case by (rule gpio_options_Cons)
next
  case 7
  show ?case by (simp add: gpio_optstring_def option_arity_def gpio_option_of_def char_int_def)
qed (simp_all add: plain_optstring_def gpio_optstring_def gpio_option_of_def missing_argument_def)

interpretation info: option_program info_option_of info_options info_optstring
proof (unfold_locales, goal_cases)
  case 2
  show ?case by (rule info_options_Cons)
next
  case 7
  show ?case by (simp add: info_optstring_def option_arity_def info_option_of_def char_int_def)
qed (simp_all add: plain_optstring_def info_optstring_def info_option_of_def missing_argument_def)

section \<open>The composition\<close>

text \<open>
  C15 (refinement). On every command line the four programs do what their \<open>main\<close> does with the
  options the reference parser reads off it from left to right, wherever operands stand
  among them; so every property of the programs in terms of their options holds for their
  command lines.
\<close>

theorem programs_read_command_line:
  "rx_main_argv W posix (p # args) w = rx_main W (command_line rx_option_of rx_optstring posix args) w \<and>
   calibrate_main_argv M J E posix (p # args) w =
     calibrate_main M J E (command_line calibrate_option_of calibrate_optstring posix args) w \<and>
   gpio_main_argv M J E posix (p # args) w =
     gpio_main M J E (command_line gpio_option_of gpio_optstring posix args) w \<and>
   info_main_argv M J E posix (p # args) w =
     info_main M J E (command_line info_option_of info_optstring posix args) w"
  unfolding rx_main_argv_def rx_main_def calibrate_main_argv_def calibrate_main_def
    gpio_main_argv_def gpio_main_def info_main_argv_def info_main_def
  by (intro conjI rx.loop_handles_command_line calibrate.loop_handles_command_line
      gpio.loop_handles_command_line info.loop_handles_command_line)

text \<open>
  The options that make the program stop reading its command line: those it rejects with the
  usage text, and those whose handling is undefined.
\<close>

fun bad_option :: "rx_option \<Rightarrow> bool" where
  "bad_option Opt_h = True"
| "bad_option (Opt_s arg) = (fst (parse_u64 arg 0) \<noteq> AIRSPYHF_SUCCESS)"
| "bad_option (Opt_a arg) = (fst (parse_u32 arg 0) \<noteq> AIRSPYHF_SUCCESS)"
| "bad_option (Opt_n arg) = (fst (parse_u64 arg 0) \<noteq> AIRSPYHF_SUCCESS)"
| "bad_option (Opt_t arg) = (\<exists>v. sscanf_d arg = Some (Some v) \<and> 8 < v)"
| "bad_option _ = False"

fun undefined_option :: "scanner \<Rightarrow> rx_option \<Rightarrow> bool" where
  "undefined_option S Opt_unknown = True"
| "undefined_option S (Opt_f arg) =
     (\<exists>f. S arg = Some f \<and> flt_to_int 0 (2 ^ 32 - 1) (mul32 f (int32f 1000000)) = None)"
| "undefined_option S (Opt_t arg) = (sscanf_d arg = None)"
| "undefined_option S _ = False"

lemma parse_result: "fst (parse_u64 arg v) = fst (parse_u64 arg 0)" "fst (parse_u32 arg x) = fst (parse_u32 arg 0)"
  by (simp_all add: parse_u64_def parse_u32_def Let_def split: prod.split)

lemma rx_option_step_outcome:
  "(undefined_option S x \<longleftrightarrow> rx_option_step S x opts = None) \<and>
   (bad_option x \<longleftrightarrow> rx_option_step S x opts = Some (Inl ()))"
proof (cases x)
  case (Opt_s arg)
  then show ?thesis using parse_result(1) [of arg "opt_serial_number_val opts"] by (auto simp: Let_def split: prod.split)
next
  case (Opt_a arg)
  then show ?thesis using parse_result(2) [of arg "opt_sample_rate opts"] by (auto simp: Let_def split: prod.split)
next
  case (Opt_n arg)
  then show ?thesis using parse_result(1) [of arg "opt_samples_to_xfer opts"] by (auto simp: Let_def split: prod.split)
next
  case (Opt_f arg)
  then show ?thesis by (auto split: option.split)
next
  case (Opt_t arg)
  then show ?thesis by (auto simp: not_le split: option.split)
qed auto

lemma rx_options_loop_first:
  "case List.find (\<lambda>x. undefined_option S x \<or> bad_option x) xs of
     None \<Rightarrow> \<exists>opts'. rx_options_loop S xs opts = Some (Inr opts')
   | Some x \<Rightarrow> rx_options_loop S xs opts = (if undefined_option S x then None else Some (Inl ()))"
proof (induction xs arbitrary: opts)
  case (Cons x xs)
  note o = rx_option_step_outcome [of S x opts]
  show ?case
  proof (cases "undefined_option S x \<or> bad_option x")
    case True
    then show ?thesis using o by (auto split: unit.split)
  next
    case False
    then obtain opts' where "rx_option_step S x opts = Some (Inr opts')"
      using o by (cases "rx_option_step S x opts") (auto, metis old.unit.exhaust sum.exhaust)
    then show ?thesis using False Cons.IH [of opts'] by (simp split: option.splits)
  qed
qed simp

lemma rx_run_usage: "rx_run W (Inl u) w = Some (Exit_Usage, None, w)"
  by (simp add: rx_run_def)

lemma rx_main_argv_options:
  "rx_main_argv W posix (p # args) w =
     rx_options_loop (w_scan W) (command_line rx_option_of rx_optstring posix args) (rx_options0 (w_serial W))
       \<bind> (\<lambda>res. rx_run W res w)"
  unfolding rx_main_argv_def by (rule rx.loop_handles_command_line)

text \<open>
  C38 (error). The receiver program reads its command line up to the first option, if any, that
  it cannot take, wherever it stands. When that is \<open>-h\<close>, a number that does not parse or an
  attenuation above 8, it ends with the usage text: it opens neither a receiver nor a file
  and allocates nothing. When it is an unknown option, a missing argument, or a number outside its
  type, the program has no defined behaviour: the message for the first two prints the null
  \<open>optarg\<close> with \<open>%s\<close>. Without such an option it goes on to its checks.
\<close>

theorem rx_rejects_bad_options:
  "case List.find (\<lambda>x. undefined_option (w_scan W) x \<or> bad_option x) (command_line rx_option_of rx_optstring posix args) of
     None \<Rightarrow> \<exists>opts. rx_options_loop (w_scan W) (command_line rx_option_of rx_optstring posix args) (rx_options0 (w_serial W)) =
         Some (Inr opts) \<and> rx_main_argv W posix (p # args) w = rx_run W (Inr opts) w
   | Some x \<Rightarrow> rx_main_argv W posix (p # args) w =
       (if undefined_option (w_scan W) x then None else Some (Exit_Usage, None, w))"
  using rx_options_loop_first [of "w_scan W" "command_line rx_option_of rx_optstring posix args" "rx_options0 (w_serial W)"]
  by (auto simp: rx_main_argv_options rx_run_usage split: option.splits)

text \<open>\<open>airspyhf_rx x -w -n\<close>: the number is missing; \<open>airspyhf_rx -h x\<close>: the usage text.\<close>

lemma rx_rejects_bad_options_example:
  "rx_main_argv W None [[114], [120], [45, 119], [45, 110]] w = None \<and>
   rx_main_argv W None [[114], [45, 104], [120]] w = Some (Exit_Usage, None, w)"
proof -
  have "command_line rx_option_of rx_optstring None [[120], [45, 119], [45, 110]] = [Opt_w, Opt_unknown]"
    "command_line rx_option_of rx_optstring None [[45, 104], [120]] = [Opt_h]"
    by (simp_all add: command_line_def rx_optstring_def rx_option_of_def option_arity_def char_int_def
        missing_argument_def str_dashdash_def map_filter_simps)
  then show ?thesis by (simp add: rx_main_argv_options rx_run_usage split: unit.split)
qed

end
