(* ===== verification/Getopt_Safety.thy ===== *)
theory Getopt_Safety
  imports Getopt_Correct
begin

text \<open>
  The scan with long options: an invariant that every call keeps, under which no call leaves
  \<open>argv\<close> or a string, and a measure that every call decreases until the scan ends.
\<close>

section \<open>The invariant\<close>

text \<open>
  Inside an element, \<open>nextchar\<close> is a proper end of \<open>argv[optind]\<close>, of which at least \<open>-\<close> has
  been read.
\<close>

definition getopt_wf :: "cstr list \<Rightarrow> getopt_globals \<Rightarrow> bool" where
  "getopt_wf argv g \<longleftrightarrow>
     getopt_initialized g \<and> 1 \<le> first_nonopt g \<and> first_nonopt g \<le> last_nonopt g \<and>
     last_nonopt g \<le> int (length argv) \<and> 1 \<le> optind g \<and> optind g \<le> int (length argv) \<and>
     (case nextchar g of
        Some (c # cs) \<Rightarrow> optind g < int (length argv) \<and> length cs + 2 \<le> length (argv ! nat (optind g))
      | _ \<Rightarrow> True)"

text \<open>What is left to read, counting an end for every element.\<close>

definition weight :: "cstr list \<Rightarrow> nat" where
  "weight xs = sum_list (map (\<lambda>s. length s + 1) xs)"

definition getopt_left :: "cstr list \<Rightarrow> getopt_globals \<Rightarrow> nat" where
  "getopt_left argv g =
     (case nextchar g of
        Some (c # cs) \<Rightarrow> length cs + 2 + weight (drop (nat (optind g) + 1) argv)
      | _ \<Rightarrow> weight (drop (nat (optind g)) argv))"

lemma weight_step: "i < length xs \<Longrightarrow> weight (drop i xs) = length (xs ! i) + 1 + weight (drop (Suc i) xs)"
  by (simp add: weight_def flip: Cons_nth_drop_Suc)

lemma weight_antimono: "i \<le> j \<Longrightarrow> weight (drop j xs) \<le> weight (drop i xs)"
proof (induction j)
  case (Suc j)
  show ?case
  proof (cases "i = Suc j \<or> length xs \<le> j")
    case True
    then show ?thesis by (auto simp: weight_def)
  next
    case False
    with Suc weight_step [of j xs] show ?thesis by simp
  qed
qed simp

lemma wf_after_element:
  assumes "getopt_wf argv g" and "nextchar g = Some (c # cs)" and "nextchar g' = None \<or> nextchar g' = Some []"
    and "optind g < optind g'" and "optind g' \<le> int (length argv)" and "first_nonopt g' = first_nonopt g"
    and "last_nonopt g' = last_nonopt g" and "getopt_initialized g' = getopt_initialized g"
  shows "getopt_wf argv g' \<and> getopt_left argv g' < getopt_left argv g"
proof -
  have "1 \<le> optind g" using assms(1) by (simp add: getopt_wf_def)
  then have "nat (optind g) + 1 \<le> nat (optind g')" using assms(4) by arith
  then have "weight (drop (nat (optind g')) argv) \<le> weight (drop (nat (optind g) + 1) argv)"
    by (rule weight_antimono)
  with assms show ?thesis by (auto simp: getopt_wf_def getopt_left_def)
qed

lemma wf_same_element:
  assumes "getopt_wf argv g" and "nextchar g = Some (c # cs)" and "nextchar g' = Some cs"
    and "optind g' = (if cs = [] then optind g + 1 else optind g)" and "first_nonopt g' = first_nonopt g"
    and "last_nonopt g' = last_nonopt g" and "getopt_initialized g' = getopt_initialized g"
  shows "getopt_wf argv g' \<and> getopt_left argv g' < getopt_left argv g"
proof (cases cs)
  case Nil
  with assms show ?thesis by (intro wf_after_element [of argv g c "[]" g']) (auto simp: getopt_wf_def)
next
  case (Cons d ds)
  with assms show ?thesis by (auto simp: getopt_wf_def getopt_left_def)
qed

lemma wf_argv: "getopt_wf argv g \<Longrightarrow> argv \<noteq> []"
  by (auto simp: getopt_wf_def)

section \<open>Short options\<close>

text \<open>What a call may do from inside an element.\<close>

definition advances :: "cstr list \<Rightarrow> getopt_globals \<Rightarrow> (int \<times> cstr list \<times> getopt_globals) option \<Rightarrow> bool" where
  "advances argv g res \<longleftrightarrow>
     (\<exists>r g'. res = Some (r, argv, g') \<and> getopt_wf argv g' \<and> getopt_left argv g' < getopt_left argv g)"

lemma required_arg_safe:
  assumes "argv \<noteq> []" and "0 \<le> optind g" and "optind g + 1 \<le> int (length argv)"
    and "h = g\<lparr>nextchar := Some cs, optind := if cs = [] then optind g + 1 else optind g\<rparr>"
  shows "\<exists>res g'. required_arg pe os c cs (int (length argv)) argv h = Some res \<and>
    (case res of Inl (_, k) \<Rightarrow> k = g' | Inr (_, k) \<Rightarrow> k = g') \<and>
    optind g < optind g' \<and> optind g' \<le> int (length argv) \<and> first_nonopt g' = first_nonopt g \<and>
    last_nonopt g' = last_nonopt g \<and> getopt_initialized g' = getopt_initialized g"
proof -
  consider (rest) "cs \<noteq> []" | (missing) "cs = []" "optind g + 1 = int (length argv)"
    | (arg) "cs = []" "optind g + 1 < int (length argv)"
    using assms(3) by linarith
  then show ?thesis
  proof cases
    case rest
    with assms show ?thesis by (simp add: required_arg_def)
  next
    case missing
    with assms show ?thesis by (cases pe) (simp_all add: required_arg_def print_message_defined)
  next
    case arg
    with assms show ?thesis by (simp add: required_arg_def)
  qed
qed

text \<open>Inside an element with at least one option character.\<close>

lemma mid_bounds:
  assumes "getopt_wf argv g" and "nextchar g = Some (c # cs)"
  shows "1 \<le> optind g \<and> optind g < int (length argv) \<and> length cs + 2 \<le> length (argv ! nat (optind g)) \<and> argv \<noteq> []"
  using assms by (auto simp: getopt_wf_def)

lemma advances_after:
  assumes "getopt_wf argv g" and "nextchar g = Some (c # cs)" and "res = Some (r, argv, g')"
    and "nextchar g' = None \<or> nextchar g' = Some []" and "optind g < optind g'"
    and "optind g' \<le> int (length argv)" and "first_nonopt g' = first_nonopt g"
    and "last_nonopt g' = last_nonopt g" and "getopt_initialized g' = getopt_initialized g"
  shows "advances argv g res"
  using wf_after_element [OF assms(1,2,4-9)] assms(3) by (simp add: advances_def)

lemma advances_same:
  assumes "getopt_wf argv g" and "nextchar g = Some (c # cs)" and "res = Some (r, argv, g')"
    and "nextchar g' = Some cs" and "optind g' = (if cs = [] then optind g + 1 else optind g)"
    and "first_nonopt g' = first_nonopt g" and "last_nonopt g' = last_nonopt g"
    and "getopt_initialized g' = getopt_initialized g"
  shows "advances argv g res"
  using wf_same_element [OF assms(1,2,4-8)] assms(3) by (simp add: advances_def)

lemma invalid_option_defined:
  assumes "argv \<noteq> []"
  shows "\<exists>msgs. invalid_option pe c argv g = Some (63, argv, g\<lparr>getopt_stderr := msgs, optopt := char_int c\<rparr>)"
proof (cases pe)
  case True
  with assms show ?thesis by (auto simp: invalid_option_def print_message_defined)
next
  case False
  then have "invalid_option pe c argv g = Some (63, argv, g\<lparr>getopt_stderr := getopt_stderr g, optopt := char_int c\<rparr>)"
    by (simp add: invalid_option_def)
  then show ?thesis by blast
qed

lemma getopt_short_safe:
  assumes wf: "getopt_wf argv g" and nc: "nextchar g = Some (c # cs)" and os: "59 \<notin> set os"
  shows "advances argv g (getopt_short_option pe os longopts (int (length argv)) argv g)"
proof -
  let ?g = "g\<lparr>nextchar := Some cs, optind := if cs = [] then optind g + 1 else optind g\<rparr>"
  note bounds = mid_bounds [OF wf nc]
  have noW: "take 2 temp \<noteq> [87, 59]" if "my_index os c = Some temp" for temp
  proof
    assume "take 2 temp = [87, 59]"
    moreover have "temp = dropWhile (\<lambda>x. x \<noteq> c) os"
      using that by (simp add: my_index_dropWhile split: list.splits)
    ultimately have "59 \<in> set (take 2 (dropWhile (\<lambda>x. x \<noteq> c) os))" by simp
    then show False using os by (metis in_set_takeD set_dropWhileD)
  qed
  obtain msgs where invalid: "invalid_option pe c argv ?g = Some (63, argv, ?g\<lparr>getopt_stderr := msgs, optopt := char_int c\<rparr>)"
    using invalid_option_defined [of argv pe c ?g] bounds by blast
  obtain arg k where reqd: "required_arg pe os c cs (int (length argv)) argv ?g = Some arg"
    "case arg of Inl (_, k') \<Rightarrow> k' = k | Inr (_, k') \<Rightarrow> k' = k"
    and k: "optind g < optind k" "optind k \<le> int (length argv)" "first_nonopt k = first_nonopt g"
    "last_nonopt k = last_nonopt g" "getopt_initialized k = getopt_initialized g"
    using required_arg_safe [of argv g ?g cs pe os c] bounds by auto
  let ?res = "getopt_short_option pe os longopts (int (length argv)) argv g"
  consider (inv) "my_index os c = None \<or> c = 58"
    | (opt) temp where "my_index os c = Some temp" "c \<noteq> 58" "take 2 (tl temp) = [58, 58]"
    | (req) temp where "my_index os c = Some temp" "c \<noteq> 58" "take 2 (tl temp) \<noteq> [58, 58]" "take 1 (tl temp) = [58]"
    | (none) temp where "my_index os c = Some temp" "c \<noteq> 58" "take 2 (tl temp) \<noteq> [58, 58]" "take 1 (tl temp) \<noteq> [58]"
    by (metis option.exhaust)
  then show ?thesis
  proof cases
    case inv
    then have "?res = Some (63, argv, ?g\<lparr>getopt_stderr := msgs, optopt := char_int c\<rparr>)"
      using invalid by (auto simp: getopt_short_option_def nc Let_def split: option.split)
    then show ?thesis by (rule advances_same [OF wf nc]) simp_all
  next
    case opt
    with noW have "?res = Some (char_int c, argv,
        g\<lparr>optarg := if cs = [] then None else Some cs, optind := optind g + 1, nextchar := None\<rparr>)"
      by (auto simp: getopt_short_option_def nc Let_def)
    then show ?thesis by (rule advances_after [OF wf nc]) (use bounds in simp_all)
  next
    case req
    show ?thesis
    proof (cases arg)
      case (Inl b)
      with req noW reqd
      have "?res = Some (fst b, argv, k\<lparr>nextchar := None\<rparr>)"
        by (cases b) (simp add: getopt_short_option_def nc Let_def)
      then show ?thesis by (rule advances_after [OF wf nc]) (use k in simp_all)
    next
      case (Inr b)
      with req noW reqd
      have "?res = Some (char_int c, argv, k\<lparr>nextchar := None\<rparr>)"
        by (cases b) (simp add: getopt_short_option_def nc Let_def)
      then show ?thesis by (rule advances_after [OF wf nc]) (use k in simp_all)
    qed
  next
    case none
    with noW have "?res = Some (char_int c, argv, ?g)"
      by (simp add: getopt_short_option_def nc Let_def)
    then show ?thesis by (rule advances_same [OF wf nc]) simp_all
  qed
qed

section \<open>Long options\<close>

lemma char_at_defined: "i \<le> length s \<Longrightarrow> \<exists>c. char_at s i = Some c"
  by (simp add: char_at_def)

text \<open>Every step of a message succeeds, and leaves all but \<open>stderr\<close> alone.\<close>

lemma rdi_mid:
  assumes "getopt_wf argv g" and "nextchar g = Some (c # cs)"
  shows "\<exists>s. rdi argv (optind g) = Some s \<and> 2 \<le> length s"
  using mid_bounds [OF assms] by simp

lemma long_finish_fields:
  assumes "getopt_long_finish p i g = (r, g')"
  shows "nextchar g' = Some [] \<and> optind g' = optind g \<and> first_nonopt g' = first_nonopt g \<and>
    last_nonopt g' = last_nonopt g \<and> getopt_initialized g' = getopt_initialized g"
  using assms by (auto simp: getopt_long_finish_def Let_def split: if_splits)

text \<open>\<open>ends\<close>: a call that stops behind the current element.\<close>

definition ends :: "cstr list \<Rightarrow> getopt_globals \<Rightarrow> getopt_globals \<Rightarrow> bool" where
  "ends argv g g' \<longleftrightarrow> (nextchar g' = None \<or> nextchar g' = Some []) \<and> optind g < optind g' \<and>
     optind g' \<le> int (length argv) \<and> first_nonopt g' = first_nonopt g \<and> last_nonopt g' = last_nonopt g \<and>
     getopt_initialized g' = getopt_initialized g"

lemma ends_advances:
  "getopt_wf argv g \<Longrightarrow> nextchar g = Some (c # cs) \<Longrightarrow> ends argv g g' \<Longrightarrow> advances argv g (Some (r, argv, g'))"
  by (rule advances_after [OF _ _ refl]) (auto simp: ends_def)

lemma ends_finish:
  assumes "getopt_long_finish p i h = (r, g')" and "optind g < optind h" and "optind h \<le> int (length argv)"
    and "first_nonopt h = first_nonopt g" and "last_nonopt h = last_nonopt g"
    and "getopt_initialized h = getopt_initialized g"
  shows "ends argv g g'"
  using long_finish_fields [OF assms(1)] assms(2-) by (simp add: ends_def)

lemma long_found_ends:
  assumes wf: "getopt_wf argv g" and nc: "nextchar g = Some (c # cs)"
  shows "\<exists>r g'. getopt_long_found pe os p i rest (int (length argv)) argv g = Some (r, g') \<and> ends argv g g'"
proof -
  note bounds = mid_bounds [OF wf nc]
  obtain s where s: "rdi argv (optind g) = Some s" "2 \<le> length s" using rdi_mid [OF wf nc] by blast
  obtain c0 c1 where ch: "char_at s 0 = Some c0" "char_at s 1 = Some c1"
    using char_at_defined [of _ s] s(2) by (meson le_trans one_le_numeral zero_le)
  let ?h = "g\<lparr>optind := optind g + 1\<rparr>"
  consider (given) "rest \<noteq> []" "lo_has_arg p \<noteq> 0" | (excess) "rest \<noteq> []" "lo_has_arg p = 0"
    | (taken) "rest = []" "lo_has_arg p = 1" "optind g + 1 < int (length argv)"
    | (missing) "rest = []" "lo_has_arg p = 1" "\<not> optind g + 1 < int (length argv)"
    | (plain) "rest = []" "lo_has_arg p \<noteq> 1"
    by blast
  then show ?thesis
  proof cases
    case given
    obtain r g' where f: "getopt_long_finish p i (?h\<lparr>optarg := Some (tl rest)\<rparr>) = (r, g')" by (meson surj_pair)
    then have "ends argv g g'" by (rule ends_finish) (use bounds in simp_all)
    with given f show ?thesis by (simp add: getopt_long_found_def)
  next
    case excess
    with bounds s ch show ?thesis
      by (cases pe) (auto simp: getopt_long_found_def Let_def print_message_defined ends_def)
  next
    case taken
    then obtain arg where arg: "rdi argv (optind g + 1) = Some arg" using bounds by simp
    obtain r g' where f: "getopt_long_finish p i (?h\<lparr>optarg := Some arg, optind := 2 + optind g\<rparr>) = (r, g')"
      by (meson surj_pair)
    then have "ends argv g g'" by (rule ends_finish) (use bounds taken in simp_all)
    with taken f arg show ?thesis by (simp add: getopt_long_found_def)
  next
    case missing
    with bounds s show ?thesis
      by (cases pe) (auto simp: getopt_long_found_def Let_def print_message_defined ends_def)
  next
    case plain
    obtain r g' where f: "getopt_long_finish p i ?h = (r, g')" by (meson surj_pair)
    then have "ends argv g g'" by (rule ends_finish) (use bounds in simp_all)
    with plain f show ?thesis by (simp add: getopt_long_found_def)
  qed
qed

text \<open>Decoding a long option ends behind the element, or leaves everything to the short options.\<close>

definition long_result :: "cstr list \<Rightarrow> getopt_globals \<Rightarrow> getopt_result \<Rightarrow> bool" where
  "long_result argv g res \<longleftrightarrow>
     res = Some (Continue, argv, g) \<or> (\<exists>r g'. res = Some (Return r, argv, g') \<and> ends argv g g')"

lemma long_unknown_result:
  assumes wf: "getopt_wf argv g" and nc: "nextchar g = Some (c # cs)"
  shows "long_result argv g (getopt_long_unknown pe os lo (c # cs) argv g)"
proof -
  note bounds = mid_bounds [OF wf nc]
  obtain s where s: "rdi argv (optind g) = Some s" "2 \<le> length s" using rdi_mid [OF wf nc] by blast
  obtain c0 c1 where ch: "char_at s 0 = Some c0" "char_at s 1 = Some c1"
    using char_at_defined [of _ s] s(2) by (meson le_trans one_le_numeral zero_le)
  have ok: "ends argv g (g\<lparr>getopt_stderr := m, nextchar := Some [], optind := optind g + 1, optopt := 0\<rparr>)" for m
    using bounds by (simp add: ends_def)
  define bad where "bad \<longleftrightarrow> \<not> lo \<or> c1 = 45 \<or> my_index os c = None"
  show ?thesis
  proof (cases bad)
    case True
    then obtain m where
      "getopt_long_unknown pe os lo (c # cs) argv g =
       Some (Return 63, argv, g\<lparr>getopt_stderr := m, nextchar := Some [], optind := optind g + 1, optopt := 0\<rparr>)"
    proof -
      have "\<exists>m. getopt_long_unknown pe os lo (c # cs) argv g =
       Some (Return 63, argv, g\<lparr>getopt_stderr := m, nextchar := Some [], optind := optind g + 1, optopt := 0\<rparr>)"
      proof (cases pe)
        case True
        with \<open>bad\<close> bounds s ch show ?thesis
          by (auto simp: getopt_long_unknown_def bad_def print_message_defined char_at_def rd_def)
      next
        case False
        with \<open>bad\<close> s ch have "getopt_long_unknown pe os lo (c # cs) argv g =
          Some (Return 63, argv, g\<lparr>getopt_stderr := getopt_stderr g, nextchar := Some [], optind := optind g + 1, optopt := 0\<rparr>)"
          by (auto simp: getopt_long_unknown_def bad_def char_at_def rd_def)
        then show ?thesis by blast
      qed
      with that show ?thesis by blast
    qed
    with ok show ?thesis unfolding long_result_def by blast
  next
    case False
    with s ch have "getopt_long_unknown pe os lo (c # cs) argv g = Some (Continue, argv, g)"
      by (auto simp: getopt_long_unknown_def bad_def char_at_def rd_def)
    then show ?thesis by (simp add: long_result_def)
  qed
qed

lemma long_option_result:
  assumes wf: "getopt_wf argv g" and nc: "nextchar g = Some (c # cs)"
  shows "long_result argv g (getopt_long_option pe os table lo (int (length argv)) argv g)"
proof -
  note bounds = mid_bounds [OF wf nc]
  obtain s where s: "rdi argv (optind g) = Some s" using rdi_mid [OF wf nc] by blast
  obtain pfound ex amb where scan: "long_scan lo (long_name (c # cs)) 0 table None False = (pfound, ex, amb)"
    by (rule prod_cases3)
  show ?thesis
  proof (cases "amb \<and> \<not> ex")
    case True
    with scan bounds s nc show ?thesis
      by (cases pe) (auto simp: getopt_long_option_def print_message_defined long_result_def ends_def)
  next
    case no_amb: False
    show ?thesis
    proof (cases pfound)
      case None
      with no_amb scan nc long_unknown_result [OF wf nc, of pe os lo] show ?thesis
        by (auto simp: getopt_long_option_def)
    next
      case (Some pi)
      obtain p i where "pi = (p, i)" by (cases pi)
      with Some no_amb scan nc long_found_ends [OF wf nc, of pe os p i "name_rest (c # cs)"] show ?thesis
        by (auto simp: getopt_long_option_def long_result_def)
    qed
  qed
qed

lemma is_long_defined:
  assumes wf: "getopt_wf argv g" and nc: "nextchar g = Some (c # cs)"
  shows "\<exists>b. getopt_is_long os lo argv g = Some b"
proof -
  obtain s where s: "rdi argv (optind g) = Some s" "2 \<le> length s" using rdi_mid [OF wf nc] by blast
  then obtain c1 c2 where "char_at s 1 = Some c1" "char_at s 2 = Some c2"
    using char_at_defined [of _ s] by (meson le_trans one_le_numeral)
  with s show ?thesis by (auto simp: getopt_is_long_def)
qed

section \<open>The next element\<close>

text \<open>Between two elements, with the segments of \<open>exchange\<close> in their order.\<close>

definition settled :: "cstr list \<Rightarrow> getopt_globals \<Rightarrow> bool" where
  "settled argv g \<longleftrightarrow> getopt_initialized g \<and> (nextchar g = None \<or> nextchar g = Some []) \<and>
     1 \<le> first_nonopt g \<and> first_nonopt g \<le> last_nonopt g \<and> last_nonopt g \<le> optind g \<and>
     optind g \<le> int (length argv)"

definition rest_weight :: "cstr list \<Rightarrow> getopt_globals \<Rightarrow> nat" where
  "rest_weight argv g = weight (drop (nat (optind g)) argv)"

lemma settled_wf: "settled argv g \<Longrightarrow> getopt_wf argv g \<and> getopt_left argv g = rest_weight argv g"
  by (auto simp: settled_def getopt_wf_def getopt_left_def rest_weight_def)

lemma exchange_safe:
  assumes "0 \<le> first_nonopt g" "first_nonopt g \<le> last_nonopt g" "last_nonopt g \<le> optind g"
    and "optind g \<le> int (length argv)"
  shows "\<exists>argv' f. exchange argv g = Some (argv', g\<lparr>first_nonopt := f, last_nonopt := optind g\<rparr>) \<and>
    first_nonopt g \<le> f \<and> f \<le> optind g \<and> mset argv' = mset argv \<and>
    drop (nat (optind g)) argv' = drop (nat (optind g)) argv"
proof -
  define f l k where "f = nat (first_nonopt g)" and "l = nat (last_nonopt g)" and "k = nat (optind g)"
  have le: "f \<le> l" "l \<le> k" "k \<le> length argv" using assms by (simp_all add: f_def l_def k_def)
  let ?argv' = "take f argv @ drop l (take k argv) @ drop f (take l argv) @ drop k argv"
  have "exchange argv g = Some (?argv',
      g\<lparr>first_nonopt := first_nonopt g + (optind g - last_nonopt g), last_nonopt := optind g\<rparr>)"
    using exchange_split [OF assms] by (simp add: f_def l_def k_def Let_def)
  moreover have "mset ?argv' = mset argv"
  proof -
    have "mset (take f argv) + mset (drop f (take l argv)) = mset (take l argv)"
      "mset (take l argv) + mset (drop l (take k argv)) = mset (take k argv)"
      using le by (metis append_take_drop_id min.absorb1 mset_append take_take)+
    moreover have "mset (take k argv) + mset (drop k argv) = mset argv"
      by (metis append_take_drop_id mset_append)
    ultimately have "mset argv = mset (take f argv) + mset (drop f (take l argv)) + mset (drop l (take k argv)) + mset (drop k argv)"
      by simp
    then show ?thesis by (simp only: mset_append ac_simps)
  qed
  moreover have "drop k ?argv' = drop k argv" using le by simp
  ultimately show ?thesis using assms by (auto simp: k_def)
qed

lemma permute_safe:
  assumes "settled argv g"
  shows "\<exists>argv' g'. getopt_permute (int (length argv)) argv g = Some (argv', g') \<and> settled argv' g' \<and>
    mset argv' = mset argv \<and> rest_weight argv' g' \<le> rest_weight argv g"
proof -
  obtain argv' g' where 1: "(if first_nonopt g \<noteq> last_nonopt g \<and> last_nonopt g \<noteq> optind g then exchange argv g
        else if last_nonopt g \<noteq> optind g then Some (argv, g\<lparr>first_nonopt := optind g\<rparr>)
        else Some (argv, g)) = Some (argv', g')" and mset: "mset argv' = mset argv"
    and g': "optind g' = optind g" "getopt_initialized g'" "nextchar g' = nextchar g" "1 \<le> first_nonopt g'"
      "first_nonopt g' \<le> optind g"
    and drop: "drop (nat (optind g)) argv' = drop (nat (optind g)) argv"
  proof (cases "first_nonopt g \<noteq> last_nonopt g \<and> last_nonopt g \<noteq> optind g")
    case True
    obtain argv' f where "exchange argv g = Some (argv', g\<lparr>first_nonopt := f, last_nonopt := optind g\<rparr>)"
      "first_nonopt g \<le> f" "f \<le> optind g" "mset argv' = mset argv"
      "drop (nat (optind g)) argv' = drop (nat (optind g)) argv"
      using exchange_safe [of g argv] assms by (auto simp: settled_def)
    with True assms show ?thesis
      by (intro that [of argv' "g\<lparr>first_nonopt := f, last_nonopt := optind g\<rparr>"]) (auto simp: settled_def)
  next
    case False
    define h where "h = (if last_nonopt g \<noteq> optind g then g\<lparr>first_nonopt := optind g\<rparr> else g)"
    show ?thesis using False assms by (intro that [of argv h]) (auto simp: settled_def h_def)
  qed
  have len: "length argv' = length argv" using mset by (metis size_mset)
  let ?k = "nat (optind g)" and ?n = "length (takeWhile NONOPTION_P (drop (nat (optind g)) argv))"
  have "skip_nonoptions (int (length argv)) (take ?k argv' @ drop ?k argv') (optind g) = Some (optind g + int ?n)"
    using assms len unfolding drop by (intro skip_nonoptions_append) (auto simp: settled_def)
  then have 2: "skip_nonoptions (int (length argv)) argv' (optind g) = Some (optind g + int ?n)" by simp
  have n: "optind g + int ?n \<le> int (length argv)"
    using assms length_takeWhile_le [of NONOPTION_P "drop ?k argv"] by (auto simp: settled_def)
  let ?h = "g'\<lparr>optind := optind g + int ?n, last_nonopt := optind g + int ?n\<rparr>"
  have "getopt_permute (int (length argv)) argv g = Some (argv', ?h)"
    using 1 2 g' by (simp add: getopt_permute_def)
  moreover have "settled argv' ?h" using assms g' n len by (auto simp: settled_def)
  moreover have "rest_weight argv' ?h \<le> rest_weight argv g"
  proof -
    have "rest_weight argv' ?h \<le> weight (drop ?k argv')"
      unfolding rest_weight_def using assms by (intro weight_antimono) (auto simp: settled_def)
    then show ?thesis by (simp add: drop rest_weight_def)
  qed
  ultimately show ?thesis using mset by blast
qed

text \<open>What one call may do: everything stays in its bounds, and unless it ends, less is left.\<close>

definition proceeds :: "cstr list \<Rightarrow> getopt_globals \<Rightarrow> getopt_result \<Rightarrow> bool" where
  "proceeds argv g res \<longleftrightarrow>
     (\<exists>flow argv' g'. res = Some (flow, argv', g') \<and> mset argv' = mset argv \<and> getopt_wf argv' g' \<and>
        (case flow of
           Return r \<Rightarrow> r = - 1 \<or> getopt_left argv' g' < getopt_left argv g
         | Continue \<Rightarrow> (\<exists>c cs. nextchar g' = Some (c # cs)) \<and> getopt_left argv' g' \<le> getopt_left argv g))"

lemma settled_end:
  assumes "settled argv g"
  shows "proceeds argv g (getopt_element longopts (int (length argv)) argv (g\<lparr>optind := int (length argv)\<rparr>))"
  using assms by (auto simp: proceeds_def getopt_element_def settled_def getopt_wf_def)

lemma element_safe:
  assumes st: "settled argv g"
  shows "proceeds argv g (getopt_dashdash (int (length argv)) argv g \<bind>
    (\<lambda>(a, g). getopt_element longopts (int (length argv)) a g))"
proof (cases "optind g = int (length argv)")
  case True
  then show ?thesis
    using settled_end [OF st, of longopts] by (simp add: getopt_dashdash_def flip: True)
next
  case False
  define k where "k = nat (optind g)"
  define s where "s = argv ! k"
  have k: "k < length argv" "optind g = int k" using st False by (auto simp: settled_def k_def)
  then have s: "rdi argv (optind g) = Some s" by (simp add: s_def)
  have left: "rest_weight argv g = length s + 1 + weight (drop (Suc k) argv)"
    using k weight_step [of k argv] by (simp add: rest_weight_def s_def)
  show ?thesis
  proof (cases "s = str_dashdash")
    case True
    let ?h = "g\<lparr>optind := optind g + 1\<rparr>"
    have "0 \<le> first_nonopt ?h" "first_nonopt ?h \<le> last_nonopt ?h" "last_nonopt ?h \<le> optind ?h"
      "optind ?h \<le> int (length argv)"
      using st k by (auto simp: settled_def)
    from exchange_safe [OF this] obtain argv1 f1 where ex: "exchange argv ?h = Some (argv1, ?h\<lparr>first_nonopt := f1, last_nonopt := optind ?h\<rparr>)"
      "first_nonopt g \<le> f1" "f1 \<le> optind g + 1" "mset argv1 = mset argv" by auto
    define argv' f where "argv' = (if first_nonopt g = last_nonopt g then argv else argv1)"
      and "f = (if first_nonopt g = last_nonopt g then optind g + 1 else f1)"
    have f: "1 \<le> f" "f \<le> int (length argv)" "mset argv' = mset argv"
      using ex st k by (auto simp: f_def argv'_def settled_def)
    let ?g = "g\<lparr>first_nonopt := f, last_nonopt := int (length argv), optind := int (length argv)\<rparr>"
    have "last_nonopt g \<noteq> optind g + 1" using st by (auto simp: settled_def)
    then have dd: "getopt_dashdash (int (length argv)) argv g = Some (argv', ?g)"
      using True k s ex(1) by (auto simp: getopt_dashdash_def Let_def f_def argv'_def)
    have "length argv' = length argv" using f(3) by (metis size_mset)
    then show ?thesis
      unfolding dd using f st by (auto simp: proceeds_def getopt_element_def getopt_wf_def settled_def)
  next
    case no_dd: False
    show ?thesis
    proof (cases "NONOPTION_P s")
      case True
      have "getopt_wf argv (g\<lparr>optarg := Some s, optind := optind g + 1\<rparr>) \<and>
          getopt_left argv (g\<lparr>optarg := Some s, optind := optind g + 1\<rparr>) < getopt_left argv g"
        using st settled_wf [OF st] left k
        by (auto simp: settled_def getopt_wf_def getopt_left_def nat_add_distrib)
      with True no_dd s k st settled_wf [OF st] show ?thesis
        by (auto simp: proceeds_def getopt_dashdash_def getopt_element_def)
    next
      case False
      then obtain c cs where e: "s = 45 # c # cs" using option_element by blast
      have c1: "char_at s 1 = Some c" by (simp add: e char_at_def)
      define n where "n = (if longopts \<noteq> None \<and> c = 45 then 2 else (1 :: nat))"
      have "n < length s" using no_dd by (auto simp: n_def e str_dashdash_def)
      then obtain d ds where d: "drop n s = d # ds" by (metis Cons_nth_drop_Suc)
      then have "length s = n + Suc (length ds)" by (metis \<open>n < length s\<close> length_Cons length_drop add_diff_inverse_nat less_imp_le_nat not_less)
      moreover have "1 \<le> n" by (simp add: n_def)
      ultimately have ds: "length ds + 2 \<le> length s" by simp
      let ?h = "g\<lparr>nextchar := Some (d # ds)\<rparr>"
      have res: "(getopt_dashdash (int (length argv)) argv g \<bind> (\<lambda>(a, g). getopt_element longopts (int (length argv)) a g))
          = Some (Continue, argv, ?h)"
        using False no_dd s k c1 d by (simp add: getopt_dashdash_def getopt_element_def n_def)
      have "getopt_wf argv ?h" using st k ds by (auto simp: settled_def getopt_wf_def s_def)
      moreover have "getopt_left argv ?h \<le> getopt_left argv g"
        using settled_wf [OF st] left ds k by (simp add: getopt_left_def)
      ultimately show ?thesis using res by (simp add: proceeds_def)
    qed
  qed
qed

lemma proceeds_mono:
  assumes "proceeds argv' g' res" and "getopt_left argv' g' \<le> getopt_left argv g" and "mset argv' = mset argv"
  shows "proceeds argv g res"
proof -
  obtain flow a h where res: "res = Some (flow, a, h)" "mset a = mset argv" "getopt_wf a h"
    and flow: "case flow of Return r \<Rightarrow> r = - 1 \<or> getopt_left a h < getopt_left argv' g'
      | Continue \<Rightarrow> (\<exists>c cs. nextchar h = Some (c # cs)) \<and> getopt_left a h \<le> getopt_left argv' g'"
    using assms(1,3) unfolding proceeds_def by auto
  show ?thesis
    using res flow assms(2) unfolding proceeds_def by (cases flow) auto
qed

lemma advance_safe:
  assumes wf: "getopt_wf argv g"
  shows "proceeds argv g (getopt_advance longopts (int (length argv)) argv g)"
proof (cases "nextchar g = None \<or> nextchar g = Some []")
  case False
  then obtain c cs where "nextchar g = Some (c # cs)" by (metis list.exhaust option.exhaust)
  with wf show ?thesis by (auto simp: proceeds_def getopt_advance_def)
next
  case True
  define h where "h = g\<lparr>last_nonopt := min (last_nonopt g) (optind g), first_nonopt := min (first_nonopt g) (optind g)\<rparr>"
  have h: "settled argv h" "getopt_left argv h = getopt_left argv g"
    using wf True by (auto simp: h_def settled_def getopt_wf_def getopt_left_def)
  have clamp: "(let g = (if last_nonopt g > optind g then g\<lparr>last_nonopt := optind g\<rparr> else g);
      g = (if first_nonopt g > optind g then g\<lparr>first_nonopt := optind g\<rparr> else g) in F g) = F h" for F :: "getopt_globals \<Rightarrow> getopt_result"
    unfolding Let_def by (rule arg_cong [where f = F]) (simp add: h_def min_def)
  have adv: "getopt_advance longopts (int (length argv)) argv g =
    (if arg_ordering h = PERMUTE then getopt_permute (int (length argv)) argv h else Some (argv, h)) \<bind>
      (\<lambda>(a, g). getopt_dashdash (int (length argv)) a g \<bind> (\<lambda>(a, g). getopt_element longopts (int (length argv)) a g))"
    using True unfolding getopt_advance_def clamp by simp
  obtain argv' g' where g': "(if arg_ordering h = PERMUTE then getopt_permute (int (length argv)) argv h else Some (argv, h))
      = Some (argv', g')" "settled argv' g'" "mset argv' = mset argv" "rest_weight argv' g' \<le> rest_weight argv h"
    using permute_safe [OF h(1)] h(1) by (cases "arg_ordering h = PERMUTE") auto
  have len: "length argv' = length argv" using g'(3) by (metis size_mset)
  have "proceeds argv' g' (getopt_advance longopts (int (length argv)) argv g)"
    using element_safe [OF g'(2), of longopts] unfolding adv g'(1) len by simp
  moreover have "getopt_left argv' g' \<le> getopt_left argv g"
    using settled_wf [OF g'(2)] settled_wf [OF h(1)] g'(4) h(2) by simp
  ultimately show ?thesis by (rule proceeds_mono) (rule g'(3))
qed

section \<open>A call\<close>

text \<open>What follows the initialisation, for any decision about messages and any option string.\<close>

definition getopt_body ::
  "bool \<Rightarrow> cstr \<Rightarrow> long_option list option \<Rightarrow> bool \<Rightarrow> int \<Rightarrow> cstr list \<Rightarrow> getopt_globals \<Rightarrow>
   (int \<times> cstr list \<times> getopt_globals) option" where
  "getopt_body pe os longopts long_only argc argv g =
     getopt_advance longopts argc argv g \<bind> (\<lambda>(flow, argv, g).
       case flow of
         Return r \<Rightarrow> Some (r, argv, g)
       | Continue \<Rightarrow>
           (case longopts of
              None \<Rightarrow> Some (Continue, argv, g)
            | Some table \<Rightarrow> getopt_is_long os long_only argv g \<bind>
                (\<lambda>long. if long then getopt_long_option pe os table long_only argc argv g
                        else Some (Continue, argv, g))) \<bind>
           (\<lambda>(flow, argv, g). case flow of Return r \<Rightarrow> Some (r, argv, g)
              | Continue \<Rightarrow> getopt_short_option pe os longopts argc argv g))"

lemma getopt_body_safe:
  assumes wf: "getopt_wf argv g" and os: "59 \<notin> set os" and argc: "argc = int (length argv)"
  shows "\<exists>r argv' g'. getopt_body pe os longopts long_only argc argv g = Some (r, argv', g') \<and>
    getopt_wf argv' g' \<and> mset argv' = mset argv \<and> (r = - 1 \<or> getopt_left argv' g' < getopt_left argv g)"
proof -
  obtain flow argv1 g1 where adv: "getopt_advance longopts argc argv g = Some (flow, argv1, g1)"
    and m: "mset argv1 = mset argv" and wf1: "getopt_wf argv1 g1"
    and flow: "case flow of Return r \<Rightarrow> r = - 1 \<or> getopt_left argv1 g1 < getopt_left argv g
      | Continue \<Rightarrow> (\<exists>c cs. nextchar g1 = Some (c # cs)) \<and> getopt_left argv1 g1 \<le> getopt_left argv g"
    using advance_safe [OF wf, of longopts] unfolding proceeds_def argc by blast
  have len: "argc = int (length argv1)" using m argc by (metis size_mset)
  show ?thesis
  proof (cases flow)
    case (Return r)
    with adv flow m wf1 show ?thesis by (simp add: getopt_body_def)
  next
    case Continue
    then obtain c cs where nc: "nextchar g1 = Some (c # cs)" and left: "getopt_left argv1 g1 \<le> getopt_left argv g"
      using flow by auto
    obtain b where long: "getopt_is_long os long_only argv1 g1 = Some b" using is_long_defined [OF wf1 nc] by blast
    define res where "res = (case longopts of
            None \<Rightarrow> Some (Continue, argv1, g1)
          | Some table \<Rightarrow> if b then getopt_long_option pe os table long_only argc argv1 g1 else Some (Continue, argv1, g1))"
    have "long_result argv1 g1 res"
      using long_option_result [OF wf1 nc, of pe os _ long_only] unfolding res_def len
      by (auto simp: long_result_def split: option.split)
    moreover have "getopt_body pe os longopts long_only argc argv g =
      res \<bind> (\<lambda>(flow, argv, g). case flow of Return r \<Rightarrow> Some (r, argv, g)
            | Continue \<Rightarrow> getopt_short_option pe os longopts argc argv g)"
      using adv Continue long by (simp add: getopt_body_def res_def split: option.split)
    ultimately have "advances argv1 g1 (getopt_body pe os longopts long_only argc argv g)"
      using getopt_short_safe [OF wf1 nc os, of pe longopts] ends_advances [OF wf1 nc] unfolding len
      by (auto simp: long_result_def)
    then show ?thesis using left m unfolding advances_def by (metis order_less_le_trans)
  qed
qed

text \<open>
  A call may be made from a state another call left, before the first call, or after the
  program has set \<open>optind\<close> to 0 to start again.
\<close>

definition getopt_ready :: "cstr list \<Rightarrow> getopt_globals \<Rightarrow> bool" where
  "getopt_ready argv g \<longleftrightarrow> getopt_wf argv g \<or>
     argv \<noteq> [] \<and> (nextchar g = None \<or> nextchar g = Some []) \<and> 0 \<le> optind g \<and> optind g \<le> int (length argv) \<and>
     (optind g = 0 \<or> \<not> getopt_initialized g)"

lemma getopt_internal_body:
  assumes "getopt_wf argv g" and "argc = int (length argv)"
  shows "getopt_internal env argc argv os longopts long_only g =
    getopt_body (opterr g \<noteq> 0 \<and> take 1 os \<noteq> [58]) os longopts long_only argc argv (g\<lparr>optarg := None\<rparr>)"
proof -
  have "optind g \<noteq> 0" "getopt_initialized g" "\<not> argc < 1" using assms by (auto simp: getopt_wf_def)
  then show ?thesis unfolding One_nat_def getopt_body_def by (simp add: getopt_internal_def Let_def)
qed

lemma getopt_internal_start:
  assumes "argv \<noteq> []" and "optind g = 0 \<or> \<not> getopt_initialized g" and "argc = int (length argv)"
  shows "\<exists>os' h. (os' = os \<or> os' = tl os) \<and> getopt_initialized h \<and> nextchar h = None \<and>
    optind h = (if optind g = 0 then 1 else optind g) \<and> first_nonopt h = optind h \<and> last_nonopt h = optind h \<and>
    getopt_internal env argc argv os longopts long_only g =
      getopt_body (opterr g \<noteq> 0 \<and> take 1 os \<noteq> [58]) os' longopts long_only argc argv h"
proof -
  define g1 where "g1 = g\<lparr>optarg := None, optind := if optind g = 0 then 1 else optind g\<rparr>"
  obtain os' h where init: "getopt_initialize env os g1 = (os', h)" by (meson surj_pair)
  have h: "os' = os \<or> os' = tl os" "nextchar h = None" "optind h = optind g1" "first_nonopt h = optind g1"
    "last_nonopt h = optind g1"
    using init by (auto simp: getopt_initialize_def Let_def split: if_splits)
  have "\<not> argc < 1" using assms(1,3) by (cases argv) simp_all
  moreover have "(if optind g = 0 then g\<lparr>optarg := None, optind := 1\<rparr> else g\<lparr>optarg := None\<rparr>) = g1"
    by (simp add: g1_def)
  ultimately have "getopt_internal env argc argv os longopts long_only g =
      getopt_body (opterr g \<noteq> 0 \<and> take 1 os \<noteq> [58]) os' longopts long_only argc argv (h\<lparr>getopt_initialized := True\<rparr>)"
    using assms(2) init unfolding One_nat_def getopt_body_def
    by (auto simp: getopt_internal_def Let_def cong: if_cong)
  with h show ?thesis
    by (intro exI [of _ os'] exI [of _ "h\<lparr>getopt_initialized := True\<rparr>"]) (simp add: g1_def)
qed

lemma getopt_internal_safe:
  assumes ready: "getopt_ready argv g" and os: "59 \<notin> set os" and argc: "argc = int (length argv)"
  shows "\<exists>r argv' g'. getopt_internal env argc argv os longopts long_only g = Some (r, argv', g') \<and>
    getopt_wf argv' g' \<and> mset argv' = mset argv \<and> (r = - 1 \<or> getopt_left argv' g' < getopt_left argv g)"
proof (cases "getopt_wf argv g")
  case True
  then have "getopt_wf argv (g\<lparr>optarg := None\<rparr>)" "getopt_left argv (g\<lparr>optarg := None\<rparr>) = getopt_left argv g"
    by (auto simp: getopt_wf_def getopt_left_def split: option.splits list.splits)
  with getopt_body_safe [OF _ os argc] show ?thesis
    unfolding getopt_internal_body [OF True argc] by metis
next
  case False
  then have start: "argv \<noteq> []" "nextchar g = None \<or> nextchar g = Some []" "0 \<le> optind g" "optind g \<le> int (length argv)"
    "optind g = 0 \<or> \<not> getopt_initialized g"
    using ready by (auto simp: getopt_ready_def)
  obtain os' h where h: "os' = os \<or> os' = tl os" "getopt_initialized h" "nextchar h = None"
    "optind h = (if optind g = 0 then 1 else optind g)" "first_nonopt h = optind h" "last_nonopt h = optind h"
    and call: "getopt_internal env argc argv os longopts long_only g =
      getopt_body (opterr g \<noteq> 0 \<and> take 1 os \<noteq> [58]) os' longopts long_only argc argv h"
    using getopt_internal_start [OF start(1,5) argc, of os env longopts long_only] by blast
  have os': "59 \<notin> set os'" using h(1) os list.set_sel(2) [of os] by (cases os) auto
  have "1 \<le> int (length argv)" using start(1) by (cases argv) simp_all
  then have wf: "getopt_wf argv h" using h start by (simp add: getopt_wf_def)
  have left: "getopt_left argv h \<le> getopt_left argv g"
    using h start weight_antimono [of "nat (optind g)" "nat (optind h)" argv] by (auto simp: getopt_left_def)
  obtain r argv' g' where "getopt_body (opterr g \<noteq> 0 \<and> take 1 os \<noteq> [58]) os' longopts long_only argc argv h = Some (r, argv', g')"
    "getopt_wf argv' g'" "mset argv' = mset argv" "r = - 1 \<or> getopt_left argv' g' < getopt_left argv h"
    using getopt_body_safe [OF wf os' argc] by blast
  with left show ?thesis unfolding call by auto
qed

end
