(* ===== verification/Getopt_Properties.thy ===== *)
theory Getopt_Properties
  imports Getopt_Safety
begin

text \<open>
  The properties of \<open>getopt\<close>: agreement with the reference parser, safety and termination of
  every scan, the search for long options, and two inputs on which the code fails.
\<close>

section \<open>Short options\<close>

text \<open>
  C12 (equivalence). A program that handles the options of \<open>getopt\<close> in a loop, with a plain option
  string (no \<open>;\<close>, hence no \<open>W;\<close>, no byte 255, and no leading \<open>+\<close> or \<open>-\<close>), sees, for every command line,
  exactly the options of the reference parser: the result of the loop is the result of its
  body over this list, so the loop ends. When the body does not leave the
  loop, \<open>argv\<close> then is the program name, the elements the options were read from in their
  order, and behind them, from \<open>optind\<close> on, the operands in their order; in any case \<open>argv\<close> is
  a permutation of what it was.
\<close>

theorem getopt_matches_reference:
  fixes body :: "int \<Rightarrow> cstr option \<Rightarrow> 's \<Rightarrow> ('e + 's) option"
  assumes "plain_optstring os" and "ref_parse (env \<noteq> None) os args = (evs, front, back)"
  shows "map_option fst (getopt_loop env os body (int (length (p # args))) (p # args) getopt_globals0 s)
      = run_events body evs s \<and>
    (\<forall>res argv' g'. getopt_loop env os body (int (length (p # args))) (p # args) getopt_globals0 s = Some (res, argv', g') \<longrightarrow>
       mset argv' = mset (p # args) \<and>
       (\<forall>s'. res = Inr s' \<longrightarrow> argv' = p # front @ back \<and> optind g' = int (length (p # front))))"
  using assms by (rule getopt_loop_reference)

text \<open>\<open>prog x -ab v -c -- -a\<close> with the option string \<open>ab:\<close>: the body collects what it is given.\<close>

theorem getopt_matches_reference_witness:
  "plain_optstring [97, 98, 58] \<and>
   map_option fst (getopt_loop None [97, 98, 58]
      (\<lambda>v a evs. Some (Inr (evs @ [(v, a)]) :: unit + (int \<times> cstr option) list)) 7
      [[112], [120], [45, 97, 98], [118], [45, 99], [45, 45], [45, 97]] getopt_globals0 [])
    = Some (Inr [(97, None), (98, Some [118]), (63, None)])"
proof -
  have os: "plain_optstring [97, 98, 58]" by (simp add: plain_optstring_def)
  have ref: "ref_parse (None \<noteq> (None :: cstr option)) [97, 98, 58] [[120], [45, 97, 98], [118], [45, 99], [45, 45], [45, 97]]
    = ([(97, None), (98, Some [118]), (63, None)],
       [[45, 97, 98], [118], [45, 99], [45, 45]], [[120], [45, 97]])"
    by (simp add: str_dashdash_def option_arity_def char_int_def)
  show ?thesis
    using getopt_matches_reference [OF os ref, of
        "\<lambda>v a evs. Some (Inr (evs @ [(v, a)]) :: unit + (int \<times> cstr option) list)" "[112]" "[]"] os
    by simp
qed

section \<open>Safety and termination\<close>

text \<open>
  C16 (safety). With any option string without \<open>;\<close> (hence without \<open>W;\<close>), any table of long options and either
  reading of a single \<open>-\<close>, no call of \<open>getopt\<close>, \<open>getopt_long\<close> or \<open>getopt_long_only\<close> reads outside
  \<open>argv\<close> or a string, not for a message either, whether it is the first, a later one, one after
  the end, or one after a reset of \<open>optind\<close>. It permutes \<open>argv\<close>, and it leaves the indices
  within their bounds and \<open>nextchar\<close> inside \<open>argv[optind]\<close>, which the next call relies on.
\<close>

theorem getopt_call_safe:
  assumes "getopt_ready argv g" and "59 \<notin> set os" and "argc = int (length argv)"
  shows "\<exists>r argv' g'. getopt_internal env argc argv os longopts long_only g = Some (r, argv', g') \<and>
    getopt_ready argv' g' \<and> mset argv' = mset argv \<and>
    1 \<le> optind g' \<and> optind g' \<le> argc \<and> 1 \<le> first_nonopt g' \<and> first_nonopt g' \<le> last_nonopt g' \<and>
    last_nonopt g' \<le> argc"
proof -
  obtain r argv' g' where
    call: "getopt_internal env argc argv os longopts long_only g = Some (r, argv', g')"
    and wf: "getopt_wf argv' g'" "mset argv' = mset argv"
    using getopt_internal_safe [OF assms] by blast
  then have "length argv' = length argv" by (metis size_mset)
  with call wf assms(3) show ?thesis by (auto simp: getopt_ready_def getopt_wf_def)
qed

theorem getopt_call_safe_witness:
  "\<exists>r argv' g'. getopt_internal None 2 [[112], [45, 45, 120]] [97] (Some []) False getopt_globals0 = Some (r, argv', g') \<and>
    getopt_ready argv' g' \<and> mset argv' = mset [[112], [45, 45, 120]] \<and>
    1 \<le> optind g' \<and> optind g' \<le> 2 \<and> 1 \<le> first_nonopt g' \<and> first_nonopt g' \<le> last_nonopt g' \<and>
    last_nonopt g' \<le> 2"
proof -
  have "getopt_ready [[112], [45, 45, 120]] getopt_globals0"
    by (simp add: getopt_ready_def getopt_globals0_def)
  then show ?thesis
    using getopt_call_safe [of "[[112], [45, 45, 120]]" getopt_globals0 "[97]" 2 None "Some []" False] by simp
qed

text \<open>The calls of a program until the end of the options, with at most the given number.\<close>

fun getopt_scan ::
  "nat \<Rightarrow> cstr option \<Rightarrow> cstr \<Rightarrow> long_option list option \<Rightarrow> bool \<Rightarrow> cstr list \<Rightarrow> getopt_globals \<Rightarrow> int list option" where
  "getopt_scan 0 env os longopts long_only argv g = None"
| "getopt_scan (Suc n) env os longopts long_only argv g =
     (case getopt_internal env (int (length argv)) argv os longopts long_only g of
        None \<Rightarrow> None
      | Some (r, argv', g') \<Rightarrow>
          if r = - 1 then Some []
          else map_option (Cons r) (getopt_scan n env os longopts long_only argv' g'))"

text \<open>
  C19 (termination). With an option string without \<open>;\<close> every scan ends: after at most as many calls as there are bytes and ends of
  elements left to read, \<open>getopt\<close>, \<open>getopt_long\<close> or \<open>getopt_long_only\<close> returns -1.
\<close>

theorem getopt_scan_terminates:
  assumes "getopt_ready argv g" and "59 \<notin> set os"
  shows "\<exists>rs. getopt_scan (Suc (getopt_left argv g)) env os longopts long_only argv g = Some rs"
proof -
  have "\<exists>rs. getopt_scan n env os longopts long_only argv g = Some rs"
    if "getopt_left argv g < n" "getopt_ready argv g" for n argv g
    using that
  proof (induction n arbitrary: argv g)
    case (Suc n)
    obtain r argv' g' where call: "getopt_internal env (int (length argv)) argv os longopts long_only g = Some (r, argv', g')"
      and "getopt_wf argv' g'" "r = - 1 \<or> getopt_left argv' g' < getopt_left argv g"
      using getopt_internal_safe [OF Suc.prems(2) assms(2) refl] by blast
    then have "r = - 1 \<or> (\<exists>rs. getopt_scan n env os longopts long_only argv' g' = Some rs)"
      using Suc.prems(1) Suc.IH [of argv' g'] by (auto simp: getopt_ready_def)
    with call show ?case by auto
  qed simp
  with assms(1) show ?thesis by blast
qed

theorem getopt_scan_terminates_witness:
  "\<exists>rs. getopt_scan (Suc (getopt_left [[112], [45, 97, 97]] getopt_globals0)) None [97] None False
     [[112], [45, 97, 97]] getopt_globals0 = Some rs"
proof -
  have "getopt_ready [[112], [45, 97, 97]] getopt_globals0"
    by (simp add: getopt_ready_def getopt_globals0_def)
  then show ?thesis by (rule getopt_scan_terminates) simp
qed

section \<open>The search for long options\<close>

text \<open>
  What the search is for: the first row with exactly the name, otherwise the row of which the
  name is an abbreviation, unless there are several that differ in what they stand for. With
  \<open>getopt_long_only\<close> several are always ambiguous.
\<close>

datatype lookup = Not_Found | Found nat | Ambiguous

definition same_option :: "long_option \<Rightarrow> long_option \<Rightarrow> bool" where
  "same_option p q \<longleftrightarrow> lo_has_arg p = lo_has_arg q \<and> lo_flag p = lo_flag q \<and> lo_val p = lo_val q"

definition rows :: "(long_option \<Rightarrow> bool) \<Rightarrow> long_option list \<Rightarrow> nat \<Rightarrow> nat list" where
  "rows P table k = filter (\<lambda>i. P (table ! i)) [0..<k]"

definition long_lookup :: "bool \<Rightarrow> cstr \<Rightarrow> long_option list \<Rightarrow> lookup" where
  "long_lookup long_only nm table =
     (case rows (\<lambda>p. lo_name p = nm) table (length table) of
        i # _ \<Rightarrow> Found i
      | [] \<Rightarrow>
          (case rows (\<lambda>p. take (length nm) (lo_name p) = nm) table (length table) of
             [] \<Rightarrow> Not_Found
           | i # others \<Rightarrow>
               if \<exists>j \<in> set others. long_only \<or> \<not> same_option (table ! i) (table ! j) then Ambiguous else Found i))"

text \<open>How \<open>getopt_long_option\<close> reads the result of its search.\<close>

fun scan_outcome :: "(long_option \<times> int) option \<times> bool \<times> bool \<Rightarrow> lookup" where
  "scan_outcome (pfound, ex, ambig) =
     (if ambig \<and> \<not> ex then Ambiguous else case pfound of None \<Rightarrow> Not_Found | Some (p, i) \<Rightarrow> Found (nat i))"

lemma rows_Suc: "rows P table (Suc k) = rows P table k @ (if P (table ! k) then [k] else [])"
  by (simp add: rows_def)

lemma rows_exact:
  assumes "rows P table k = []" and "P (table ! k)" and "k < length table"
  shows "\<exists>others. rows P table (length table) = k # others"
proof -
  have "[0..<length table] = [0..<k] @ k # [Suc k..<length table]"
    using assms(3) by (metis le_add1 less_imp_le upt_add_eq_append upt_conv_Cons le_add_diff_inverse add_0)
  then show ?thesis using assms(1,2) by (simp add: rows_def)
qed

lemma u32_length_eq:
  assumes "m < 2 ^ 32" and "n < 2 ^ 32"
  shows "(of_nat m :: u32) = of_nat n \<longleftrightarrow> m = n"
proof
  assume "(of_nat m :: u32) = of_nat n"
  then have "unat (of_nat m :: u32) = unat (of_nat n :: u32)" by simp
  with assms show "m = n" by (simp add: unat_of_nat)
qed simp

text \<open>The two accumulators of the search, for the abbreviations seen so far.\<close>

definition first_row :: "long_option list \<Rightarrow> nat list \<Rightarrow> (long_option \<times> int) option" where
  "first_row table cands = (case cands of [] \<Rightarrow> None | i # _ \<Rightarrow> Some (table ! i, int i))"

definition clash :: "bool \<Rightarrow> long_option list \<Rightarrow> nat list \<Rightarrow> bool" where
  "clash long_only table cands = (case cands of [] \<Rightarrow> False
     | i # others \<Rightarrow> \<exists>j \<in> set others. long_only \<or> \<not> same_option (table ! i) (table ! j))"

lemma clash_simps:
  "\<not> clash lo table []" "\<not> clash lo table [k]"
  "clash lo table (i # cands @ [k]) \<longleftrightarrow> clash lo table (i # cands) \<or> lo \<or> \<not> same_option (table ! i) (table ! k)"
  by (auto simp: clash_def)

lemma long_scan_from:
  assumes "length nm < 2 ^ 32" and "\<And>p. p \<in> set table \<Longrightarrow> length (lo_name p) < 2 ^ 32"
    and "k \<le> length table" and "rows (\<lambda>p. lo_name p = nm) table k = []"
  shows "scan_outcome (long_scan long_only nm (int k) (drop k table)
      (first_row table (rows (\<lambda>p. take (length nm) (lo_name p) = nm) table k))
      (clash long_only table (rows (\<lambda>p. take (length nm) (lo_name p) = nm) table k)))
    = long_lookup long_only nm table"
  using assms(3-)
proof (induction "length table - k" arbitrary: k)
  case 0
  then have "k = length table" by simp
  with 0 show ?case by (auto simp: long_lookup_def first_row_def clash_def split: list.split)
next
  case (Suc n)
  define p where "p = table ! k"
  define cands where "cands = rows (\<lambda>p. take (length nm) (lo_name p) = nm) table k"
  have k: "k < length table" using Suc.hyps(2) by simp
  then have drop: "drop k table = p # drop (Suc k) table" by (simp add: p_def Cons_nth_drop_Suc)
  have len: "(of_nat (length nm) :: u32) = of_nat (length (lo_name p)) \<longleftrightarrow> length nm = length (lo_name p)"
    using assms(1,2) k by (intro u32_length_eq) (simp_all add: p_def)
  have IH: "scan_outcome (long_scan long_only nm (int k + 1) (drop (Suc k) table)
      (first_row table cands') (clash long_only table cands')) = long_lookup long_only nm table"
    if "lo_name p \<noteq> nm" "cands' = rows (\<lambda>p. take (length nm) (lo_name p) = nm) table (Suc k)" for cands'
    using Suc.hyps(1) [of "Suc k"] Suc.hyps(2) Suc.prems k that by (simp add: rows_Suc p_def add.commute)
  consider (no) "take (length nm) (lo_name p) \<noteq> nm" | (ex) "lo_name p = nm"
    | (abb) "take (length nm) (lo_name p) = nm" "lo_name p \<noteq> nm" by blast
  then show ?case
  proof cases
    case no
    then have "lo_name p \<noteq> nm" by auto
    with no IH [OF this, of cands] show ?thesis
      by (simp add: drop rows_Suc cands_def p_def)
  next
    case ex
    with rows_exact [of "\<lambda>p. lo_name p = nm" table k] Suc.prems k
    show ?thesis by (auto simp: drop p_def long_lookup_def)
  next
    case abb
    then have "length nm \<noteq> length (lo_name p)" by auto
    moreover have "rows (\<lambda>p. take (length nm) (lo_name p) = nm) table (Suc k) = cands @ [k]"
      using abb by (simp add: rows_Suc cands_def p_def)
    ultimately show ?thesis
      using IH [OF abb(2) refl] abb len
      by (cases cands) (auto simp: drop clash_simps same_option_def p_def first_row_def
        simp flip: cands_def split: if_splits)
  qed
qed

text \<open>
  C28 (functional). The search of \<open>getopt_long\<close> and \<open>getopt_long_only\<close> finds the row that the
  documentation promises: an exact match before any abbreviation, the unique abbreviated
  option otherwise, and it reports an ambiguity just when there is one.
\<close>

theorem long_scan_finds:
  assumes "length nm < 2 ^ 32" and "\<And>p. p \<in> set table \<Longrightarrow> length (lo_name p) < 2 ^ 32"
  shows "scan_outcome (long_scan long_only nm 0 table None False) = long_lookup long_only nm table"
  using long_scan_from [OF assms, where k = 0 and long_only = long_only] by (simp add: rows_def first_row_def clash_def)

theorem long_scan_finds_witness:
  "scan_outcome (long_scan False [97] 0
     [\<lparr>lo_name = [97, 98], lo_has_arg = 0, lo_flag = NULL, lo_val = 1\<rparr>,
      \<lparr>lo_name = [97, 99], lo_has_arg = 1, lo_flag = NULL, lo_val = 1\<rparr>] None False)
   = long_lookup False [97]
     [\<lparr>lo_name = [97, 98], lo_has_arg = 0, lo_flag = NULL, lo_val = 1\<rparr>,
      \<lparr>lo_name = [97, 99], lo_has_arg = 1, lo_flag = NULL, lo_val = 1\<rparr>]"
  by (rule long_scan_finds) auto

section \<open>Where the code fails\<close>

lemmas getopt_eval =
  getopt_long_def getopt_internal_def getopt_initialize_def getopt_globals0_def getopt_advance_def
  getopt_permute_def skip_nonoptions.simps getopt_dashdash_def getopt_element_def str_dashdash_def
  getopt_is_long_def getopt_short_option_def required_arg_def invalid_option_def getopt_W_lookup_def
  long_name_def print_message_def char_at_def char_int_def rdi_def rd_def Let_def

text \<open>
  The mode character at the start of the option string is skipped by the first call only:
  with \<open>+a\<close> the option \<open>-+\<close> is invalid there, and a valid option in every later call.
\<close>

lemma plus_invalid_first:
  "getopt_scan (Suc (Suc (Suc 0))) env [43, 97] None False [p, [45, 43]] getopt_globals0 = Some [63]"
  by (simp add: getopt_eval)

lemma plus_valid_later:
  "getopt_scan (Suc (Suc (Suc 0))) env [43, 97] None False [p, [45, 97], [45, 43]] getopt_globals0 = Some [97, 43]"
  by (simp add: getopt_eval)

text \<open>
  The message for an ambiguous argument of \<open>-W\<close> prints the element after it, which is the null
  pointer at the end of \<open>argv\<close> when the argument was the last one.
\<close>

lemma W_ambiguous_undefined:
  "getopt_long env 3 [p, [45, 87], [97]] [87, 59]
     (Some [\<lparr>lo_name = [97, 98], lo_has_arg = 0, lo_flag = NULL, lo_val = 1\<rparr>,
            \<lparr>lo_name = [97, 99], lo_has_arg = 0, lo_flag = NULL, lo_val = 2\<rparr>]) None getopt_globals0 = None"
  by (simp add: getopt_eval)

end
