(* ===== verification/Spec2Isabelle.thy ===== *)
theory Spec2Isabelle
  imports Tools_Properties Iq_Properties Tools_Argv Getopt_Properties
begin

text \<open>
  A verification library for the driver of the Airspy HF+ receivers, \<open>libairspyhf\<close>
  (\<open>src/libairspyhf/src\<close>), and for the command line programs that come with it
  (\<open>src/tools/src\<close>).

  \<^bold>\<open>The program.\<close> An application opens a receiver, tunes it, and starts a stream. The driver
  then runs two threads: the transfer thread handles the completions of sixteen USB bulk
  transfers and puts the received buffers into a ring of eight, the consumer thread takes
  them out, converts them to complex floats (with an IQ correction that an estimator adapts
  to the signal) and calls the application. A stop joins both threads, a close releases
  everything.

  \<^bold>\<open>Theories and sources.\<close>
  \<^item> \<open>Prelude\<close>: machine integers, memory accesses as options, list lemmas, the collections of
    simplification rules. \<open>None\<close> stands for undefined behaviour throughout.
  \<^item> \<open>C_Float\<close>, \<open>Float_Bounds\<close>: the \<open>float\<close> and \<open>double\<close> of C as rounded rational arithmetic.
    \<open>C_Strings\<close>: \<open>strtoull\<close>.
  \<^item> \<open>Airspyhf_Types\<close>: \<open>airspyhf.h\<close>, \<open>airspyhf_commands.h\<close>. \<open>Device\<close>: the device structure and the
    constants of \<open>airspyhf.c\<close>. \<open>Usb_World\<close>: libusb, the allocator and the thread library as
    answers to calls, and the trace of these calls.
  \<^item> \<open>Sample_Queue\<close>: the ring of received buffers and its locale \<open>sample_queue\<close>. \<open>Transfers\<close>:
    \<open>allocate_transfers\<close>, \<open>free_transfers\<close>, submission, cancellation and the completion callback.
    \<open>Convert\<close>: \<open>convert_samples\<close>.
  \<^item> \<open>Stream_Control\<close>: \<open>airspyhf_start\<close>, \<open>airspyhf_stop\<close> and the creation and end of the threads as
    sequential code. \<open>Streaming\<close>: the two threads, the USB host and the application as the step
    relation \<open>stream_step\<close>. Every access to the unlocked flags \<open>streaming\<close> and \<open>stop_requested\<close> is a
    step of its own; what the mutex protects, or one thread only accesses, is one step for each
    section.
  \<^item> \<open>Stream_Invariants\<close>, \<open>Stream_Properties\<close>, \<open>Start_Stop\<close>, \<open>Lifecycle\<close>: the invariants of the
    stream, what it delivers, its end, and the life of a stream from allocation to release.
  \<^item> \<open>Control\<close>, \<open>Control_Properties\<close>: tuning, sample rates, calibration, flash configuration,
    attenuators and the vendor commands; the locale \<open>vendor_command\<close>.
  \<^item> \<open>Open_Close\<close>, \<open>Open_Properties\<close>: listing, opening and closing devices.
  \<^item> \<open>Iq_Fft\<close>, \<open>Iq_Fft_Correct\<close>: the FFT of \<open>iqbalancer.c\<close> over an arbitrary arithmetic, its
    recursive reference and, in the locale \<open>fft_ring\<close>, the discrete Fourier transform.
  \<^item> \<open>Iq_Balancer\<close>, \<open>Iq_Safety\<close>, \<open>Iq_Properties\<close>: the estimator and the correction of
    \<open>iqbalancer.c\<close> in binary32, and the invariant that keeps them defined.
  \<^item> \<open>Tool_Text\<close>, \<open>Rx_Tool\<close>, \<open>Rx_Properties\<close>: \<open>airspyhf_rx.c\<close>.
  \<^item> \<open>Small_Tools\<close>, \<open>Tools_Properties\<close>: \<open>airspyhf_calibrate.c\<close>, \<open>airspyhf_gpio.c\<close>,
    \<open>airspyhf_info.c\<close>, \<open>airspyhf_lib_version.c\<close>.
  \<^item> \<open>Getopt\<close>: \<open>getopt.c\<close> and \<open>getopt.h\<close> of \<open>src/tools/getopt\<close>, with the global variables as the record
    \<open>getopt_globals\<close>. \<open>Getopt_Correct\<close>: \<open>exchange\<close> as a rotation, and the reference parser with the
    simulation that relates it to the calls. \<open>Getopt_Safety\<close>: the invariant and the measure of a
    scan with long options. \<open>Getopt_Properties\<close>: what follows.
  \<^item> \<open>Tools_Argv\<close>: the programs from \<open>argv\<close>, and the locale \<open>option_program\<close>, which each interprets with
    its option string and its \<open>switch\<close>.

  \<^bold>\<open>State and effects.\<close> A C structure is a record of the same name with the same fields; an
  array behind a pointer is its contents next to its address. A function that changes the
  device returns it updated; one that calls libusb, the allocator or the thread library
  takes the environment \<open>E\<close> and the trace \<open>w\<close> and returns the longer trace. Answers may depend on
  the whole trace, so a theorem for every \<open>E\<close> covers every device, host and pattern of
  failures. \<open>live w\<close> is the multiset of blocks, handles, lists, contexts and files acquired in \<open>w\<close>
  and not yet released. The library functions whose results the C standard leaves open (\<open>cos\<close>, \<open>sin\<close>,
  \<open>exp\<close>, \<open>pow\<close>, \<open>powf\<close>) and the \<open>%f\<close> conversion of \<open>sscanf\<close> are parameters. Indeterminate memory
  is a parameter as well.

  \<^bold>\<open>What is shown.\<close> In every interleaving the application receives the delivered blocks in order
  and unmodified, no thread writes a buffer another one reads, buffers are neither lost nor
  duplicated, drops are counted, nobody sleeps through a wake-up, and once a stop has cleared
  \<open>streaming\<close> every step of the threads brings their exit nearer. The stop itself has a race: it
  clears \<open>stop_requested\<close> before \<open>streaming\<close>, and a consumer that tests the flags in between can
  take a slot of an empty queue and deliver a block that was never received
  (\<open>stop_race_delivers_stale\<close>). The state records the first such event (\<open>stale\<close>); the properties
  of the order, of the exclusive buffers, of the lower bound of the count and of the stamps
  hold up to \<open>kill_io_threads\<close>, and beyond it as long as the event has not happened. A
  start leads into these states, a stop out of them, and every control operation is a step
  of the stream; those that write what a conversion reads do so without a lock, and a conversion
  they disturb (\<open>disturbed\<close>) may give any samples in the model. In C it is undefined, and so
  is its use of the power flags that \<open>airspyhf_iq_balancer_configure\<close> frees. What an open acquires
  a close releases. Tuning, rate selection, attenuation and flash configuration do what they
  are for. The FFT is the discrete Fourier transform, and the balancer stays defined in every
  session of valid parameters. The receiver program records a prefix of the samples, the
  requested one when \<open>fwrite\<close> takes everything, describes them in its header and releases what it
  acquired, but for the file after a failure. On every command line \<open>getopt\<close> gives the programs
  the options a left-to-right parser finds, moves the operands behind them, stays within \<open>argv\<close>
  and comes to an end. Where the code fails in such a property
  the theorem states the failure: masked errors of libusb, a failed start that stays
  streaming, reads past the version string, an overlap of zero, an overflowing limit, receivers
  that are never closed, a null \<open>optarg\<close> that is printed, a message of \<open>getopt\<close> about \<open>-W\<close> that
  reads a null pointer (which is why the properties of the scan exclude option strings with a
  semicolon).

  \<^bold>\<open>Loops.\<close> Loops over arrays are structural recursions. The carry loop of the bit reversal is
  \<open>partial_function (option)\<close>: \<open>fft_eq_recursive\<close> shows that it ends. \<open>cancel_transfers\<close> waits in
  at most as many rounds as there are transfers, as the code does. The loops of the threads are steps of the
  relation, and their end is the subject of \<open>stop_joins_threads\<close> and \<open>shutdown_monotone\<close>.
  The waiting loop of the receiver program runs over the seconds that pass, and \<open>rx_wait_None\<close> says
  when they are enough. The loops of \<open>exchange\<close> and of the search for the next option have measures; a program's loop
  over \<open>getopt\<close> is \<open>partial_function (option)\<close>, whose end is part of \<open>getopt_matches_reference\<close>, and
  \<open>getopt_scan_terminates\<close> says how many calls are enough in general.

  \<^bold>\<open>Not modelled.\<close> Texts printed for the user, except the messages of \<open>getopt\<close>; the branches of
  \<open>getopt.c\<close> for a build inside glibc and its test program, which are not compiled; the Android and MSVC branches and the CMake files; the
  usage texts and the verbose output of the programs; the objects of the thread library, which
  have no state of their own: the mutex is held at the program points of \<open>consumer_locks\<close> and
  within the locked steps of the others, a wait is the point \<open>C_Waiting\<close>, and a join is the rule
  \<open>main_join\<close>, while the sequential \<open>kill_io_threads\<close> records it in the trace. The accesses to the
  flags are taken as sequentially consistent. The shift of a negative \<open>int8_t\<close> in the frequency
  correction, undefined in C before 2023, has its arithmetic value, and the name of the WAV
  file, kept in an array whose block has ended, is taken as still there.
\<close>

end
